theory Spec2Isabelle
  imports Main "HOL-Library.Word" "HOL-Library.Char_ord" "HOL-Library.List_Lexorder"
    "HOL-Library.AList"
begin

section \<open>Values, errors and the parameters of the store\<close>

type_synonym Path = string
type_synonym Paths = "string list"
type_synonym PathSet = "string set"
type_synonym Strings = "string list"

datatype HashType = htUnknown | htMD5 | htSHA1 | htSHA256

record Hash =
  htype :: HashType
  hbytes :: string

subsection \<open>Derivations, as far as the two files read them\<close>

record DerivationOutput =
  outputPath :: Path

record DerivationStateOutput =
  statepath :: Path
  componentHash :: string
  stateIdentifier :: string
  username :: string

text \<open>
  The three \<^verbatim>\<open>std::map\<close>s of a derivation are association lists read with \<open>map_of\<close>.
  The field \<^verbatim>\<open>path\<close> of an output is \<open>outputPath\<close> here, since \<open>path\<close> is the field of
  \<^verbatim>\<open>ValidPathInfo\<close>.
\<close>

record Derivation =
  outputs :: "(string \<times> DerivationOutput) list"
  stateOutputs :: "(string \<times> DerivationStateOutput) list"
  env :: "(string \<times> string) list"

definition map_size :: "(string \<times> 'v) list \<Rightarrow> nat" where
  "map_size m = length (remdups (map fst m))"

text \<open>
  Every \<^verbatim>\<open>throw Error(...)\<close> of the two source files is one constructor, named after
  the condition that raises it. \<open>UndefinedDeref\<close> stands for dereferencing the end
  iterator of a \<^verbatim>\<open>std::map::find\<close> that found nothing.
\<close>

datatype error =
    InvalidName
  | NotStorePath
  | NotStatePath
  | NotRealisable
  | NotValidComponentOrState
  | NotValid
  | InvalidReference
  | PathInUse
  | NoTimestampForRevision
  | MalformedSubstitute
  | StateDeriver
  | NotAStatePathQuery
  | EmptyUser
  | WrongFormat
  | LacksSignature
  | SignatureMismatch
  | CorruptHash
  | UnknownHashType
  | AssertionFailed
  | SysError
  | BackendError
  | EndOfFile
  | UndefinedDeref
  | Diverges

text \<open>
  \<open>SysError\<close> is a failed file-system call, \<open>BackendError\<close> a failure inside one of the
  parameters below, \<open>EndOfFile\<close> a read past the end of a stream, \<open>AssertionFailed\<close> a
  failed \<^verbatim>\<open>assert\<close>. \<open>Diverges\<close> is not an exception: it marks a call that does not
  return, because the alias walk \<^verbatim>\<open>toNonSharedPathTxn\<close> inside it runs forever.
\<close>

fun bindE :: "error + 'a \<Rightarrow> ('a \<Rightarrow> error + 'b) \<Rightarrow> error + 'b" where
  "bindE (Inl err) f = Inl err"
| "bindE (Inr x) f = f x"

fun foldE :: "('a \<Rightarrow> 'b \<Rightarrow> error + 'b) \<Rightarrow> 'a list \<Rightarrow> 'b \<Rightarrow> error + 'b" where
  "foldE f [] acc = Inr acc"
| "foldE f (x # xs) acc = bindE (f x acc) (foldE f xs)"

type_synonym u32 = "32 word"

text \<open>A row of a state-keyed reference table: the key is a state path and a timestamp.\<close>

type_synonym stable = "((Path \<times> u32) \<times> Paths) list"
type_synonym rtable = "((Path \<times> u32) \<times> (Path \<times> u32) list) list"

datatype fsobj = File string | DrvFile Derivation

text \<open>
  Modelled from the spec: the stream primitives of serialise.cc and archive.cc are not
  under src. A stream is the list of the values written to it: the archive of a path,
  32-bit integers and strings (section 4.9).
\<close>

datatype token = TNar fsobj | TInt u32 | TStr string

text \<open>
  The functions and constants that the two files use and that other files of the
  repository define (hash.cc, util.cc, globals.cc, db.cc, archive.cc) are parameters of
  the model. A parameter that can fail returns \<open>None\<close> where it fails.
\<close>

record extern =
  nixStore :: string
  nixStoreState :: string
  printHash :: "Hash \<Rightarrow> string"
  printHash32 :: "Hash \<Rightarrow> string"
  compressHash :: "Hash \<Rightarrow> nat \<Rightarrow> Hash"
  hashString :: "HashType \<Rightarrow> string \<Rightarrow> Hash"
  hashPath :: "HashType \<Rightarrow> fsobj \<Rightarrow> Hash"
  parseHashType :: "string \<Rightarrow> HashType"
  parseHash :: "HashType \<Rightarrow> string \<Rightarrow> Hash option"
  queryCallingUsername :: string
  unpackStrings :: "string \<Rightarrow> string list option"
  packStrings :: "string list \<Rightarrow> string"
  string2Int :: "string \<Rightarrow> int option"
  canonPath :: "Path \<Rightarrow> Path option"
  queryStateReferences :: "stable \<Rightarrow> rtable \<Rightarrow> Path \<Rightarrow> u32 \<Rightarrow> u32 \<Rightarrow> (bool \<times> Paths) option"
  setStateReferences :: "stable \<Rightarrow> rtable \<Rightarrow> Path \<Rightarrow> Paths \<Rightarrow> u32 \<Rightarrow> u32 \<Rightarrow> stable option"
  revisionToTimeStamp :: "rtable \<Rightarrow> Path \<Rightarrow> u32 \<Rightarrow> u32 option"
  hashStream :: "token list \<Rightarrow> Hash"
  rsaSign :: "string \<Rightarrow> string option"
  rsaVerify :: "string \<Rightarrow> string option"

section \<open>store-api.cc: path naming\<close>

definition isInStore :: "extern \<Rightarrow> Path \<Rightarrow> bool" where
  "isInStore e path \<longleftrightarrow>
     take 1 path = ''/''
     \<and> take (length (nixStore e)) path = nixStore e
     \<and> length path \<ge> length (nixStore e) + 2
     \<and> path ! length (nixStore e) = CHR ''/''"

definition isInStateStore :: "extern \<Rightarrow> Path \<Rightarrow> bool" where
  "isInStateStore e path \<longleftrightarrow>
     take 1 path = ''/''
     \<and> take (length (nixStoreState e)) path = nixStoreState e
     \<and> length path \<ge> length (nixStoreState e) + 2
     \<and> path ! length (nixStoreState e) = CHR ''/''"

definition isStorePath :: "extern \<Rightarrow> Path \<Rightarrow> bool" where
  "isStorePath e path \<longleftrightarrow>
     isInStore e path \<and> CHR ''/'' \<notin> set (drop (length (nixStore e) + 1) path)"

definition isStatePath :: "extern \<Rightarrow> Path \<Rightarrow> bool" where
  "isStatePath e path \<longleftrightarrow>
     isInStateStore e path \<and> CHR ''/'' \<notin> set (drop (length (nixStoreState e) + 1) path)"

definition assertStorePath :: "extern \<Rightarrow> Path \<Rightarrow> error + unit" where
  "assertStorePath e path = (if \<not> isStorePath e path then Inl NotStorePath else Inr ())"

definition assertStatePath :: "extern \<Rightarrow> Path \<Rightarrow> error + unit" where
  "assertStatePath e path = (if \<not> isStatePath e path then Inl NotStatePath else Inr ())"

text \<open>
  The character test of \<^verbatim>\<open>checkStoreName\<close>. The three ranges are compared on the
  byte value; a byte above 127 is outside every range whether \<^verbatim>\<open>char\<close> is signed or
  not.
\<close>

definition validNameChar :: "char \<Rightarrow> bool" where
  "validNameChar c \<longleftrightarrow>
     (c \<ge> CHR ''A'' \<and> c \<le> CHR ''Z'')
     \<or> (c \<ge> CHR ''a'' \<and> c \<le> CHR ''z'')
     \<or> (c \<ge> CHR ''0'' \<and> c \<le> CHR ''9'')
     \<or> c \<in> set ''+-._?=''"

definition checkStoreName :: "string \<Rightarrow> error + unit" where
  "checkStoreName name =
     (if take 1 name = ''.'' then Inl InvalidName
      else if \<not> list_all validNameChar name then Inl InvalidName
      else Inr ())"

definition makeStorePath :: "extern \<Rightarrow> string \<Rightarrow> Hash \<Rightarrow> string \<Rightarrow> error + Path" where
  "makeStorePath e type hash suffix =
     (let s = type @ '':sha256:'' @ printHash e hash @ '':'' @ nixStore e @ '':'' @ suffix
      in case checkStoreName suffix of
           Inl err \<Rightarrow> Inl err
         | Inr _ \<Rightarrow>
             Inr (nixStore e @ ''/''
                  @ printHash32 e (compressHash e (hashString e htSHA256 s) 20)
                  @ ''-'' @ suffix))"

definition makeStatePath :: "extern \<Rightarrow> string \<Rightarrow> string \<Rightarrow> string \<Rightarrow> error + Path" where
  "makeStatePath e componentHash' suffix stateIdentifier' =
     (let suffix_stateIdentifier = ''-'' @ stateIdentifier';
          username = queryCallingUsername e;
          s = '':sha256:'' @ componentHash' @ '':'' @ nixStoreState e @ '':'' @ suffix
              @ '':'' @ stateIdentifier' @ '':'' @ username
      in case checkStoreName suffix of
           Inl err \<Rightarrow> Inl err
         | Inr _ \<Rightarrow>
            (case checkStoreName stateIdentifier' of
               Inl err \<Rightarrow> Inl err
             | Inr _ \<Rightarrow>
                 Inr (nixStoreState e @ ''/''
                      @ printHash32 e (compressHash e (hashString e htSHA256 s) 20)
                      @ ''-'' @ suffix @ suffix_stateIdentifier)))"

text \<open>
  \<^verbatim>\<open>checkStatePath\<close>: the last statement builds an \<^verbatim>\<open>Error\<close> object and drops it (there
  is no \<^verbatim>\<open>throw\<close>), so both branches of the comparison return normally.
\<close>

definition checkStatePath :: "extern \<Rightarrow> Derivation \<Rightarrow> error + unit" where
  "checkStatePath e drv =
     (case map_of (stateOutputs drv) ''state'' of
        None \<Rightarrow> Inl UndefinedDeref
      | Some so \<Rightarrow>
         (case map_of (env drv) ''name'' of
            None \<Rightarrow> Inl UndefinedDeref
          | Some suffix \<Rightarrow>
             (let drvPath = statepath so
              in case makeStatePath e (componentHash so) suffix (stateIdentifier so) of
                   Inl err \<Rightarrow> Inl err
                 | Inr calculatedPath \<Rightarrow>
                     (if drvPath \<noteq> calculatedPath then Inr () else Inr ()))))"

subsection \<open>The name rule in the words of the specification\<close>

definition storeNameCharset :: "char set" where
  "storeNameCharset =
     set ''ABCDEFGHIJKLMNOPQRSTUVWXYZabcdefghijklmnopqrstuvwxyz0123456789+-._?=''"

definition startsWithDot :: "string \<Rightarrow> bool" where
  "startsWithDot name \<longleftrightarrow> (case name of [] \<Rightarrow> False | c # _ \<Rightarrow> c = CHR ''.'')"

section \<open>local-store.cc: the database\<close>

text \<open>
  Modelled from the spec: the key/value backend (db.cc) is not under src. Following
  section 4.2 of the specification, a table maps a key to a single string or to an
  ordered list of strings, a key has at most one row, and \<^verbatim>\<open>enumTable\<close> lists the keys. A
  table is an association list; a write replaces the row of its key. The keys of the
  two state-keyed reference tables and of the revision table are pairs of a state path
  and a number, so \<^verbatim>\<open>mergeToDBKey\<close> is pairing and \<^verbatim>\<open>splitDBKey\<close> the two projections.
\<close>

definition queryString :: "('k \<times> 'v) list \<Rightarrow> 'k \<Rightarrow> 'v option" where
  "queryString t k = map_of t k"

definition setString :: "('k \<times> 'v) list \<Rightarrow> 'k \<Rightarrow> 'v \<Rightarrow> ('k \<times> 'v) list" where
  "setString t k v = AList.update k v t"

definition queryStrings :: "('k \<times> 'v list) list \<Rightarrow> 'k \<Rightarrow> 'v list" where
  "queryStrings t k = (case map_of t k of None \<Rightarrow> [] | Some l \<Rightarrow> l)"

definition setStrings :: "('k \<times> 'v list) list \<Rightarrow> 'k \<Rightarrow> 'v list \<Rightarrow> ('k \<times> 'v list) list" where
  "setStrings t k l = AList.update k l t"

definition delPair :: "('k \<times> 'v) list \<Rightarrow> 'k \<Rightarrow> ('k \<times> 'v) list" where
  "delPair t k = AList.delete k t"

definition enumTable :: "('k \<times> 'v) list \<Rightarrow> 'k list" where
  "enumTable t = remdups (map fst t)"

text \<open>
  The table of derivers is written with \<^verbatim>\<open>setString\<close> (one deriver) and with
  \<^verbatim>\<open>setStrings\<close> (the derivers of a component with state), and read both ways. A row
  records how it was written; reading it the other way goes through the framing of
  string lists.
\<close>

datatype drow = Single string | Multi "string list"

record store =
  dbValidPaths :: "(Path \<times> string) list"
  dbValidStatePaths :: "(Path \<times> string) list"
  dbComponentComponentReferences :: "(Path \<times> Paths) list"
  dbComponentStateReferences :: "(Path \<times> Paths) list"
  dbStateComponentReferences :: stable
  dbStateStateReferences :: stable
  dbSubstitutes :: "(Path \<times> Strings) list"
  dbDerivers :: "(Path \<times> drow) list"
  dbStateInfo :: "(Path \<times> string) list"
  dbStateRevisions :: rtable
  dbSharedState :: "(Path \<times> Path) list"
  fs :: "Path \<rightharpoonup> fsobj"

definition queryDeriverString :: "extern \<Rightarrow> store \<Rightarrow> Path \<Rightarrow> string option" where
  "queryDeriverString e s p =
     (case map_of (dbDerivers s) p of
        None \<Rightarrow> None
      | Some (Single v) \<Rightarrow> Some v
      | Some (Multi l) \<Rightarrow> Some (packStrings e l))"

definition queryDeriverStrings :: "extern \<Rightarrow> store \<Rightarrow> Path \<Rightarrow> error + Strings" where
  "queryDeriverStrings e s p =
     (case map_of (dbDerivers s) p of
        None \<Rightarrow> Inr []
      | Some (Multi l) \<Rightarrow> Inr l
      | Some (Single v) \<Rightarrow>
          (case unpackStrings e v of None \<Rightarrow> Inl BackendError | Some l \<Rightarrow> Inr l))"

text \<open>
  Modelled from the spec: the file system and \<^verbatim>\<open>derivationFromPathTxn\<close> (misc.cc) are
  not under src. A store path is one object of the file system; a recipe is a component
  path whose file declares its outputs and state outputs (section 6, recipe extraction
  contract). \<^verbatim>\<open>deletePath\<close> removes the object and fails when there is none.
\<close>

definition pathExists :: "store \<Rightarrow> Path \<Rightarrow> bool" where
  "pathExists s p \<longleftrightarrow> fs s p \<noteq> None"

definition derivationFromPathTxn :: "store \<Rightarrow> Path \<Rightarrow> error + Derivation" where
  "derivationFromPathTxn s drvPath =
     (case fs s drvPath of Some (DrvFile d) \<Rightarrow> Inr d | _ \<Rightarrow> Inl SysError)"

definition deletePath :: "store \<Rightarrow> Path \<Rightarrow> error + store" where
  "deletePath s p =
     (case fs s p of None \<Rightarrow> Inl SysError | Some _ \<Rightarrow> Inr (s\<lparr>fs := (fs s)(p := None)\<rparr>))"

subsection \<open>Validity\<close>

definition isValidPathTxn :: "store \<Rightarrow> Path \<Rightarrow> bool" where
  "isValidPathTxn s p \<longleftrightarrow> queryString (dbValidPaths s) p \<noteq> None"

definition isValidStatePathTxn :: "store \<Rightarrow> Path \<Rightarrow> bool" where
  "isValidStatePathTxn s p \<longleftrightarrow> queryString (dbValidStatePaths s) p \<noteq> None"

definition isValidComponentOrStatePathTxn :: "store \<Rightarrow> Path \<Rightarrow> bool" where
  "isValidComponentOrStatePathTxn s p \<longleftrightarrow> isValidPathTxn s p \<or> isValidStatePathTxn s p"

subsection \<open>Substitutes\<close>

record Substitute =
  deriver :: Path
  program :: Path
  args :: Strings

text \<open>\<^verbatim>\<open>Substitute::operator ==\<close> compares the program and the arguments only.\<close>

definition subEq :: "Substitute \<Rightarrow> Substitute \<Rightarrow> bool" where
  "subEq a b \<longleftrightarrow> program a = program b \<and> args a = args b"

fun readSubstitutesLoop :: "extern \<Rightarrow> Strings \<Rightarrow> error + Substitute list" where
  "readSubstitutesLoop e [] = Inr []"
| "readSubstitutesLoop e (i # ss) =
     (if length i < 4 \<or> i ! 3 \<noteq> CHR 0x00 then Inr []
      else
        (case unpackStrings e i of
           None \<Rightarrow> Inl BackendError
         | Some ss2 \<Rightarrow>
             if length ss2 = 0 then readSubstitutesLoop e ss
             else
               (case string2Int e (hd ss2) of
                  None \<Rightarrow> readSubstitutesLoop e ss
                | Some version \<Rightarrow>
                    if version \<noteq> 2 then readSubstitutesLoop e ss
                    else if length ss2 \<noteq> 4 then Inl MalformedSubstitute
                    else
                      (case unpackStrings e (ss2 ! 3) of
                         None \<Rightarrow> Inl BackendError
                       | Some a \<Rightarrow>
                           bindE (readSubstitutesLoop e ss)
                             (\<lambda>subs. Inr (\<lparr>deriver = ss2 ! 1, program = ss2 ! 2, args = a\<rparr>
                                          # subs))))))"

definition readSubstitutes :: "extern \<Rightarrow> store \<Rightarrow> Path \<Rightarrow> error + Substitute list" where
  "readSubstitutes e s srcPath = readSubstitutesLoop e (queryStrings (dbSubstitutes s) srcPath)"

definition writeSubstitutes :: "extern \<Rightarrow> store \<Rightarrow> Path \<Rightarrow> Substitute list \<Rightarrow> store" where
  "writeSubstitutes e s srcPath subs =
     s\<lparr>dbSubstitutes :=
         setStrings (dbSubstitutes s) srcPath
           (map (\<lambda>i. packStrings e [''2'', deriver i, program i, packStrings e (args i)]) subs)\<rparr>"

text \<open>
  \<^verbatim>\<open>std::remove\<close> copies the elements that differ from the value to the front and leaves
  the length of the list as it was; the call drops its result.
\<close>

definition stdRemove :: "Substitute list \<Rightarrow> Substitute \<Rightarrow> Substitute list" where
  "stdRemove subs sub =
     (let kept = filter (\<lambda>x. \<not> subEq x sub) subs in kept @ drop (length kept) subs)"

definition registerSubstitute :: "extern \<Rightarrow> store \<Rightarrow> Path \<Rightarrow> Substitute \<Rightarrow> error + store" where
  "registerSubstitute e s srcPath sub =
     bindE (assertStorePath e srcPath) (\<lambda>_.
     bindE (readSubstitutes e s srcPath) (\<lambda>subs.
       if list_ex (\<lambda>x. subEq x sub) subs then Inr s
       else Inr (writeSubstitutes e s srcPath (sub # stdRemove subs sub))))"

definition querySubstitutes :: "extern \<Rightarrow> store \<Rightarrow> Path \<Rightarrow> error + Substitute list" where
  "querySubstitutes e s p = readSubstitutes e s p"

subsection \<open>Realisability\<close>

definition isRealisablePath :: "extern \<Rightarrow> store \<Rightarrow> Path \<Rightarrow> error + bool" where
  "isRealisablePath e s p =
     (if isValidPathTxn s p then Inr True
      else bindE (readSubstitutes e s p) (\<lambda>subs. Inr (length subs > 0)))"

definition isRealisableStatePath :: "extern \<Rightarrow> store \<Rightarrow> Path \<Rightarrow> error + bool" where
  "isRealisableStatePath e s p =
     (if isValidStatePathTxn s p then Inr True
      else bindE (readSubstitutes e s p) (\<lambda>subs. Inr (length subs > 0)))"

definition isRealisableComponentOrStatePath :: "extern \<Rightarrow> store \<Rightarrow> Path \<Rightarrow> error + bool" where
  "isRealisableComponentOrStatePath e s p =
     (if isValidComponentOrStatePathTxn s p then Inr True
      else bindE (readSubstitutes e s p) (\<lambda>subs. Inr (length subs > 0)))"

subsection \<open>Shared state\<close>


definition querySharedStateTxn :: "store \<Rightarrow> Path \<Rightarrow> Path option" where
  "querySharedStateTxn s statePath = queryString (dbSharedState s) statePath"

text \<open>The \<^verbatim>\<open>while\<close> loop of \<^verbatim>\<open>toNonSharedPathTxn\<close>; \<open>None\<close> when it runs forever.\<close>

partial_function (option) toNonSharedPathTxn :: "store \<Rightarrow> Path \<Rightarrow> Path option" where
  "toNonSharedPathTxn s returnedPath =
     (case querySharedStateTxn s returnedPath of
        Some sharedPath \<Rightarrow> toNonSharedPathTxn s sharedPath
      | None \<Rightarrow> Some returnedPath)"

subsection \<open>References\<close>

definition setReferences ::
  "extern \<Rightarrow> store \<Rightarrow> Path \<Rightarrow> PathSet \<Rightarrow> PathSet \<Rightarrow> u32 \<Rightarrow> error + store" where
  "setReferences e s store_or_statePath references stateReferences revision =
     bindE (if references \<noteq> {}
            then bindE (isRealisableComponentOrStatePath e s store_or_statePath)
                   (\<lambda>r. if \<not> r then Inl NotRealisable else Inr ())
            else Inr ()) (\<lambda>_.
     bindE (isRealisablePath e s store_or_statePath) (\<lambda>rc.
       if rc then
         (let oldReferences_c_c = queryStrings (dbComponentComponentReferences s) store_or_statePath;
              oldReferences_c_s = queryStrings (dbComponentStateReferences s) store_or_statePath
          in if set oldReferences_c_c = references \<and> set oldReferences_c_s = stateReferences
             then Inr s
             else Inr (s\<lparr>dbComponentComponentReferences :=
                           setStrings (dbComponentComponentReferences s) store_or_statePath
                             (sorted_list_of_set references),
                         dbComponentStateReferences :=
                           setStrings (dbComponentStateReferences s) store_or_statePath
                             (sorted_list_of_set stateReferences)\<rparr>))
       else
         bindE (isRealisableStatePath e s store_or_statePath) (\<lambda>rs.
           if rs then
             (case queryStateReferences e (dbStateComponentReferences s) (dbStateRevisions s)
                     store_or_statePath revision 0 of
                None \<Rightarrow> Inl BackendError
              | Some _ \<Rightarrow>
             (case queryStateReferences e (dbStateStateReferences s) (dbStateRevisions s)
                     store_or_statePath revision 0 of
                None \<Rightarrow> Inl BackendError
              | Some _ \<Rightarrow>
             (case setStateReferences e (dbStateComponentReferences s) (dbStateRevisions s)
                     store_or_statePath (sorted_list_of_set references) revision 0 of
                None \<Rightarrow> Inl BackendError
              | Some sc \<Rightarrow>
             (case setStateReferences e (dbStateStateReferences s) (dbStateRevisions s)
                     store_or_statePath (sorted_list_of_set stateReferences) revision 0 of
                None \<Rightarrow> Inl BackendError
              | Some ss \<Rightarrow>
                  Inr (s\<lparr>dbStateComponentReferences := sc, dbStateStateReferences := ss\<rparr>)))))
           else Inl NotValidComponentOrState)))"

text \<open>
  \<^verbatim>\<open>queryXReferencesTxn\<close> adds the references it reads to the set of its caller; the model
  returns the set that is added.
\<close>

definition queryXReferencesTxn ::
  "extern \<Rightarrow> store \<Rightarrow> Path \<Rightarrow> bool \<Rightarrow> u32 \<Rightarrow> u32 \<Rightarrow> error + PathSet" where
  "queryXReferencesTxn e s store_or_statePath component_or_state revision timestamp =
     bindE (isRealisablePath e s store_or_statePath) (\<lambda>rc.
       if rc then
         Inr (set (queryStrings
                (if component_or_state then dbComponentComponentReferences s
                 else dbComponentStateReferences s) store_or_statePath))
       else
         bindE (isRealisableStatePath e s store_or_statePath) (\<lambda>rs.
           if rs then
             (case toNonSharedPathTxn s store_or_statePath of
                None \<Rightarrow> Inl Diverges
              | Some statePath_ns \<Rightarrow>
                 (case queryStateReferences e
                         (if component_or_state then dbStateComponentReferences s
                          else dbStateStateReferences s)
                         (dbStateRevisions s) statePath_ns revision timestamp of
                    None \<Rightarrow> Inl BackendError
                  | Some (_, references2) \<Rightarrow> Inr (set references2)))
           else Inl NotValidComponentOrState))"

text \<open>
  The two methods \<^verbatim>\<open>LocalStore::queryReferences\<close> and \<^verbatim>\<open>LocalStore::queryStateReferences\<close>
  pass the revision where \<^verbatim>\<open>queryXReferencesTxn\<close> expects the flag, and the flag where it
  expects the revision: the flag received is "the revision is not 0", the revision
  received is 1 or 0. The timestamp is the default of the declaration, which is not
  under src and is taken to be 0.
\<close>

definition LocalStore_queryReferences :: "extern \<Rightarrow> store \<Rightarrow> Path \<Rightarrow> u32 \<Rightarrow> error + PathSet" where
  "LocalStore_queryReferences e s storePath revision =
     queryXReferencesTxn e s storePath (revision \<noteq> 0) 1 0"

definition LocalStore_queryStateReferences ::
  "extern \<Rightarrow> store \<Rightarrow> Path \<Rightarrow> u32 \<Rightarrow> error + PathSet" where
  "LocalStore_queryStateReferences e s componentOrstatePath revision =
     queryXReferencesTxn e s componentOrstatePath (revision \<noteq> 0) 0 0"

text \<open>
  One step of the first loop of the state branch of \<^verbatim>\<open>getXReferrers\<close>. \<^verbatim>\<open>latest[k]\<close> reads
  0 for a key that is not in the map. Both branches of the inner \<^verbatim>\<open>if\<close> store the
  timestamp of the key.
\<close>

definition latestStep ::
  "u32 \<Rightarrow> u32 \<Rightarrow> (Path \<times> u32) \<Rightarrow> (Path \<times> u32) list \<Rightarrow> (Path \<times> u32) list" where
  "latestStep revision timestamp key latest =
     (let getStatePath = fst key; getRevision = snd key;
          cur = (case map_of latest getStatePath of None \<Rightarrow> 0 | Some v \<Rightarrow> v)
      in if cur = 0 then AList.update getStatePath getRevision latest
         else if cur < getRevision then
           (if revision \<noteq> 0 \<and> getRevision \<le> timestamp
            then AList.update getStatePath getRevision latest
            else AList.update getStatePath getRevision latest)
         else latest)"

definition getXReferrers ::
  "extern \<Rightarrow> store \<Rightarrow> Path \<Rightarrow> bool \<Rightarrow> u32 \<Rightarrow> error + PathSet" where
  "getXReferrers e s store_or_statePath component_or_state revision =
     (if \<not> isValidPathTxn s store_or_statePath \<and> \<not> isValidStatePathTxn s store_or_statePath
      then Inl NotValidComponentOrState
      else if component_or_state then
        (if isValidPathTxn s store_or_statePath then
           (let path = store_or_statePath; table = dbComponentComponentReferences s
            in Inr (set (filter (\<lambda>i. path \<in> set (queryStrings table i)) (enumTable table))))
         else
           (case toNonSharedPathTxn s store_or_statePath of
              None \<Rightarrow> Inl Diverges
            | Some path \<Rightarrow>
                (let table = dbComponentStateReferences s
                 in Inr (set (filter (\<lambda>i. path \<in> set (queryStrings table i))
                                (enumTable table))))))
      else
        bindE (if isValidPathTxn s store_or_statePath
               then Inr (store_or_statePath, dbStateComponentReferences s)
               else (case toNonSharedPathTxn s store_or_statePath of
                       None \<Rightarrow> Inl Diverges
                     | Some path \<Rightarrow> Inr (path, dbStateStateReferences s))) (\<lambda>(path, table).
        bindE (if revision \<noteq> 0
               then (case revisionToTimeStamp e (dbStateRevisions s) path revision of
                       None \<Rightarrow> Inl NoTimestampForRevision
                     | Some t \<Rightarrow> Inr t)
               else Inr 0) (\<lambda>timestamp.
          (let latest = fold (latestStep revision timestamp) (enumTable table) []
           in Inr (set (map fst (filter (\<lambda>i. path \<in> set (queryStrings table (fst i, snd i)))
                                   latest)))))))"

definition getReferrersTxn :: "extern \<Rightarrow> store \<Rightarrow> Path \<Rightarrow> u32 \<Rightarrow> error + PathSet" where
  "getReferrersTxn e s store_or_statePath revision =
     getXReferrers e s store_or_statePath True revision"

definition getStateReferrersTxn :: "extern \<Rightarrow> store \<Rightarrow> Path \<Rightarrow> u32 \<Rightarrow> error + PathSet" where
  "getStateReferrersTxn e s store_or_statePath revision =
     getXReferrers e s store_or_statePath False revision"

definition queryReferrersTxn :: "extern \<Rightarrow> store \<Rightarrow> Path \<Rightarrow> u32 \<Rightarrow> error + PathSet" where
  "queryReferrersTxn e s storePath revision =
     bindE (isRealisableComponentOrStatePath e s storePath) (\<lambda>r.
       if \<not> r then Inl NotValid else getReferrersTxn e s storePath revision)"

definition queryStateReferrersTxn :: "extern \<Rightarrow> store \<Rightarrow> Path \<Rightarrow> u32 \<Rightarrow> error + PathSet" where
  "queryStateReferrersTxn e s storePath revision =
     bindE (isRealisableComponentOrStatePath e s storePath) (\<lambda>r.
       if \<not> r then Inl NotValid else getStateReferrersTxn e s storePath revision)"

subsection \<open>Derivers\<close>

definition isStateDrv :: "Derivation \<Rightarrow> bool" where
  "isStateDrv drv \<longleftrightarrow> map_size (stateOutputs drv) \<noteq> 0"

definition isStateDrvPathTxn :: "store \<Rightarrow> Path \<Rightarrow> error + bool" where
  "isStateDrvPathTxn s drvPath =
     bindE (derivationFromPathTxn s drvPath) (\<lambda>drv. Inr (isStateDrv drv))"

text \<open>\<^verbatim>\<open>drv.stateOutputs.find("state")->second\<close>, which the source reads unchecked.\<close>

definition stateOutputOf :: "Derivation \<Rightarrow> error + DerivationStateOutput" where
  "stateOutputOf drv =
     (case map_of (stateOutputs drv) ''state'' of None \<Rightarrow> Inl UndefinedDeref | Some so \<Rightarrow> Inr so)"

text \<open>The body of the loop of \<^verbatim>\<open>queryDerivers\<close>, for one deriver of the row.\<close>

definition queryDeriversStep ::
  "store \<Rightarrow> string \<Rightarrow> string \<Rightarrow> Path \<Rightarrow> PathSet \<Rightarrow> error + PathSet" where
  "queryDeriversStep s identifier user derivationpath filtereddata =
     bindE (derivationFromPathTxn s derivationpath) (\<lambda>drv.
       if map_size (outputs drv) \<noteq> 1 then Inl NotAStatePathQuery
       else
         bindE (stateOutputOf drv) (\<lambda>so.
           if (stateIdentifier so = identifier \<or> identifier = ''*'')
              \<and> (username so = user \<or> user = ''*'')
           then Inr (insert derivationpath filtereddata)
           else Inr filtereddata))"

definition queryDerivers ::
  "extern \<Rightarrow> store \<Rightarrow> Path \<Rightarrow> string \<Rightarrow> string \<Rightarrow> error + PathSet" where
  "queryDerivers e s storePath identifier user =
     bindE (isRealisablePath e s storePath) (\<lambda>r.
       if \<not> r then Inl NotValid
       else if user = [] then Inl EmptyUser
       else
         bindE (queryDeriverStrings e s storePath) (\<lambda>alldata.
           foldE (queryDeriversStep s identifier user) alldata {}))"

text \<open>
  \<^verbatim>\<open>mergeNewDerivationIntoListTxn\<close> walks the set of derivers in the order of
  \<^verbatim>\<open>std::set\<close>; \<^verbatim>\<open>deletePath\<close> changes the file system while it walks. \<open>mergeStep\<close> is
  the body of its loop, on the store and the set \<^verbatim>\<open>newdrvs\<close>.
\<close>

definition mergeStep ::
  "Path \<Rightarrow> bool \<Rightarrow> string \<Rightarrow> string \<Rightarrow> Path \<Rightarrow> store \<times> PathSet
     \<Rightarrow> error + (store \<times> PathSet)" where
  "mergeStep newdrv deleteDrvs identifier user drv' acc =
     (let s' = fst acc; newdrvs = snd acc
      in bindE (derivationFromPathTxn s' drv') (\<lambda>getdrv.
         bindE (stateOutputOf getdrv) (\<lambda>gso.
           if identifier = stateIdentifier gso \<and> username gso = user then
             (if drv' \<noteq> newdrv \<and> deleteDrvs
              then bindE (deletePath s' drv') (\<lambda>s''. Inr (s'', newdrvs))
              else Inr (s', newdrvs))
           else Inr (s', insert drv' newdrvs))))"

definition mergeNewDerivationIntoListTxn ::
  "extern \<Rightarrow> store \<Rightarrow> Path \<Rightarrow> Path \<Rightarrow> PathSet \<Rightarrow> bool \<Rightarrow> error + (store \<times> PathSet)" where
  "mergeNewDerivationIntoListTxn e s storepath newdrv drvs deleteDrvs =
     bindE (derivationFromPathTxn s newdrv) (\<lambda>drv.
     bindE (stateOutputOf drv) (\<lambda>so.
     bindE (foldE (mergeStep newdrv deleteDrvs (stateIdentifier so) (username so))
              (sorted_list_of_set drvs) (s, {})) (\<lambda>acc.
       Inr (fst acc, insert newdrv (snd acc)))))"

definition addStateDeriver :: "extern \<Rightarrow> store \<Rightarrow> Path \<Rightarrow> Path \<Rightarrow> error + store" where
  "addStateDeriver e s storePath deriver' =
     bindE (assertStorePath e storePath) (\<lambda>_.
       if deriver' = [] then Inr s
       else
         bindE (assertStorePath e deriver') (\<lambda>_.
         bindE (isRealisablePath e s storePath) (\<lambda>r.
           if \<not> r then Inl NotValid
           else
             bindE (derivationFromPathTxn s deriver') (\<lambda>drv.
             bindE (stateOutputOf drv) (\<lambda>so.
             bindE (queryDerivers e s storePath (stateIdentifier so) (username so))
               (\<lambda>currentDerivers.
             bindE (mergeNewDerivationIntoListTxn e s storePath deriver' currentDerivers True)
               (\<lambda>merged.
                 (let s1 = fst merged; updatedDerivers = snd merged
                  in Inr (s1\<lparr>dbDerivers :=
                              setString (dbDerivers s1) storePath
                                (Multi (sorted_list_of_set updatedDerivers)),
                            dbStateInfo := setString (dbStateInfo s1) storePath []\<rparr>)))))))))"

definition setDeriver :: "extern \<Rightarrow> store \<Rightarrow> Path \<Rightarrow> Path \<Rightarrow> error + store" where
  "setDeriver e s storePath deriver' =
     bindE (assertStorePath e storePath) (\<lambda>_.
       if deriver' = [] then Inr s
       else
         bindE (assertStorePath e deriver') (\<lambda>_.
         bindE (isRealisablePath e s storePath) (\<lambda>r.
           if \<not> r then Inl NotValid
           else
             bindE (isStateDrvPathTxn s deriver') (\<lambda>st.
               if st then addStateDeriver e s storePath deriver'
               else Inr (s\<lparr>dbDerivers := setString (dbDerivers s) storePath (Single deriver')\<rparr>)))))"

text \<open>
  \<^verbatim>\<open>queryDeriver\<close> reads the derivation of the deriver before it looks at the flag of the
  lookup; without a row the deriver is the empty string.
\<close>

definition queryDeriver :: "extern \<Rightarrow> store \<Rightarrow> Path \<Rightarrow> error + Path" where
  "queryDeriver e s storePath =
     bindE (isRealisablePath e s storePath) (\<lambda>r.
       if \<not> r then Inl NotValid
       else
         (let found = queryDeriverString e s storePath;
              b = (found \<noteq> None);
              deriver' = (case found of None \<Rightarrow> [] | Some d \<Rightarrow> d)
          in bindE (derivationFromPathTxn s deriver') (\<lambda>drv.
               if isStateDrv drv then Inl StateDeriver
               else if b then Inr deriver' else Inr [])))"

subsection \<open>Registration\<close>

definition setHash :: "extern \<Rightarrow> store \<Rightarrow> Path \<Rightarrow> Hash \<Rightarrow> error + store" where
  "setHash e s storePath hash' =
     (let s1 = s\<lparr>dbValidPaths :=
                   setString (dbValidPaths s) storePath (''sha256:'' @ printHash e hash')\<rparr>
      in if htype hash' = htSHA256 then Inr s1 else Inl AssertionFailed)"

definition setStateValid :: "store \<Rightarrow> Path \<Rightarrow> Path \<Rightarrow> store" where
  "setStateValid s statePath drvPath =
     s\<lparr>dbValidStatePaths := setString (dbValidStatePaths s) statePath drvPath\<rparr>"

definition queryHash :: "extern \<Rightarrow> store \<Rightarrow> Path \<Rightarrow> error + Hash" where
  "queryHash e s storePath =
     (let str = (case queryString (dbValidPaths s) storePath of None \<Rightarrow> [] | Some v \<Rightarrow> v)
      in if CHR '':'' \<notin> set str then Inl CorruptHash
         else
           (let ht = parseHashType e (takeWhile (\<lambda>c. c \<noteq> CHR '':'') str)
            in if ht = htUnknown then Inl UnknownHashType
               else (case parseHash e ht (drop 1 (dropWhile (\<lambda>c. c \<noteq> CHR '':'') str)) of
                       None \<Rightarrow> Inl BackendError
                     | Some h \<Rightarrow> Inr h)))"

text \<open>
  The field \<^verbatim>\<open>deriver\<close> of \<^verbatim>\<open>ValidPathInfo\<close> is \<open>infoDeriver\<close> here, since \<open>deriver\<close> is the
  field of \<^verbatim>\<open>Substitute\<close>.
\<close>

record ValidPathInfo =
  path :: Path
  infoDeriver :: Path
  hash :: Hash
  references :: PathSet
  stateReferences :: PathSet
  revision :: u32

text \<open>The body of the second loop of \<^verbatim>\<open>registerValidPaths\<close>, for one element.\<close>

definition registerOne :: "extern \<Rightarrow> PathSet \<Rightarrow> ValidPathInfo \<Rightarrow> store \<Rightarrow> error + store" where
  "registerOne e newPaths i s =
     bindE (if isStorePath e (path i) then bindE (assertStorePath e (path i)) (\<lambda>_. Inr True)
            else bindE (assertStatePath e (path i)) (\<lambda>_. Inr False)) (\<lambda>isStorePath_b.
     bindE (if isStorePath_b then setHash e s (path i) (hash i)
            else Inr (setStateValid s (path i) (infoDeriver i))) (\<lambda>s1.
     bindE (setReferences e s1 (path i) (references i) (stateReferences i) (revision i)) (\<lambda>s2.
       if \<exists>j\<in>references i. \<not> isValidPathTxn s2 j \<and> j \<notin> newPaths then Inl InvalidReference
       else if isStorePath_b then setDeriver e s2 (path i) (infoDeriver i)
       else Inr s2)))"

definition registerValidPaths :: "extern \<Rightarrow> store \<Rightarrow> ValidPathInfo list \<Rightarrow> error + store" where
  "registerValidPaths e s infos = foldE (registerOne e (set (map path infos))) infos s"

definition registerValidPath ::
  "extern \<Rightarrow> store \<Rightarrow> Path \<Rightarrow> Hash \<Rightarrow> PathSet \<Rightarrow> PathSet \<Rightarrow> Path \<Rightarrow> u32 \<Rightarrow> error + store" where
  "registerValidPath e s component_or_state_path hash' references' stateReferences' deriver'
       revision' =
     registerValidPaths e s
       [\<lparr>path = component_or_state_path, infoDeriver = deriver', hash = hash',
         references = references', stateReferences = stateReferences',
         revision = revision'\<rparr>]"

subsection \<open>Invalidation and deletion\<close>

definition invalidatePath :: "extern \<Rightarrow> store \<Rightarrow> Path \<Rightarrow> error + store" where
  "invalidatePath e s p =
     bindE (querySubstitutes e s p) (\<lambda>subs.
     bindE (if length subs = 0
            then bindE (setReferences e s p {} {} (- 1))
                   (\<lambda>s1. Inr (s1\<lparr>dbDerivers := delPair (dbDerivers s1) p\<rparr>))
            else Inr s) (\<lambda>s2.
       Inr (s2\<lparr>dbValidPaths := delPair (dbValidPaths s2) p\<rparr>)))"

text \<open>
  \<^verbatim>\<open>deleteFromStore\<close> commits its transaction and then deletes the path from the file
  system; the count of freed bytes is not modelled.
\<close>

definition deleteFromStore :: "extern \<Rightarrow> store \<Rightarrow> Path \<Rightarrow> error + store" where
  "deleteFromStore e s p0 =
     (case canonPath e p0 of
        None \<Rightarrow> Inl BackendError
      | Some p \<Rightarrow>
          bindE (assertStorePath e p) (\<lambda>_.
          bindE (if isValidPathTxn s p then
                   bindE (getReferrersTxn e s p (- 1)) (\<lambda>referrers.
                     if \<exists>i\<in>referrers. i \<noteq> p \<and> isValidPathTxn s i then Inl PathInUse
                     else invalidatePath e s p)
                 else Inr s) (\<lambda>s1.
            deletePath s1 p)))"

subsection \<open>The verifier\<close>

text \<open>
  The messages that \<^verbatim>\<open>verifyStore\<close> prints at level \<^verbatim>\<open>lvlError\<close>, in order: its own, and
  the line that \<^verbatim>\<open>setReferences\<close> prints at the head of the branch it takes.
\<close>

datatype logmsg =
    Disappeared Path
  | NotInNixStore Path
  | Modified Path
  | RemovingSubstitutes Path
  | RemovingDeriver Path
  | CorruptDeriver Path Path
  | RemovingReferences Path
  | IncompleteClosure Path Path
  | SettingReferences Path
  | SettingStateReferences Path u32

text \<open>
  What a call of \<^verbatim>\<open>setReferences\<close> that returns has printed: "Setting references for
  storepath" in the branch of the realisable components, "Setting references for
  statepath" with the revision in the branch of the realisable state paths. And what a
  call of \<^verbatim>\<open>invalidatePath\<close> has printed, which calls \<^verbatim>\<open>setReferences\<close> with the revision -1
  when the path has no substitutes.
\<close>

definition setReferencesLog :: "extern \<Rightarrow> store \<Rightarrow> Path \<Rightarrow> u32 \<Rightarrow> logmsg list" where
  "setReferencesLog e s p revision' =
     (if isRealisablePath e s p = Inr True then [SettingReferences p]
      else if isRealisablePath e s p = Inr False \<and> isRealisableStatePath e s p = Inr True
      then [SettingStateReferences p revision']
      else [])"

definition invalidatePathLog :: "extern \<Rightarrow> store \<Rightarrow> Path \<Rightarrow> logmsg list" where
  "invalidatePathLog e s p =
     (case querySubstitutes e s p of
        Inl _ \<Rightarrow> []
      | Inr subs \<Rightarrow> if length subs = 0 then setReferencesLog e s p (- 1) else [])"

text \<open>The body of the loop over the valid paths.\<close>

definition verifyValid ::
  "extern \<Rightarrow> bool \<Rightarrow> Path \<Rightarrow> store \<times> PathSet \<times> logmsg list
     \<Rightarrow> error + (store \<times> PathSet \<times> logmsg list)" where
  "verifyValid e checkContents i acc =
     (let s = fst acc; validPaths = fst (snd acc); lg = snd (snd acc)
      in if \<not> pathExists s i then
           bindE (invalidatePath e s i)
             (\<lambda>s'. Inr (s', validPaths, lg @ [Disappeared i] @ invalidatePathLog e s i))
         else if \<not> isStorePath e i then
           bindE (invalidatePath e s i)
             (\<lambda>s'. Inr (s', validPaths, lg @ [NotInNixStore i] @ invalidatePathLog e s i))
         else
           bindE (if checkContents then
                    bindE (queryHash e s i) (\<lambda>expected.
                      (case fs s i of
                         None \<Rightarrow> Inl SysError
                       | Some obj \<Rightarrow>
                           (let current = hashPath e (htype expected) obj
                            in Inr (if current \<noteq> expected then lg @ [Modified i] else lg))))
                  else Inr lg) (\<lambda>lg'.
             Inr (s, insert i validPaths, lg')))"

text \<open>The body of the loop over the keys of the substitutes.\<close>

definition verifySubstitutes ::
  "extern \<Rightarrow> Path \<Rightarrow> store \<times> PathSet \<times> logmsg list
     \<Rightarrow> error + (store \<times> PathSet \<times> logmsg list)" where
  "verifySubstitutes e i acc =
     (let s = fst acc; realisablePaths = fst (snd acc); lg = snd (snd acc)
      in bindE (readSubstitutes e s i) (\<lambda>subs.
           if \<not> isStorePath e i then
             Inr (s\<lparr>dbSubstitutes := delPair (dbSubstitutes s) i\<rparr>, realisablePaths,
                  lg @ [RemovingSubstitutes i])
           else if length subs = 0 then
             Inr (s\<lparr>dbSubstitutes := delPair (dbSubstitutes s) i\<rparr>, realisablePaths, lg)
           else Inr (s, insert i realisablePaths, lg)))"

text \<open>The body of the loop over the keys of the derivers.\<close>

definition verifyDerivers ::
  "extern \<Rightarrow> PathSet \<Rightarrow> Path \<Rightarrow> store \<times> logmsg list \<Rightarrow> error + (store \<times> logmsg list)" where
  "verifyDerivers e realisablePaths i acc =
     (let s = fst acc; lg = snd acc
      in if i \<notin> realisablePaths then
           Inr (s\<lparr>dbDerivers := delPair (dbDerivers s) i\<rparr>, lg @ [RemovingDeriver i])
         else
           bindE (queryDeriver e s i) (\<lambda>deriver'.
             if \<not> isStorePath e deriver' then
               Inr (s\<lparr>dbDerivers := delPair (dbDerivers s) i\<rparr>, lg @ [CorruptDeriver deriver' i])
             else Inr (s, lg)))"

text \<open>The body of the loop over the keys of the component-component references.\<close>

definition verifyReferences ::
  "extern \<Rightarrow> PathSet \<Rightarrow> PathSet \<Rightarrow> Path \<Rightarrow> store \<times> logmsg list
     \<Rightarrow> error + (store \<times> logmsg list)" where
  "verifyReferences e validPaths realisablePaths i acc =
     (let s = fst acc; lg = snd acc
      in if i \<notin> realisablePaths then
           bindE (setReferences e s i {} {} 0)
             (\<lambda>s'. Inr (s', lg @ [RemovingReferences i] @ setReferencesLog e s i 0))
         else
           (let isValid = (i \<in> validPaths)
            in bindE (queryXReferencesTxn e s i True (- 1) 0) (\<lambda>references'.
                 Inr (s, lg @ map (IncompleteClosure i)
                               (filter (\<lambda>j. isValid \<and> j \<notin> validPaths)
                                  (sorted_list_of_set references'))))))"

definition verifyStore :: "extern \<Rightarrow> store \<Rightarrow> bool \<Rightarrow> error + (store \<times> logmsg list)" where
  "verifyStore e s checkContents =
     bindE (foldE (verifyValid e checkContents) (enumTable (dbValidPaths s)) (s, {}, [])) (\<lambda>a1.
     bindE (foldE (verifySubstitutes e) (enumTable (dbSubstitutes (fst a1))) a1) (\<lambda>a2.
       (let validPaths = fst (snd a1); realisablePaths = fst (snd a2)
        in bindE (foldE (verifyDerivers e realisablePaths) (enumTable (dbDerivers (fst a2)))
                    (fst a2, snd (snd a2))) (\<lambda>a3.
           foldE (verifyReferences e validPaths realisablePaths)
             (enumTable (dbComponentComponentReferences (fst a3))) a3))))"

subsection \<open>Export and import\<close>

text \<open>
  Modelled from the spec: the readers and writers of serialise.cc, \<^verbatim>\<open>dumpPath\<close> and
  \<^verbatim>\<open>restorePath\<close> of archive.cc, and \<^verbatim>\<open>readStorePath\<close>, \<^verbatim>\<open>readStorePaths\<close> are not under
  src. A set of strings is written as its size and its elements in order; a read of a
  value that the stream does not hold next fails.
\<close>

definition writeStringSet :: "PathSet \<Rightarrow> token list" where
  "writeStringSet ss = TInt (of_nat (card ss)) # map TStr (sorted_list_of_set ss)"

definition readInt :: "token list \<Rightarrow> error + (u32 \<times> token list)" where
  "readInt src =
     (case src of [] \<Rightarrow> Inl EndOfFile | TInt n # rest \<Rightarrow> Inr (n, rest) | _ \<Rightarrow> Inl BackendError)"

definition readString :: "token list \<Rightarrow> error + (string \<times> token list)" where
  "readString src =
     (case src of [] \<Rightarrow> Inl EndOfFile | TStr x # rest \<Rightarrow> Inr (x, rest) | _ \<Rightarrow> Inl BackendError)"

definition restorePath :: "token list \<Rightarrow> error + (fsobj \<times> token list)" where
  "restorePath src =
     (case src of [] \<Rightarrow> Inl EndOfFile | TNar obj # rest \<Rightarrow> Inr (obj, rest) | _ \<Rightarrow> Inl BackendError)"

fun readStrings :: "nat \<Rightarrow> token list \<Rightarrow> error + (string list \<times> token list)" where
  "readStrings 0 src = Inr ([], src)"
| "readStrings (Suc n) src =
     bindE (readString src) (\<lambda>a.
     bindE (readStrings n (snd a)) (\<lambda>b. Inr (fst a # fst b, snd b)))"

definition readStorePath :: "extern \<Rightarrow> token list \<Rightarrow> error + (Path \<times> token list)" where
  "readStorePath e src =
     bindE (readString src) (\<lambda>a. bindE (assertStorePath e (fst a)) (\<lambda>_. Inr a))"

definition readStorePaths :: "extern \<Rightarrow> token list \<Rightarrow> error + (PathSet \<times> token list)" where
  "readStorePaths e src =
     bindE (readInt src) (\<lambda>a.
     bindE (readStrings (unat (fst a)) (snd a)) (\<lambda>b.
       if list_all (isStorePath e) (fst b) then Inr (set (fst b), snd b) else Inl NotStorePath))"

text \<open>
  \<^verbatim>\<open>exportPath\<close> writes to its sink; the model returns what is written. \<open>signTrailer\<close> is
  its last part, from \<^verbatim>\<open>if (sign)\<close> on: the signature is made by an external program
  over the printed hash of what has been written so far.
\<close>

definition signTrailer :: "extern \<Rightarrow> bool \<Rightarrow> token list \<Rightarrow> error + token list" where
  "signTrailer e sign out =
     (if sign then
        (case rsaSign e (printHash e (hashStream e out)) of
           None \<Rightarrow> Inl SysError
         | Some signature \<Rightarrow> Inr (out @ [TInt 1, TStr signature]))
      else Inr (out @ [TInt 0]))"

definition exportPath :: "extern \<Rightarrow> store \<Rightarrow> Path \<Rightarrow> bool \<Rightarrow> error + token list" where
  "exportPath e s p sign =
     bindE (assertStorePath e p) (\<lambda>_.
       if \<not> isValidPathTxn s p then Inl NotValid
       else
         (case fs s p of
            None \<Rightarrow> Inl SysError
          | Some obj \<Rightarrow>
              bindE (queryXReferencesTxn e s p True 0 0) (\<lambda>references'.
              bindE (queryDeriver e s p) (\<lambda>deriver'.
                signTrailer e sign
                  ([TNar obj, TInt 0x4558494e, TStr p] @ writeStringSet references'
                   @ [TStr deriver'])))))"

text \<open>
  \<^verbatim>\<open>importPath\<close>, in its two parts. \<open>readTrailer\<close> is the part before the comment "Do the
  actual import": the archive is restored into a temporary directory, which the model
  keeps as the object \<open>unpacked\<close>, the trailer is read and the signature checked; the
  result is the object, the path, the references and the deriver. \<open>installImported\<close> is
  the part after it. The metadata that \<^verbatim>\<open>canonicalisePathMetaData\<close> rewrites (owner, mode,
  time) is not part of the objects of the file system here.
\<close>

definition checkSignature ::
  "extern \<Rightarrow> bool \<Rightarrow> Hash \<Rightarrow> token list \<Rightarrow> error + unit" where
  "checkSignature e requireSignature hash' src =
     bindE (readInt src) (\<lambda>r5.
       (let haveSignature = (fst r5 = 1)
        in if requireSignature \<and> \<not> haveSignature then Inl LacksSignature
           else if haveSignature then
             bindE (readString (snd r5)) (\<lambda>r6.
               if requireSignature then
                 (case rsaVerify e (fst r6) of
                    None \<Rightarrow> Inl SysError
                  | Some hash2 \<Rightarrow>
                      if printHash e hash' \<noteq> hash2 then Inl SignatureMismatch else Inr ())
               else Inr ())
           else Inr ()))"

definition readTrailer ::
  "extern \<Rightarrow> bool \<Rightarrow> token list \<Rightarrow> error + (fsobj \<times> Path \<times> PathSet \<times> Path)" where
  "readTrailer e requireSignature source =
     bindE (restorePath source) (\<lambda>r0.
     bindE (readInt (snd r0)) (\<lambda>r1.
       if fst r1 \<noteq> 0x4558494e then Inl WrongFormat
       else
         bindE (readStorePath e (snd r1)) (\<lambda>r2.
         bindE (readStorePaths e (snd r2)) (\<lambda>r3.
         bindE (readString (snd r3)) (\<lambda>r4.
         bindE (if fst r4 \<noteq> [] then assertStorePath e (fst r4) else Inr ()) (\<lambda>_.
         bindE (checkSignature e requireSignature
                  (hashStream e (take (length source - length (snd r4)) source)) (snd r4)) (\<lambda>_.
           Inr (fst r0, fst r2, fst r3, fst r4))))))))"

definition installImported ::
  "extern \<Rightarrow> store \<Rightarrow> fsobj \<Rightarrow> Path \<Rightarrow> PathSet \<Rightarrow> Path \<Rightarrow> error + (store \<times> Path)" where
  "installImported e s unpacked dstPath references' deriver' =
     (if \<not> isValidPathTxn s dstPath then
        (let s1 = (if pathExists s dstPath then s\<lparr>fs := (fs s)(dstPath := None)\<rparr> else s);
             s2 = s1\<lparr>fs := (fs s1)(dstPath \<mapsto> unpacked)\<rparr>;
             deriver2 = (if \<not> isValidPathTxn s2 deriver' then [] else deriver')
         in bindE (registerValidPath e s2 dstPath (hashPath e htSHA256 unpacked)
                     references' {} deriver2 0)
              (\<lambda>s3. Inr (s3, dstPath)))
      else Inr (s, dstPath))"

definition importPath ::
  "extern \<Rightarrow> store \<Rightarrow> bool \<Rightarrow> token list \<Rightarrow> error + (store \<times> Path)" where
  "importPath e s requireSignature source =
     bindE (readTrailer e requireSignature source) (\<lambda>t.
       installImported e s (fst t) (fst (snd t)) (fst (snd (snd t))) (snd (snd (snd t))))"

subsection \<open>An instance of the parameters\<close>

text \<open>
  A small instance of the parameters for evaluating the model on concrete inputs: a
  "hash" that keeps its input, and the length-prefixed framing of string lists (four
  little-endian length bytes before each string).
\<close>

definition packInt :: "nat \<Rightarrow> string" where
  "packInt n =
     [char_of n, char_of (n div 256), char_of (n div 256 div 256),
      char_of (n div 256 div 256 div 256)]"

definition packStringsLE :: "string list \<Rightarrow> string" where
  "packStringsLE ss = concat (map (\<lambda>s. packInt (length s) @ s) ss)"

fun unpackFuel :: "nat \<Rightarrow> string \<Rightarrow> string list option" where
  "unpackFuel 0 s = (if s = [] then Some [] else None)"
| "unpackFuel (Suc k) s =
     (if s = [] then Some []
      else if length s < 4 then None
      else
        (let len = of_char (s ! 0)
                   + 256 * (of_char (s ! 1) + 256 * (of_char (s ! 2) + 256 * of_char (s ! 3)));
             rest = drop 4 s
         in if len = 4294967295 then Some []
            else if length rest < len then None
            else (case unpackFuel k (drop len rest) of
                    None \<Rightarrow> None
                  | Some ss \<Rightarrow> Some (take len rest # ss))))"

definition unpackStringsLE :: "string \<Rightarrow> string list option" where
  "unpackStringsLE s = unpackFuel (length s) s"

text \<open>An instance of the three state-reference functions of db.cc, after section 4.4.\<close>

definition exRevisionToTimeStamp :: "rtable \<Rightarrow> Path \<Rightarrow> u32 \<Rightarrow> u32 option" where
  "exRevisionToTimeStamp revs p r =
     (case map_of revs (p, r) of None \<Rightarrow> None | Some m \<Rightarrow> map_of m p)"

definition exLatest :: "stable \<Rightarrow> Path \<Rightarrow> u32 option" where
  "exLatest t p =
     (case filter (\<lambda>k. fst k = p) (map fst t) of
        [] \<Rightarrow> None
      | k # ks \<Rightarrow> Some (fold max (map snd ks) (snd k)))"

definition exQueryStateReferences ::
  "stable \<Rightarrow> rtable \<Rightarrow> Path \<Rightarrow> u32 \<Rightarrow> u32 \<Rightarrow> (bool \<times> Paths) option" where
  "exQueryStateReferences t revs p r ts =
     (let stamp = (if ts \<noteq> 0 then Some ts
                   else if r = 0 then exLatest t p
                   else exRevisionToTimeStamp revs p r)
      in case stamp of
           None \<Rightarrow> Some (False, [])
         | Some x \<Rightarrow> (case map_of t (p, x) of None \<Rightarrow> Some (False, []) | Some l \<Rightarrow> Some (True, l)))"

definition exSetStateReferences ::
  "stable \<Rightarrow> rtable \<Rightarrow> Path \<Rightarrow> Paths \<Rightarrow> u32 \<Rightarrow> u32 \<Rightarrow> stable option" where
  "exSetStateReferences t revs p refs r ts =
     (let stamp = (if ts \<noteq> 0 then Some ts
                   else if r = 0 then Some (case exLatest t p of None \<Rightarrow> 1 | Some x \<Rightarrow> x + 1)
                   else exRevisionToTimeStamp revs p r)
      in case stamp of None \<Rightarrow> None | Some x \<Rightarrow> Some (AList.update (p, x) refs t))"

definition exampleEnv :: extern where
  "exampleEnv =
     \<lparr> nixStore = ''/nix/store'',
       nixStoreState = ''/nix/state'',
       printHash = hbytes,
       printHash32 = hbytes,
       compressHash = (\<lambda>h n. h\<lparr>hbytes := take n (hbytes h)\<rparr>),
       hashString = (\<lambda>t s. \<lparr>htype = t, hbytes = s\<rparr>),
       hashPath = (\<lambda>t obj. \<lparr>htype = t, hbytes = (case obj of File c \<Rightarrow> c | DrvFile d \<Rightarrow> ''drv'')\<rparr>),
       parseHashType = (\<lambda>s. if s = ''sha256'' then htSHA256 else htUnknown),
       parseHash = (\<lambda>t s. Some \<lparr>htype = t, hbytes = s\<rparr>),
       queryCallingUsername = ''alice'',
       unpackStrings = unpackStringsLE,
       packStrings = packStringsLE,
       string2Int = (\<lambda>s. if s = ''2'' then Some 2 else if s = ''1'' then Some 1 else None),
       canonPath = Some,
       queryStateReferences = exQueryStateReferences,
       setStateReferences = exSetStateReferences,
       revisionToTimeStamp = exRevisionToTimeStamp,
       hashStream = (\<lambda>ts. \<lparr>htype = htSHA256, hbytes = concat (map (\<lambda>t. case t of TStr x \<Rightarrow> x | _ \<Rightarrow> ''#'') ts)\<rparr>),
       rsaSign = (\<lambda>h. Some (''signed:'' @ h)),
       rsaVerify = (\<lambda>sg. if take 7 sg = ''signed:'' then Some (drop 7 sg) else None) \<rparr>"

definition spoofedDrv :: Derivation where
  "spoofedDrv =
     \<lparr> outputs = [(''out'', \<lparr>outputPath = ''/nix/store/abc-foo''\<rparr>)],
       stateOutputs = [(''state'', \<lparr>statepath = ''/nix/state/bogus'', componentHash = ''abc'',
                                   stateIdentifier = ''id'', username = ''alice''\<rparr>)],
       env = [(''name'', ''foo'')] \<rparr>"

subsection \<open>What a theorem asks of the framing\<close>

text \<open>
  \<open>recordOf\<close> is the record that \<^verbatim>\<open>writeSubstitutes\<close> stores for a substitute, and
  \<open>codecReads\<close> says that \<^verbatim>\<open>readSubstitutes\<close> reads it back: the framing parameters are
  inverse on it, and its fourth byte is zero.
\<close>

definition recordOf :: "extern \<Rightarrow> Substitute \<Rightarrow> string" where
  "recordOf e i = packStrings e [''2'', deriver i, program i, packStrings e (args i)]"

definition codecReads :: "extern \<Rightarrow> Substitute \<Rightarrow> bool" where
  "codecReads e i \<longleftrightarrow>
     length (recordOf e i) \<ge> 4 \<and> recordOf e i ! 3 = CHR 0x00
     \<and> unpackStrings e (recordOf e i) = Some [''2'', deriver i, program i, packStrings e (args i)]
     \<and> unpackStrings e (packStrings e (args i)) = Some (args i)
     \<and> string2Int e ''2'' = Some 2"

subsection \<open>Predicates of the proofs about derivers\<close>

text \<open>
  \<open>declares s ident user x\<close>: the file \<open>x\<close> is a derivation whose state output has this
  identifier and this user.
\<close>

definition declares :: "store \<Rightarrow> string \<Rightarrow> string \<Rightarrow> Path \<Rightarrow> bool" where
  "declares s ident user x \<longleftrightarrow>
     (\<exists>g gso. fs s x = Some (DrvFile g) \<and> stateOutputOf g = Inr gso
        \<and> stateIdentifier gso = ident \<and> username gso = user)"

text \<open>The state of the merge loop: the store differs from \<open>s0\<close> on the file system only,
  where files have been deleted, and nothing has been kept.\<close>

definition mergeInv :: "store \<Rightarrow> Path \<Rightarrow> store \<times> PathSet \<Rightarrow> bool" where
  "mergeInv s0 nd acc \<longleftrightarrow>
     (\<exists>f. acc = (s0\<lparr>fs := f\<rparr>, {}) \<and> f \<subseteq>\<^sub>m fs s0 \<and> f nd = fs s0 nd)"

text \<open>
  \<open>stateDeriverFile s x\<close>: the file \<open>x\<close> is a derivation that \<^verbatim>\<open>queryDerivers\<close> can read: it
  has exactly one output and a state output.
\<close>

definition stateDeriverFile :: "store \<Rightarrow> Path \<Rightarrow> bool" where
  "stateDeriverFile s x \<longleftrightarrow>
     (case derivationFromPathTxn s x of
        Inl _ \<Rightarrow> False
      | Inr g \<Rightarrow> map_size (outputs g) = 1
          \<and> (case stateOutputOf g of Inl _ \<Rightarrow> False | Inr _ \<Rightarrow> True))"

text \<open>
  Modelled from the spec: \<^verbatim>\<open>queryStateReferences\<close> of db.cc is not under src. Section 4.4:
  without a revision the references of a state path are read from the row of its latest
  timestamp. \<open>backendReadsLatest e s p\<close> says that the parameter does so for the state path
  \<open>p\<close> in the two state-keyed tables of \<open>s\<close>.
\<close>

definition backendReadsLatest :: "extern \<Rightarrow> store \<Rightarrow> Path \<Rightarrow> bool" where
  "backendReadsLatest e s p \<longleftrightarrow>
     queryStateReferences e (dbStateComponentReferences s) (dbStateRevisions s) p 0 0
       = exQueryStateReferences (dbStateComponentReferences s) (dbStateRevisions s) p 0 0
     \<and> queryStateReferences e (dbStateStateReferences s) (dbStateRevisions s) p 0 0
       = exQueryStateReferences (dbStateStateReferences s) (dbStateRevisions s) p 0 0"

text \<open>
  \<open>latestOf keys k r\<close>: among the keys of a state-keyed table, \<open>r\<close> is the largest timestamp
  of the state path \<open>k\<close>, or \<open>None\<close> when \<open>k\<close> has no key.
\<close>

definition latestOf :: "(Path \<times> u32) list \<Rightarrow> Path \<Rightarrow> u32 option \<Rightarrow> bool" where
  "latestOf keys k r \<longleftrightarrow>
     (case r of None \<Rightarrow> \<forall>t. (k, t) \<notin> set keys
      | Some m \<Rightarrow> (k, m) \<in> set keys \<and> (\<forall>t. (k, t) \<in> set keys \<longrightarrow> t \<le> m))"

subsection \<open>Example stores\<close>

definition emptyStore :: store where
  "emptyStore =
     \<lparr> dbValidPaths = [], dbValidStatePaths = [], dbComponentComponentReferences = [],
       dbComponentStateReferences = [], dbStateComponentReferences = [],
       dbStateStateReferences = [], dbSubstitutes = [], dbDerivers = [], dbStateInfo = [],
       dbStateRevisions = [], dbSharedState = [], fs = Map.empty \<rparr>"

definition subA :: Substitute where
  "subA = \<lparr>deriver = ''/nix/store/d1-a.drv'', program = ''/bin/fetch'', args = [''a'']\<rparr>"

definition subB :: Substitute where
  "subB = \<lparr>deriver = ''/nix/store/d2-b.drv'', program = ''/bin/wget'', args = [''b'', ''c'']\<rparr>"

text \<open>The substitute \<open>subB\<close> offered again, by a newer deriver.\<close>

definition subB' :: Substitute where
  "subB' = \<lparr>deriver = ''/nix/store/d3-b.drv'', program = ''/bin/wget'', args = [''b'', ''c'']\<rparr>"

definition pathP :: Path where
  "pathP = ''/nix/store/abc-foo''"

definition pathQ :: Path where
  "pathQ = ''/nix/store/def-bar''"

definition subsStore :: store where
  "subsStore = writeSubstitutes exampleEnv emptyStore pathP [subA, subB]"


definition delStore :: store where
  "delStore = (writeSubstitutes exampleEnv emptyStore pathP [subA])
     \<lparr> dbValidPaths := [(pathP, ''sha256:abc'')],
       dbComponentComponentReferences := [(pathP, [pathP, pathQ])],
       fs := [pathP \<mapsto> File ''data''] \<rparr>"

definition infoP :: ValidPathInfo where
  "infoP = \<lparr>path = pathP, infoDeriver = [], hash = \<lparr>htype = htSHA256, hbytes = ''abc''\<rparr>,
             references = {pathQ}, stateReferences = {}, revision = 0\<rparr>"

definition infoQ :: ValidPathInfo where
  "infoQ = \<lparr>path = pathQ, infoDeriver = [], hash = \<lparr>htype = htSHA256, hbytes = ''def''\<rparr>,
             references = {}, stateReferences = {}, revision = 0\<rparr>"

text \<open>Two state derivations with the same identifier and user, and a store that holds them.\<close>

definition drvD :: Path where
  "drvD = ''/nix/store/d1-foo.drv''"

definition drvD' :: Path where
  "drvD' = ''/nix/store/d2-foo.drv''"

definition stateDrv :: "string \<Rightarrow> Derivation" where
  "stateDrv h =
     \<lparr> outputs = [(''out'', \<lparr>outputPath = pathP\<rparr>)],
       stateOutputs = [(''state'', \<lparr>statepath = ''/nix/state/xyz-foo-id'', componentHash = h,
                                   stateIdentifier = ''id'', username = ''alice''\<rparr>)],
       env = [(''name'', ''foo'')] \<rparr>"

definition drvStore :: store where
  "drvStore = emptyStore
     \<lparr> dbValidPaths := [(pathP, ''sha256:abc'')],
       fs := [pathP \<mapsto> File ''data'', drvD \<mapsto> DrvFile (stateDrv ''h1''),
              drvD' \<mapsto> DrvFile (stateDrv ''h2'')] \<rparr>"

definition drvStore1 :: store where
  "drvStore1 = drvStore\<lparr>dbDerivers := [(pathP, Multi [drvD])], dbStateInfo := [(pathP, [])]\<rparr>"

definition drvStore2 :: store where
  "drvStore2 = drvStore1\<lparr>fs := [pathP \<mapsto> File ''data'', drvD' \<mapsto> DrvFile (stateDrv ''h2'')],
                          dbDerivers := [(pathP, Multi [drvD'])]\<rparr>"

text \<open>
  A third state derivation, and the store \<open>drvStore\<close> with it recorded as the deriver of
  \<open>pathP\<close>.
\<close>

definition drvE :: Path where
  "drvE = ''/nix/store/d0-foo.drv''"

definition drvStore0 :: store where
  "drvStore0 = drvStore
     \<lparr> dbDerivers := [(pathP, Multi [drvE])],
       fs := [pathP \<mapsto> File ''data'', drvE \<mapsto> DrvFile (stateDrv ''h0''),
              drvD \<mapsto> DrvFile (stateDrv ''h1''), drvD' \<mapsto> DrvFile (stateDrv ''h2'')] \<rparr>"

text \<open>The store \<open>drvStore\<close> where \<open>drvD'\<close> is already the recorded deriver of \<open>pathP\<close>, and the
  store that \<^verbatim>\<open>addStateDeriver\<close> of \<open>drvD\<close> leaves.\<close>

definition recordedStore :: store where
  "recordedStore = drvStore\<lparr>dbDerivers := [(pathP, Multi [drvD'])]\<rparr>"

definition recordedStore1 :: store where
  "recordedStore1 = drvStore
     \<lparr> fs := [pathP \<mapsto> File ''data'', drvD \<mapsto> DrvFile (stateDrv ''h1'')],
       dbDerivers := [(pathP, Multi [drvD])], dbStateInfo := [(pathP, [])] \<rparr>"

text \<open>The store \<open>drvStore\<close> where the derivation \<open>drvD'\<close> has two outputs, and the stores
  that the two calls of \<^verbatim>\<open>addStateDeriver\<close> leave.\<close>

definition twoDrv :: Derivation where
  "twoDrv = (stateDrv ''h2'')
     \<lparr>outputs := [(''out'', \<lparr>outputPath = pathP\<rparr>), (''doc'', \<lparr>outputPath = pathQ\<rparr>)]\<rparr>"

definition twoStore :: store where
  "twoStore = drvStore
     \<lparr>fs := [pathP \<mapsto> File ''data'', drvD \<mapsto> DrvFile (stateDrv ''h1''), drvD' \<mapsto> DrvFile twoDrv]\<rparr>"

definition twoStore1 :: store where
  "twoStore1 = twoStore\<lparr>dbDerivers := [(pathP, Multi [drvD])], dbStateInfo := [(pathP, [])]\<rparr>"

definition twoStore2 :: store where
  "twoStore2 = twoStore1\<lparr>fs := [pathP \<mapsto> File ''data'', drvD' \<mapsto> DrvFile twoDrv],
                          dbDerivers := [(pathP, Multi [drvD'])]\<rparr>"

text \<open>The store \<open>drvStore\<close> where the recorded deriver of \<open>pathP\<close> is not on disk.\<close>

definition goneStore :: store where
  "goneStore = drvStore\<lparr>dbDerivers := [(pathP, Multi [drvE])]\<rparr>"

text \<open>
  Two state derivations whose identifier is the wildcard \<open>*\<close>, in a store where \<open>drvE\<close>
  (identifier \<open>id\<close>) is the recorded deriver of \<open>pathP\<close>; and the stores that the two calls of
  \<^verbatim>\<open>addStateDeriver\<close> leave.
\<close>

definition starDrv :: "string \<Rightarrow> Derivation" where
  "starDrv h =
     \<lparr> outputs = [(''out'', \<lparr>outputPath = pathP\<rparr>)],
       stateOutputs = [(''state'', \<lparr>statepath = ''/nix/state/xyz-foo-id'', componentHash = h,
                                   stateIdentifier = ''*'', username = ''alice''\<rparr>)],
       env = [(''name'', ''foo'')] \<rparr>"

definition starStore :: store where
  "starStore = emptyStore
     \<lparr> dbValidPaths := [(pathP, ''sha256:abc'')],
       dbDerivers := [(pathP, Multi [drvE])],
       fs := [pathP \<mapsto> File ''data'', drvE \<mapsto> DrvFile (stateDrv ''h0''),
              drvD \<mapsto> DrvFile (starDrv ''h1''), drvD' \<mapsto> DrvFile (starDrv ''h2'')] \<rparr>"

definition starStore1 :: store where
  "starStore1 = starStore\<lparr>dbDerivers := [(pathP, Multi [drvE, drvD])], dbStateInfo := [(pathP, [])]\<rparr>"

definition starStore2 :: store where
  "starStore2 = starStore1
     \<lparr> fs := [pathP \<mapsto> File ''data'', drvE \<mapsto> DrvFile (stateDrv ''h0''),
              drvD' \<mapsto> DrvFile (starDrv ''h2'')],
       dbDerivers := [(pathP, Multi [drvE, drvD'])] \<rparr>"

text \<open>A store with a component that refers to a component and to a state path.\<close>

definition stateQ :: Path where
  "stateQ = ''/nix/state/xyz-foo-id''"

definition dualStore :: store where
  "dualStore = emptyStore
     \<lparr> dbValidPaths := [(pathP, ''sha256:abc''), (pathQ, ''sha256:def'')],
       dbValidStatePaths := [(stateQ, drvD)],
       dbComponentComponentReferences := [(pathP, [pathQ])],
       dbComponentStateReferences := [(pathP, [stateQ])] \<rparr>"

text \<open>
  A store with a state path \<open>stateP\<close> that has references at two timestamps; revision 1
  of both state paths is timestamp 5.
\<close>

definition stateP :: Path where
  "stateP = ''/nix/state/uvw-bar-id''"

definition revStore :: store where
  "revStore = emptyStore
     \<lparr> dbValidPaths := [(pathP, ''sha256:abc''), (pathQ, ''sha256:def'')],
       dbValidStatePaths := [(stateQ, drvD), (stateP, drvD)],
       dbComponentComponentReferences := [(pathP, [pathQ])],
       dbComponentStateReferences := [(pathP, [stateQ])],
       dbStateComponentReferences := [((stateP, 5), []), ((stateP, 10), [pathQ])],
       dbStateStateReferences := [((stateP, 5), []), ((stateP, 10), [stateQ])],
       dbStateRevisions := [((stateQ, 1), [(stateQ, 5)]), ((stateP, 1), [(stateP, 5)])] \<rparr>"

text \<open>A store whose only row is a row of references of a path that is not realisable.\<close>

definition danglingStore :: store where
  "danglingStore = emptyStore\<lparr>dbComponentComponentReferences := [(pathP, [pathQ])]\<rparr>"

text \<open>
  A store to export from: \<open>pathP\<close> is valid, refers to the valid \<open>pathQ\<close> and was built by
  the derivation \<open>drvD\<close>, which has no state.
\<close>

definition plainDrv :: Derivation where
  "plainDrv = \<lparr> outputs = [(''out'', \<lparr>outputPath = pathP\<rparr>)], stateOutputs = [],
                env = [(''name'', ''foo'')] \<rparr>"

definition sourceStore :: store where
  "sourceStore = emptyStore
     \<lparr> dbValidPaths := [(pathP, ''sha256:data''), (pathQ, ''sha256:more'')],
       dbComponentComponentReferences := [(pathP, [pathQ])],
       dbDerivers := [(pathP, Single drvD)],
       fs := [pathP \<mapsto> File ''data'', pathQ \<mapsto> File ''more'', drvD \<mapsto> DrvFile plainDrv] \<rparr>"

definition sourceStream :: "token list" where
  "sourceStream =
     [TNar (File ''data''), TInt 0x4558494e, TStr pathP, TInt 1, TStr pathQ, TStr drvD, TInt 0]"

text \<open>The same store, where \<open>pathP\<close> refers to itself only.\<close>

definition selfStore :: store where
  "selfStore = sourceStore\<lparr>dbComponentComponentReferences := [(pathP, [pathP])]\<rparr>"

section \<open>Path naming: results\<close>

lemma of_char_image_mem: "(of_char c :: nat) \<in> of_char ` S \<Longrightarrow> c \<in> S"
  by auto

lemma upper: 
  assumes "CHR ''A'' \<le> c" "c \<le> CHR ''Z''" shows "c \<in> set ''ABCDEFGHIJKLMNOPQRSTUVWXYZ''"
proof -
  have "65 \<le> (of_char c :: nat) \<and> (of_char c :: nat) < 91"
    using assms by (simp add: less_eq_char_def)
  then have "(of_char c :: nat) \<in> set [65 ..< 91]"
    by (simp only: set_upt atLeastLessThan_iff)
  then show ?thesis
    by (intro of_char_image_mem) (simp add: upt_rec)
qed

lemma lower: 
  assumes "CHR ''a'' \<le> c" "c \<le> CHR ''z''" shows "c \<in> set ''abcdefghijklmnopqrstuvwxyz''"
proof -
  have "97 \<le> (of_char c :: nat) \<and> (of_char c :: nat) < 123"
    using assms by (simp add: less_eq_char_def)
  then have "(of_char c :: nat) \<in> set [97 ..< 123]"
    by (simp only: set_upt atLeastLessThan_iff)
  then show ?thesis
    by (intro of_char_image_mem) (simp add: upt_rec)
qed

lemma digit: 
  assumes "CHR ''0'' \<le> c" "c \<le> CHR ''9''" shows "c \<in> set ''0123456789''"
proof -
  have "48 \<le> (of_char c :: nat) \<and> (of_char c :: nat) < 58"
    using assms by (simp add: less_eq_char_def)
  then have "(of_char c :: nat) \<in> set [48 ..< 58]"
    by (simp only: set_upt atLeastLessThan_iff)
  then show ?thesis
    by (intro of_char_image_mem) (simp add: upt_rec)
qed

lemma storeNameCharset_parts:
  "storeNameCharset = set ''ABCDEFGHIJKLMNOPQRSTUVWXYZ'' \<union> set ''abcdefghijklmnopqrstuvwxyz''
      \<union> set ''0123456789'' \<union> set ''+-._?=''"
  unfolding storeNameCharset_def by (simp only: set_append [symmetric] append.simps)

lemma storeNameCharset_valid: "list_all validNameChar
   ''ABCDEFGHIJKLMNOPQRSTUVWXYZabcdefghijklmnopqrstuvwxyz0123456789+-._?=''"
  by (simp add: validNameChar_def)

lemma validNameChar_charset: "validNameChar c \<longleftrightarrow> c \<in> storeNameCharset"
proof
  assume "validNameChar c"
  then consider "CHR ''A'' \<le> c \<and> c \<le> CHR ''Z''" | "CHR ''a'' \<le> c \<and> c \<le> CHR ''z''"
    | "CHR ''0'' \<le> c \<and> c \<le> CHR ''9''" | "c \<in> set ''+-._?=''"
    unfolding validNameChar_def by blast
  then show "c \<in> storeNameCharset"
    unfolding storeNameCharset_parts using upper lower digit by (cases; blast)
next
  assume "c \<in> storeNameCharset"
  then show "validNameChar c"
    using storeNameCharset_valid unfolding storeNameCharset_def list_all_iff by blast
qed

text \<open>
  Claim C1. For every type string, hash and name, \<open>makeStorePath\<close> fails with
  \<open>InvalidName\<close> exactly when the name starts with a dot or has a character outside
  \<open>[A-Za-z0-9+-._?=]\<close>; otherwise it returns the store root, a slash, the base-32 print of
  the SHA-256 of \<open>type:sha256:hex(h):store-root:name\<close> compressed to 20 bytes, a dash and
  the name.
\<close>

theorem makeStorePath_spec:
  "makeStorePath e type h name =
     (if startsWithDot name \<or> \<not> set name \<subseteq> storeNameCharset then Inl InvalidName
      else Inr (nixStore e @ ''/''
                @ printHash32 e (compressHash e (hashString e htSHA256
                    (type @ '':sha256:'' @ printHash e h @ '':'' @ nixStore e @ '':'' @ name)) 20)
                @ ''-'' @ name))"
proof -
  have dot: "take 1 name = ''.'' \<longleftrightarrow> startsWithDot name"
    by (cases name) (simp_all add: startsWithDot_def)
  have chars: "list_all validNameChar name \<longleftrightarrow> set name \<subseteq> storeNameCharset"
    by (auto simp: list_all_iff validNameChar_charset)
  show ?thesis
    unfolding makeStorePath_def checkStoreName_def dot chars by (simp add: Let_def)
qed

theorem makeStorePath_spec_witness:
  "makeStorePath exampleEnv ''source'' \<lparr>htype = htSHA256, hbytes = ''abc''\<rparr> ''foo.tar.gz''
     = Inr ''/nix/store/source:sha256:abc:/n-foo.tar.gz''
   \<and> makeStorePath exampleEnv ''source'' \<lparr>htype = htSHA256, hbytes = ''abc''\<rparr> ''.foo'' = Inl InvalidName
   \<and> makeStorePath exampleEnv ''source'' \<lparr>htype = htSHA256, hbytes = ''abc''\<rparr> ''a b'' = Inl InvalidName"
  using makeStorePath_spec [of exampleEnv "''source''" "\<lparr>htype = htSHA256, hbytes = ''abc''\<rparr>" "''foo.tar.gz''"]
    makeStorePath_spec [of exampleEnv "''source''" "\<lparr>htype = htSHA256, hbytes = ''abc''\<rparr>" "''.foo''"]
    makeStorePath_spec [of exampleEnv "''source''" "\<lparr>htype = htSHA256, hbytes = ''abc''\<rparr>" "''a b''"]
  by (simp add: startsWithDot_def storeNameCharset_def exampleEnv_def)

text \<open>
  Claim C6. \<open>checkStatePath\<close> is to raise an error when the declared state path differs
  from the one \<open>makeStatePath\<close> recomputes. On the derivation \<open>spoofedDrv\<close> the declared
  path is \<open>/nix/state/bogus\<close>, the recomputed one is another path, and the check returns
  normally: the error object is built and never thrown.
\<close>

theorem checkStatePath_spoofed_accepted:
  "makeStatePath exampleEnv ''abc'' ''foo'' ''id'' = Inr ''/nix/state/:sha256:abc:/nix/sta-foo-id''
   \<and> statepath (the (map_of (stateOutputs spoofedDrv) ''state'')) = ''/nix/state/bogus''
   \<and> checkStatePath exampleEnv spoofedDrv = Inr ()"
  by (simp add: checkStatePath_def makeStatePath_def checkStoreName_def validNameChar_def
      spoofedDrv_def exampleEnv_def)

section \<open>The framing of string lists in the example instance\<close>

lemma decode_le:
  fixes n :: nat
  assumes "n < 4294967296"
  shows "n mod 256 + 256 * (n div 256 mod 256 + 256 * (n div 256 div 256 mod 256
           + 256 * (n div 256 div 256 div 256 mod 256))) = n"
proof -
  have "n div 256 div 256 div 256 < 256"
    using assms by (simp add: div_mult2_eq [symmetric] less_mult_imp_div_less)
  then have "n div 256 div 256 div 256 mod 256 = n div 256 div 256 div 256" by simp
  then show ?thesis by (simp only: mod_mult_div_eq)
qed

lemma length_packInt [simp]: "length (packInt n) = 4"
  by (simp add: packInt_def)

lemma packInt_not_Nil [simp]: "packInt n \<noteq> []"
  by (simp add: packInt_def)

lemma packInt_nth:
  "packInt n ! 0 = char_of n" "packInt n ! 1 = char_of (n div 256)"
  "packInt n ! 2 = char_of (n div 256 div 256)" "packInt n ! 3 = char_of (n div 256 div 256 div 256)"
  unfolding packInt_def by simp_all

lemma unpack_packInt:
  assumes "n < 4294967296"
  shows "(of_char (packInt n ! 0) :: nat) + 256 * (of_char (packInt n ! 1)
           + 256 * (of_char (packInt n ! 2) + 256 * of_char (packInt n ! 3))) = n"
  unfolding packInt_nth of_char_of by (rule decode_le [OF assms])

lemma unpackFuel_pack:
  "length ss \<le> k \<Longrightarrow> \<forall>s\<in>set ss. length s < 4294967295 \<Longrightarrow> unpackFuel k (packStringsLE ss) = Some ss"
proof (induction ss arbitrary: k)
  case Nil
  then show ?case by (cases k) (simp_all add: packStringsLE_def)
next
  case (Cons s ss)
  then obtain k' where k: "k = Suc k'" and k': "length ss \<le> k'" by (cases k) auto
  have len: "length s < 4294967295" using Cons.prems by simp
  then have dec: "(of_char (packInt (length s) ! 0) :: nat) + 256 * (of_char (packInt (length s) ! 1)
      + 256 * (of_char (packInt (length s) ! 2) + 256 * of_char (packInt (length s) ! 3))) = length s"
    by (intro unpack_packInt) simp
  have ih: "unpackFuel k' (packStringsLE ss) = Some ss"
    using Cons.IH [OF k'] Cons.prems by simp
  have str: "packStringsLE (s # ss) = packInt (length s) @ s @ packStringsLE ss"
    by (simp add: packStringsLE_def)
  have nth: "\<And>i. i < 4 \<Longrightarrow> (packInt (length s) @ s @ packStringsLE ss) ! i = packInt (length s) ! i"
    by (simp add: nth_append)
  show ?case
    unfolding k str
    apply (subst unpackFuel.simps)
    apply (simp only: nth Let_def dec)
    using len ih apply (simp add: nth)
    done
qed

lemma length_packStringsLE: "length ss \<le> length (packStringsLE ss)"
  by (induction ss) (simp_all add: packStringsLE_def)

lemma unpack_pack_LE:
  "\<forall>s\<in>set ss. length s < 4294967295 \<Longrightarrow> unpackStringsLE (packStringsLE ss) = Some ss"
  unfolding unpackStringsLE_def
  by (rule unpackFuel_pack) (simp_all add: length_packStringsLE)

lemma header_LE:
  "length s < 16777216 \<Longrightarrow> length (packStringsLE (s # ss)) \<ge> 4 \<and> packStringsLE (s # ss) ! 3 = CHR 0x00"
  by (simp add: packStringsLE_def packInt_def nth_append div_mult2_eq [symmetric] char_of_def)

section \<open>Substitutes\<close>

lemma bindE_Inr_iff:
  "bindE m f = Inr y \<longleftrightarrow> (\<exists>x. m = Inr x \<and> f x = Inr y)"
  by (cases m) simp_all

lemma bindE_Inl_iff:
  "bindE m f = Inl err \<longleftrightarrow> m = Inl err \<or> (\<exists>x. m = Inr x \<and> f x = Inl err)"
  by (cases m) auto

lemma readSubstitutesLoop_records:
  "list_all (codecReads e) subs \<Longrightarrow> readSubstitutesLoop e (map (recordOf e) subs) = Inr subs"
  by (induction subs) (simp_all add: codecReads_def)

lemma readSubstitutes_written:
  "list_all (codecReads e) subs \<Longrightarrow> readSubstitutes e (writeSubstitutes e s p subs) p = Inr subs"
  using readSubstitutesLoop_records [of e subs]
  by (simp add: readSubstitutes_def writeSubstitutes_def queryStrings_def setStrings_def
      update_conv' recordOf_def [abs_def])

lemma codecReads_example:
  assumes "length (deriver i) < 16777216" "length (program i) < 16777216"
    and "\<forall>a\<in>set (args i). length a < 16777216"
    and "length (packStringsLE (args i)) < 16777216"
  shows "codecReads exampleEnv i"
proof -
  have small: "\<forall>s\<in>set (args i). length s < 4294967295"
    using assms(3) by (auto intro: less_trans)
  have "\<forall>s\<in>set [''2'', deriver i, program i, packStringsLE (args i)]. length s < 4294967295"
    using assms by simp
  then have outer: "unpackStringsLE (packStringsLE [''2'', deriver i, program i, packStringsLE (args i)])
      = Some [''2'', deriver i, program i, packStringsLE (args i)]"
    by (rule unpack_pack_LE)
  have inner: "unpackStringsLE (packStringsLE (args i)) = Some (args i)"
    using small by (rule unpack_pack_LE)
  have hd: "4 \<le> length (packStringsLE [''2'', deriver i, program i, packStringsLE (args i)])
      \<and> packStringsLE [''2'', deriver i, program i, packStringsLE (args i)] ! 3 = CHR 0x00"
    by (rule header_LE) simp
  show ?thesis
    unfolding codecReads_def recordOf_def using outer inner hd by (simp add: exampleEnv_def)
qed

lemma isStorePath_pathP: "isStorePath exampleEnv pathP"
  by (simp add: isStorePath_def isInStore_def exampleEnv_def pathP_def)

lemma length_pack_small: "length (packStringsLE [''a'']) < 16777216" "length (packStringsLE [''b'', ''c'']) < 16777216"
  by (simp_all add: packStringsLE_def)

lemma readSubstitutes_subsStore: "readSubstitutes exampleEnv subsStore pathP = Inr [subA, subB]"
  unfolding subsStore_def
  by (rule readSubstitutes_written) (simp add: codecReads_example subA_def subB_def length_pack_small)

lemma registerSubstitute_present:
  assumes "isStorePath e p" "readSubstitutes e s p = Inr subs" "list_ex (\<lambda>x. subEq x sub) subs"
  shows "registerSubstitute e s p sub = Inr s"
  using assms by (simp add: registerSubstitute_def assertStorePath_def)

text \<open>
  Claim C9. After \<open>registerSubstitute\<close> the registered substitute is to be the first of
  the row, also when an equal one (same program and arguments) is in the row already. The
  row of \<open>pathP\<close> holds \<open>subA\<close> then \<open>subB\<close>; registering \<open>subB'\<close>, equal to \<open>subB\<close> under
  the comparison, returns the store as it was, with \<open>subA\<close> in front.
\<close>

theorem registerSubstitute_keeps_old_front:
  "readSubstitutes exampleEnv subsStore pathP = Inr [subA, subB]
   \<and> subEq subB subB' \<and> \<not> subEq subA subB'
   \<and> registerSubstitute exampleEnv subsStore pathP subB' = Inr subsStore"
  using registerSubstitute_present [OF isStorePath_pathP readSubstitutes_subsStore, of subB']
  by (simp add: readSubstitutes_subsStore subEq_def subA_def subB_def subB'_def)

section \<open>Shared state\<close>








section \<open>Deletion\<close>

lemma isValidPathTxn_delPair:
  "dbValidPaths s' = delPair (dbValidPaths s) p \<Longrightarrow> \<not> isValidPathTxn s' p"
  by (simp add: isValidPathTxn_def queryString_def delPair_def delete_conv')

lemma getReferrersTxn_valid:
  "isValidPathTxn s p \<Longrightarrow>
   getReferrersTxn e s p r =
     Inr (set (filter (\<lambda>i. p \<in> set (queryStrings (dbComponentComponentReferences s) i))
                 (enumTable (dbComponentComponentReferences s))))"
  by (simp add: getReferrersTxn_def getXReferrers_def Let_def)

lemma invalidatePath_with_substitutes:
  "readSubstitutes e s p = Inr subs \<Longrightarrow> subs \<noteq> [] \<Longrightarrow>
   invalidatePath e s p = Inr (s\<lparr>dbValidPaths := delPair (dbValidPaths s) p\<rparr>)"
  by (simp add: invalidatePath_def querySubstitutes_def)

text \<open>
  Claim C7, as amended. For a valid component path with no valid referrer but itself
  and at least one substitute that \<open>readSubstitutes\<close> reads, \<open>deleteFromStore\<close> removes the
  validity row and leaves the reference rows and the substitute row as they were.
\<close>

theorem deleteFromStore_with_substitutes:
  assumes "canonPath e p0 = Some p" and "isStorePath e p" and "pathExists s p"
    and "isValidPathTxn s p"
    and "readSubstitutes e s p = Inr subs" and "subs \<noteq> []"
    and "getReferrersTxn e s p (- 1) = Inr referrers"
    and "\<forall>i\<in>referrers. i = p \<or> \<not> isValidPathTxn s i"
  shows "\<exists>s'. deleteFromStore e s p0 = Inr s'
     \<and> \<not> isValidPathTxn s' p
     \<and> dbValidPaths s' = delPair (dbValidPaths s) p
     \<and> dbComponentComponentReferences s' = dbComponentComponentReferences s
     \<and> dbComponentStateReferences s' = dbComponentStateReferences s
     \<and> dbSubstitutes s' = dbSubstitutes s"
proof -
  have inv: "invalidatePath e s p = Inr (s\<lparr>dbValidPaths := delPair (dbValidPaths s) p\<rparr>)"
    using assms(5,6) by (rule invalidatePath_with_substitutes)
  have nouse: "\<not> (\<exists>i\<in>referrers. i \<noteq> p \<and> isValidPathTxn s i)"
    using assms(8) by blast
  obtain obj where obj: "fs s p = Some obj"
    using assms(3) by (auto simp: pathExists_def)
  have "deleteFromStore e s p0 =
      Inr (s\<lparr>dbValidPaths := delPair (dbValidPaths s) p, fs := (fs s)(p := None)\<rparr>)"
    using assms(1,2,4,7) nouse inv obj
    by (simp add: deleteFromStore_def assertStorePath_def deletePath_def)
  then show ?thesis by (simp add: isValidPathTxn_delPair)
qed

lemma readSubstitutes_delStore: "readSubstitutes exampleEnv delStore pathP = Inr [subA]"
proof -
  have "readSubstitutes exampleEnv (writeSubstitutes exampleEnv emptyStore pathP [subA]) pathP = Inr [subA]"
    by (rule readSubstitutes_written) (simp add: codecReads_example subA_def length_pack_small)
  then show ?thesis by (simp add: readSubstitutes_def delStore_def writeSubstitutes_def)
qed

lemma delStore_valid: "isValidPathTxn delStore pathP"
  by (simp add: isValidPathTxn_def queryString_def delStore_def writeSubstitutes_def)

lemma delStore_referrers: "getReferrersTxn exampleEnv delStore pathP (- 1) = Inr {pathP}"
  unfolding getReferrersTxn_valid [OF delStore_valid]
  by (simp add: delStore_def writeSubstitutes_def enumTable_def queryStrings_def pathP_def pathQ_def)

theorem deleteFromStore_with_substitutes_witness:
  "\<exists>s'. deleteFromStore exampleEnv delStore pathP = Inr s'
     \<and> \<not> isValidPathTxn s' pathP
     \<and> dbValidPaths s' = delPair (dbValidPaths delStore) pathP
     \<and> dbComponentComponentReferences s' = dbComponentComponentReferences delStore
     \<and> dbComponentStateReferences s' = dbComponentStateReferences delStore
     \<and> dbSubstitutes s' = dbSubstitutes delStore"
  by (rule deleteFromStore_with_substitutes [OF _ isStorePath_pathP _ delStore_valid
        readSubstitutes_delStore _ delStore_referrers])
     (simp_all add: exampleEnv_def pathExists_def delStore_def writeSubstitutes_def)

text \<open>
  Claim C7 as stated says that the reference rows are cleared. In \<open>delStore\<close> the path
  \<open>pathP\<close> is valid, has the substitute \<open>subA\<close> and no referrer but itself; after
  \<open>deleteFromStore\<close> its row of references is still there.
\<close>

theorem deleteFromStore_references_not_cleared:
  "isValidPathTxn delStore pathP
   \<and> readSubstitutes exampleEnv delStore pathP = Inr [subA]
   \<and> getReferrersTxn exampleEnv delStore pathP (- 1) = Inr {pathP}
   \<and> map_sum id dbComponentComponentReferences (deleteFromStore exampleEnv delStore pathP)
       = Inr [(pathP, [pathP, pathQ])]"
proof -
  have "deleteFromStore exampleEnv delStore pathP =
      Inr (delStore\<lparr>dbValidPaths := delPair (dbValidPaths delStore) pathP, fs := (fs delStore)(pathP := None)\<rparr>)"
    using delStore_valid delStore_referrers isStorePath_pathP
      invalidatePath_with_substitutes [OF readSubstitutes_delStore]
    by (simp add: deleteFromStore_def assertStorePath_def deletePath_def exampleEnv_def)
       (simp add: delStore_def writeSubstitutes_def)
  then show ?thesis
    using delStore_valid readSubstitutes_delStore delStore_referrers
    by (simp add: delStore_def writeSubstitutes_def)
qed

section \<open>Registration\<close>

lemma foldE_invariant:
  assumes "\<And>x a b. f x a = Inr b \<Longrightarrow> P a \<Longrightarrow> P b"
  shows "P a \<Longrightarrow> foldE f xs a = Inr b \<Longrightarrow> P b"
  using assms by (induction xs arbitrary: a) (auto simp: bindE_Inr_iff)

lemma foldE_error_from_step:
  assumes "foldE f xs a = Inl err"
  shows "\<exists>x b. f x b = Inl err"
  using assms by (induction xs arbitrary: a) (auto simp: bindE_Inl_iff)

lemma deletePath_db:
  "deletePath s p = Inr s' \<Longrightarrow> dbValidPaths s' = dbValidPaths s"
  by (auto simp: deletePath_def split: option.splits)

lemma deletePath_error: "deletePath s p = Inl err \<Longrightarrow> err = SysError"
  by (auto simp: deletePath_def split: option.splits)

lemma derivationFromPathTxn_error: "derivationFromPathTxn s p = Inl err \<Longrightarrow> err = SysError"
  by (auto simp: derivationFromPathTxn_def split: option.splits fsobj.splits)

lemma stateOutputOf_error: "stateOutputOf d = Inl err \<Longrightarrow> err = UndefinedDeref"
  by (auto simp: stateOutputOf_def split: option.splits)

lemma readSubstitutesLoop_error:
  "readSubstitutesLoop e ss = Inl err \<Longrightarrow> err = BackendError \<or> err = MalformedSubstitute"
  by (induction ss) (auto simp: bindE_Inl_iff split: if_splits option.splits)

lemma readSubstitutes_error:
  "readSubstitutes e s p = Inl err \<Longrightarrow> err = BackendError \<or> err = MalformedSubstitute"
  unfolding readSubstitutes_def by (rule readSubstitutesLoop_error)

lemma isRealisablePath_error:
  "isRealisablePath e s p = Inl err \<Longrightarrow> err = BackendError \<or> err = MalformedSubstitute"
  by (auto simp: isRealisablePath_def bindE_Inl_iff split: if_splits dest: readSubstitutes_error)

lemma isRealisableStatePath_error:
  "isRealisableStatePath e s p = Inl err \<Longrightarrow> err = BackendError \<or> err = MalformedSubstitute"
  by (auto simp: isRealisableStatePath_def bindE_Inl_iff split: if_splits dest: readSubstitutes_error)

lemma isRealisableComponentOrStatePath_error:
  "isRealisableComponentOrStatePath e s p = Inl err \<Longrightarrow> err = BackendError \<or> err = MalformedSubstitute"
  by (auto simp: isRealisableComponentOrStatePath_def bindE_Inl_iff split: if_splits dest: readSubstitutes_error)

lemma setReferences_valid:
  "setReferences e s p refs srefs r = Inr s' \<Longrightarrow> dbValidPaths s' = dbValidPaths s"
  by (auto simp: setReferences_def bindE_Inr_iff Let_def split: if_splits option.splits)

lemma setReferences_error:
  "setReferences e s p refs srefs r = Inl err \<Longrightarrow> err \<noteq> InvalidReference"
  by (auto simp: setReferences_def bindE_Inl_iff bindE_Inr_iff Let_def split: if_splits option.splits
      dest: isRealisablePath_error isRealisableStatePath_error isRealisableComponentOrStatePath_error)


lemma mergeStep_valid:
  "mergeStep nd del ident user d acc = Inr acc' \<Longrightarrow> dbValidPaths (fst acc') = dbValidPaths (fst acc)"
  by (auto simp: mergeStep_def Let_def bindE_Inr_iff split: if_splits dest: deletePath_db)

lemma mergeStep_error:
  "mergeStep nd del ident user d acc = Inl err \<Longrightarrow> err = SysError \<or> err = UndefinedDeref"
  by (auto simp: mergeStep_def Let_def bindE_Inl_iff split: if_splits
      dest: deletePath_error derivationFromPathTxn_error stateOutputOf_error)

lemma mergeNewDerivationIntoListTxn_valid:
  assumes "mergeNewDerivationIntoListTxn e s sp newdrv drvs del = Inr acc"
  shows "dbValidPaths (fst acc) = dbValidPaths s"
proof -
  from assms obtain so :: DerivationStateOutput and acc1 where
    fold: "foldE (mergeStep newdrv del (stateIdentifier so) (username so)) (sorted_list_of_set drvs) (s, {}) = Inr acc1"
    and acc: "acc = (fst acc1, insert newdrv (snd acc1))"
    by (auto simp: mergeNewDerivationIntoListTxn_def bindE_Inr_iff)
  have "dbValidPaths (fst acc1) = dbValidPaths s"
    by (rule foldE_invariant [where P = "\<lambda>a. dbValidPaths (fst a) = dbValidPaths s", OF _ _ fold])
       (auto dest: mergeStep_valid)
  then show ?thesis by (simp add: acc)
qed

lemma mergeNewDerivationIntoListTxn_error:
  "mergeNewDerivationIntoListTxn e s sp newdrv drvs del = Inl err \<Longrightarrow> err = SysError \<or> err = UndefinedDeref"
  by (auto simp: mergeNewDerivationIntoListTxn_def bindE_Inl_iff
      dest: derivationFromPathTxn_error stateOutputOf_error mergeStep_error dest!: foldE_error_from_step)

lemma queryDeriversStep_error:
  "queryDeriversStep s ident user d acc = Inl err \<Longrightarrow> err \<noteq> InvalidReference"
  by (auto simp: queryDeriversStep_def bindE_Inl_iff split: if_splits
      dest: derivationFromPathTxn_error stateOutputOf_error)

lemma queryDerivers_error:
  "queryDerivers e s p ident user = Inl err \<Longrightarrow> err \<noteq> InvalidReference"
  by (auto simp: queryDerivers_def queryDeriverStrings_def bindE_Inl_iff split: if_splits option.splits drow.splits
      dest: isRealisablePath_error queryDeriversStep_error dest!: foldE_error_from_step)

lemma addStateDeriver_valid:
  "addStateDeriver e s p d = Inr s' \<Longrightarrow> dbValidPaths s' = dbValidPaths s"
  by (auto simp: addStateDeriver_def bindE_Inr_iff Let_def split: if_splits
      dest: mergeNewDerivationIntoListTxn_valid)

lemma addStateDeriver_error:
  "addStateDeriver e s p d = Inl err \<Longrightarrow> err \<noteq> InvalidReference"
  by (auto simp: addStateDeriver_def bindE_Inl_iff assertStorePath_def Let_def split: if_splits
      dest: isRealisablePath_error derivationFromPathTxn_error stateOutputOf_error queryDerivers_error
        mergeNewDerivationIntoListTxn_error)

lemma setDeriver_valid:
  "setDeriver e s p d = Inr s' \<Longrightarrow> dbValidPaths s' = dbValidPaths s"
  by (auto simp: setDeriver_def bindE_Inr_iff split: if_splits dest: addStateDeriver_valid)

lemma setDeriver_error:
  "setDeriver e s p d = Inl err \<Longrightarrow> err \<noteq> InvalidReference"
  by (auto simp: setDeriver_def isStateDrvPathTxn_def bindE_Inl_iff assertStorePath_def split: if_splits
      dest: isRealisablePath_error derivationFromPathTxn_error addStateDeriver_error)

lemma isValidPathTxn_setString:
  "dbValidPaths s' = setString (dbValidPaths s) p v \<Longrightarrow> isValidPathTxn s' q \<longleftrightarrow> q = p \<or> isValidPathTxn s q"
  by (simp add: isValidPathTxn_def queryString_def setString_def update_conv')

lemma isValidPathTxn_same:
  "dbValidPaths s' = dbValidPaths s \<Longrightarrow> isValidPathTxn s' q \<longleftrightarrow> isValidPathTxn s q"
  by (simp add: isValidPathTxn_def)

lemma setHash_valid:
  "setHash e s p h = Inr s' \<Longrightarrow> isValidPathTxn s' q \<longleftrightarrow> q = p \<or> isValidPathTxn s q"
  by (auto simp: setHash_def Let_def isValidPathTxn_setString split: if_splits)

lemma setHash_error: "setHash e s p h = Inl err \<Longrightarrow> err = AssertionFailed"
  by (auto simp: setHash_def Let_def split: if_splits)

lemma setStateValid_valid: "isValidPathTxn (setStateValid s p d) q \<longleftrightarrow> isValidPathTxn s q"
  by (simp add: setStateValid_def isValidPathTxn_def)

lemma registerOne_unfold:
  "registerOne e N i s =
     (if \<not> isStorePath e (path i) \<and> \<not> isStatePath e (path i) then Inl NotStatePath
      else
        bindE (if isStorePath e (path i) then setHash e s (path i) (hash i)
               else Inr (setStateValid s (path i) (infoDeriver i))) (\<lambda>s1.
        bindE (setReferences e s1 (path i) (references i) (stateReferences i) (revision i)) (\<lambda>s2.
          if \<exists>j\<in>references i. \<not> isValidPathTxn s2 j \<and> j \<notin> N then Inl InvalidReference
          else if isStorePath e (path i) then setDeriver e s2 (path i) (infoDeriver i)
          else Inr s2)))"
  by (cases "isStorePath e (path i)"; cases "isStatePath e (path i)")
     (simp_all add: registerOne_def assertStorePath_def assertStatePath_def cong: if_cong)

lemma registerOne_InrE:
  assumes "registerOne e N i s = Inr s'"
  obtains s1 s2 where
    "(if isStorePath e (path i) then setHash e s (path i) (hash i)
      else Inr (setStateValid s (path i) (infoDeriver i))) = Inr s1"
    "setReferences e s1 (path i) (references i) (stateReferences i) (revision i) = Inr s2"
    "\<not> (\<exists>j\<in>references i. \<not> isValidPathTxn s2 j \<and> j \<notin> N)"
    "(if isStorePath e (path i) then setDeriver e s2 (path i) (infoDeriver i) else Inr s2) = Inr s'"
proof -
  let ?k = "\<lambda>s2. if \<exists>j\<in>references i. \<not> isValidPathTxn s2 j \<and> j \<notin> N then Inl InvalidReference
          else if isStorePath e (path i) then setDeriver e s2 (path i) (infoDeriver i)
          else Inr s2"
  have shape: "\<not> (\<not> isStorePath e (path i) \<and> \<not> isStatePath e (path i))"
    using assms unfolding registerOne_unfold by (cases "\<not> isStorePath e (path i) \<and> \<not> isStatePath e (path i)") simp_all
  then have eq: "registerOne e N i s = bindE (if isStorePath e (path i) then setHash e s (path i) (hash i)
               else Inr (setStateValid s (path i) (infoDeriver i))) (\<lambda>s1.
        bindE (setReferences e s1 (path i) (references i) (stateReferences i) (revision i)) ?k)"
    by (simp only: registerOne_unfold if_False)
  have "bindE (if isStorePath e (path i) then setHash e s (path i) (hash i)
               else Inr (setStateValid s (path i) (infoDeriver i))) (\<lambda>s1.
        bindE (setReferences e s1 (path i) (references i) (stateReferences i) (revision i)) ?k) = Inr s'"
    using assms unfolding eq by assumption
  then obtain s1 s2 where
    s1: "(if isStorePath e (path i) then setHash e s (path i) (hash i)
      else Inr (setStateValid s (path i) (infoDeriver i))) = Inr s1"
    and s2: "setReferences e s1 (path i) (references i) (stateReferences i) (revision i) = Inr s2"
    and k: "?k s2 = Inr s'"
    unfolding bindE_Inr_iff by blast
  have chk: "\<not> (\<exists>j\<in>references i. \<not> isValidPathTxn s2 j \<and> j \<notin> N)"
    using k by (cases "\<exists>j\<in>references i. \<not> isValidPathTxn s2 j \<and> j \<notin> N") simp_all
  then have "?k s2 = (if isStorePath e (path i) then setDeriver e s2 (path i) (infoDeriver i) else Inr s2)"
    by (rule if_not_P)
  then have "(if isStorePath e (path i) then setDeriver e s2 (path i) (infoDeriver i) else Inr s2) = Inr s'"
    using k by (rule subst)
  with s1 s2 chk show ?thesis by (rule that)
qed

lemma step1_valid:
  assumes "(if b then setHash e s p h else Inr (setStateValid s p d)) = Inr s1"
  shows "isValidPathTxn s1 q \<longleftrightarrow> (b \<and> q = p) \<or> isValidPathTxn s q"
proof (cases b)
  case True
  then show ?thesis using assms setHash_valid [of e s p h s1 q] by simp
next
  case False
  then show ?thesis using assms setStateValid_valid [of s p d q] by auto
qed

lemma step3_valid:
  assumes "(if b then setDeriver e s2 p d else Inr s2) = Inr s'"
  shows "isValidPathTxn s' q \<longleftrightarrow> isValidPathTxn s2 q"
proof (cases b)
  case True
  then have "setDeriver e s2 p d = Inr s'" using assms by simp
  then show ?thesis by (intro isValidPathTxn_same setDeriver_valid)
next
  case False
  then show ?thesis using assms by simp
qed

lemma registerOne_valid:
  assumes "registerOne e N i s = Inr s'"
  shows "(isValidPathTxn s q \<longrightarrow> isValidPathTxn s' q)
       \<and> (isValidPathTxn s' q \<longrightarrow> isValidPathTxn s q \<or> q = path i)"
proof -
  from assms obtain s1 s2 where
    s1: "(if isStorePath e (path i) then setHash e s (path i) (hash i)
      else Inr (setStateValid s (path i) (infoDeriver i))) = Inr s1"
    and s2: "setReferences e s1 (path i) (references i) (stateReferences i) (revision i) = Inr s2"
    and s': "(if isStorePath e (path i) then setDeriver e s2 (path i) (infoDeriver i) else Inr s2) = Inr s'"
    by (rule registerOne_InrE)
  have b: "isValidPathTxn s2 q \<longleftrightarrow> isValidPathTxn s1 q"
    using setReferences_valid [OF s2] by (rule isValidPathTxn_same)
  show ?thesis using step1_valid [OF s1, of q] b step3_valid [OF s', of q] by blast
qed

lemma registerOne_bad:
  assumes "j \<in> references i" "\<not> isValidPathTxn s j" "j \<notin> N" "path i \<in> N"
  shows "\<exists>err. registerOne e N i s = Inl err"
proof (cases "registerOne e N i s")
  case (Inl err) then show ?thesis by blast
next
  case (Inr s')
  then obtain s1 s2 where
    s1: "(if isStorePath e (path i) then setHash e s (path i) (hash i)
      else Inr (setStateValid s (path i) (infoDeriver i))) = Inr s1"
    and s2: "setReferences e s1 (path i) (references i) (stateReferences i) (revision i) = Inr s2"
    and chk: "\<not> (\<exists>j\<in>references i. \<not> isValidPathTxn s2 j \<and> j \<notin> N)"
    by (rule registerOne_InrE)
  have "isValidPathTxn s2 j \<longleftrightarrow> isValidPathTxn s1 j"
    using setReferences_valid [OF s2] by (rule isValidPathTxn_same)
  then have "\<not> isValidPathTxn s2 j" using step1_valid [OF s1, of j] assms by auto
  with chk assms show ?thesis by blast
qed

lemma registerOne_good:
  assumes "\<forall>j\<in>references i. isValidPathTxn s j \<or> j \<in> N"
  shows "registerOne e N i s \<noteq> Inl InvalidReference"
proof
  let ?k = "\<lambda>s2. if \<exists>j\<in>references i. \<not> isValidPathTxn s2 j \<and> j \<notin> N then Inl InvalidReference
          else if isStorePath e (path i) then setDeriver e s2 (path i) (infoDeriver i)
          else Inr s2"
  let ?m1 = "if isStorePath e (path i) then setHash e s (path i) (hash i)
               else Inr (setStateValid s (path i) (infoDeriver i))"
  assume err: "registerOne e N i s = Inl InvalidReference"
  then have shape: "\<not> (\<not> isStorePath e (path i) \<and> \<not> isStatePath e (path i))"
    unfolding registerOne_unfold by (cases "\<not> isStorePath e (path i) \<and> \<not> isStatePath e (path i)") simp_all
  then have eq: "registerOne e N i s = bindE ?m1 (\<lambda>s1.
        bindE (setReferences e s1 (path i) (references i) (stateReferences i) (revision i)) ?k)"
    by (simp only: registerOne_unfold if_False)
  have "bindE ?m1 (\<lambda>s1.
        bindE (setReferences e s1 (path i) (references i) (stateReferences i) (revision i)) ?k) = Inl InvalidReference"
    using err unfolding eq by assumption
  then consider "?m1 = Inl InvalidReference"
    | s1 where "?m1 = Inr s1" "setReferences e s1 (path i) (references i) (stateReferences i) (revision i) = Inl InvalidReference"
    | s1 s2 where "?m1 = Inr s1" "setReferences e s1 (path i) (references i) (stateReferences i) (revision i) = Inr s2"
        "?k s2 = Inl InvalidReference"
    unfolding bindE_Inl_iff by blast
  then show False
  proof cases
    case 1
    then show False by (cases "isStorePath e (path i)") (auto dest: setHash_error)
  next
    case 2
    then show False by (auto dest: setReferences_error)
  next
    case 3
    have "isValidPathTxn s2 j \<longleftrightarrow> isValidPathTxn s1 j" for j
      using setReferences_valid [OF 3(2)] by (rule isValidPathTxn_same)
    then have ok: "\<not> (\<exists>j\<in>references i. \<not> isValidPathTxn s2 j \<and> j \<notin> N)"
      using step1_valid [OF 3(1)] assms by blast
    then have "?k s2 = (if isStorePath e (path i) then setDeriver e s2 (path i) (infoDeriver i) else Inr s2)"
      by (rule if_not_P)
    then have "(if isStorePath e (path i) then setDeriver e s2 (path i) (infoDeriver i) else Inr s2) = Inl InvalidReference"
      using 3(3) by (rule subst)
    then show False by (cases "isStorePath e (path i)") (auto dest: setDeriver_error)
  qed
qed

lemma registerLoop_bad:
  "\<exists>i\<in>set infos. \<exists>j\<in>references i. \<not> isValidPathTxn s j \<and> j \<notin> N \<Longrightarrow> path ` set infos \<subseteq> N
   \<Longrightarrow> \<exists>err. foldE (registerOne e N) infos s = Inl err"
proof (induction infos arbitrary: s)
  case Nil then show ?case by simp
next
  case (Cons i infos)
  show ?case
  proof (cases "registerOne e N i s")
    case (Inl err) then show ?thesis by simp
  next
    case (Inr s')
    have pi: "path i \<in> N" using Cons.prems(2) by simp
    have here: "\<not> (\<exists>j\<in>references i. \<not> isValidPathTxn s j \<and> j \<notin> N)"
      using registerOne_bad [of _ i s N e] pi Inr by auto
    with Cons.prems(1) obtain i' j where ij: "i' \<in> set infos" "j \<in> references i'" "\<not> isValidPathTxn s j" "j \<notin> N"
      by auto
    have "\<not> isValidPathTxn s' j"
      using registerOne_valid [OF Inr, of j] ij(3,4) pi by auto
    with ij have "\<exists>i\<in>set infos. \<exists>j\<in>references i. \<not> isValidPathTxn s' j \<and> j \<notin> N" by blast
    then have "\<exists>err. foldE (registerOne e N) infos s' = Inl err"
      using Cons.prems(2) by (intro Cons.IH) auto
    with Inr show ?thesis by simp
  qed
qed

lemma registerLoop_good:
  "\<forall>i\<in>set infos. \<forall>j\<in>references i. isValidPathTxn s j \<or> j \<in> N
   \<Longrightarrow> foldE (registerOne e N) infos s \<noteq> Inl InvalidReference"
proof (induction infos arbitrary: s)
  case Nil then show ?case by simp
next
  case (Cons i infos)
  show ?case
  proof (cases "registerOne e N i s")
    case (Inl err)
    then show ?thesis using registerOne_good [of i s N e] Cons.prems by auto
  next
    case (Inr s')
    have "\<forall>i\<in>set infos. \<forall>j\<in>references i. isValidPathTxn s' j \<or> j \<in> N"
      using Cons.prems registerOne_valid [OF Inr] by auto
    then have "foldE (registerOne e N) infos s' \<noteq> Inl InvalidReference" by (rule Cons.IH)
    with Inr show ?thesis by simp
  qed
qed

text \<open>
  Claim C2. For every batch of path infos, \<open>registerValidPaths\<close> ends in an error when a
  component reference of an info is neither valid in the store nor a path of the batch;
  and when every reference is valid or in the batch, the error of the closure check
  (\<open>InvalidReference\<close>) is not raised.
\<close>

theorem registerValidPaths_closure_check:
  "((\<exists>i\<in>set infos. \<exists>j\<in>references i. \<not> isValidPathTxn s j \<and> j \<notin> path ` set infos)
      \<longrightarrow> (\<exists>err. registerValidPaths e s infos = Inl err))
   \<and> ((\<forall>i\<in>set infos. \<forall>j\<in>references i. isValidPathTxn s j \<or> j \<in> path ` set infos)
      \<longrightarrow> registerValidPaths e s infos \<noteq> Inl InvalidReference)"
  unfolding registerValidPaths_def
  using registerLoop_bad [of infos s "set (map path infos)" e]
    registerLoop_good [of infos s "set (map path infos)" e]
  by auto

theorem registerValidPaths_closure_check_witness:
  "(\<exists>err. registerValidPaths exampleEnv emptyStore [infoP] = Inl err)
   \<and> registerValidPaths exampleEnv emptyStore [infoP, infoQ] \<noteq> Inl InvalidReference"
  using registerValidPaths_closure_check [of "[infoP]" emptyStore exampleEnv]
    registerValidPaths_closure_check [of "[infoP, infoQ]" emptyStore exampleEnv]
  by (simp add: infoP_def infoQ_def isValidPathTxn_def queryString_def emptyStore_def
      pathP_def pathQ_def)

lemma isStorePath_pathQ: "isStorePath exampleEnv pathQ"
  by (simp add: isStorePath_def isInStore_def exampleEnv_def pathQ_def)

lemma registerValidPaths_example_bad:
  "registerValidPaths exampleEnv emptyStore [infoP] = Inl InvalidReference"
  using isStorePath_pathP
  by (simp add: registerValidPaths_def registerOne_unfold infoP_def setHash_def Let_def
      setReferences_def isRealisableComponentOrStatePath_def isValidComponentOrStatePathTxn_def
      isRealisablePath_def isValidPathTxn_def queryString_def setString_def queryStrings_def
      setStrings_def emptyStore_def pathP_def pathQ_def)

section \<open>Derivers of components with state\<close>

lemma foldE_invariant_set:
  assumes "\<And>x a b. x \<in> set xs \<Longrightarrow> f x a = Inr b \<Longrightarrow> P a \<Longrightarrow> P b"
  shows "P a \<Longrightarrow> foldE f xs a = Inr b \<Longrightarrow> P b"
  using assms by (induction xs arbitrary: a) (auto simp: bindE_Inr_iff)

lemma bindE_foldE_Nil [simp]: "bindE m (foldE f []) = m"
  by (cases m) simp_all

lemma foldE_single: "foldE f [x] a = f x a"
  by simp

lemma derivationFromPathTxn_Inr: "derivationFromPathTxn s p = Inr g \<longleftrightarrow> fs s p = Some (DrvFile g)"
  by (auto simp: derivationFromPathTxn_def split: option.splits fsobj.splits)

lemma queryDeriversStep_sound:
  assumes "queryDeriversStep s ident user x acc = Inr acc'" "ident \<noteq> ''*''" "user \<noteq> ''*''"
    and "finite acc \<and> (\<forall>y\<in>acc. declares s ident user y)"
  shows "finite acc' \<and> (\<forall>y\<in>acc'. declares s ident user y)"
  using assms
  by (auto simp: queryDeriversStep_def bindE_Inr_iff declares_def derivationFromPathTxn_Inr split: if_splits)

lemma queryDerivers_sound:
  assumes "queryDerivers e s p ident user = Inr cur" "ident \<noteq> ''*''" "user \<noteq> ''*''"
  shows "finite cur \<and> (\<forall>y\<in>cur. declares s ident user y)"
proof -
  from assms(1) obtain alldata where f: "foldE (queryDeriversStep s ident user) alldata {} = Inr cur"
    by (auto simp: queryDerivers_def bindE_Inr_iff split: if_splits)
  show ?thesis
  proof (rule foldE_invariant [where f = "queryDeriversStep s ident user" and a = "{}" and xs = alldata
        and P = "\<lambda>acc. finite acc \<and> (\<forall>y\<in>acc. declares s ident user y)"])
    fix x a b
    assume "queryDeriversStep s ident user x a = Inr b" "finite a \<and> (\<forall>y\<in>a. declares s ident user y)"
    then show "finite b \<and> (\<forall>y\<in>b. declares s ident user y)"
      by (rule queryDeriversStep_sound [OF _ assms(2,3)])
  next
    show "finite ({} :: string set) \<and> (\<forall>y\<in>{}. declares s ident user y)" by simp
  next
    show "foldE (queryDeriversStep s ident user) alldata {} = Inr cur" by (rule f)
  qed
qed

lemma mergeStep_matching:
  assumes "mergeStep nd True ident user x acc = Inr acc'" "mergeInv s0 nd acc"
    and "declares s0 ident user x"
  shows "mergeInv s0 nd acc' \<and> (x \<noteq> nd \<longrightarrow> fs (fst acc') x = None)
       \<and> (\<forall>y. fs (fst acc) y = None \<longrightarrow> fs (fst acc') y = None)"
proof -
  from assms(2) obtain f where acc: "acc = (s0\<lparr>fs := f\<rparr>, {})" and le: "f \<subseteq>\<^sub>m fs s0"
    and nd: "f nd = fs s0 nd"
    by (auto simp: mergeInv_def)
  from assms(1) obtain g gso where g0: "fs (s0\<lparr>fs := f\<rparr>) x = Some (DrvFile g)" and gso: "stateOutputOf g = Inr gso"
    and rest: "(if ident = stateIdentifier gso \<and> username gso = user then
             (if x \<noteq> nd \<and> True
              then bindE (deletePath (s0\<lparr>fs := f\<rparr>) x) (\<lambda>s''. Inr (s'', {}))
              else Inr (s0\<lparr>fs := f\<rparr>, {}))
           else Inr (s0\<lparr>fs := f\<rparr>, insert x {})) = Inr acc'"
    unfolding mergeStep_def Let_def bindE_Inr_iff derivationFromPathTxn_Inr acc fst_conv snd_conv
    by blast
  from g0 have g: "f x = Some (DrvFile g)" by simp
  from g le have "fs s0 x = Some (DrvFile g)"
    by (auto simp: map_le_def dom_def)
  with assms(3) gso have m: "ident = stateIdentifier gso \<and> username gso = user"
    by (auto simp: declares_def)
  show ?thesis
  proof (cases "x = nd")
    case True
    with rest m have "acc' = acc" by (simp add: acc)
    with assms(2) True show ?thesis by simp
  next
    case False
    with rest m g have acc': "acc' = (s0\<lparr>fs := f(x := None)\<rparr>, {})"
      by (simp add: deletePath_def)
    have "f(x := None) \<subseteq>\<^sub>m fs s0"
      using le by (auto simp: map_le_def)
    then show ?thesis using nd False by (auto simp: acc acc' mergeInv_def)
  qed
qed

lemma merge_fold_matching:
  "foldE (mergeStep nd True ident user) xs acc = Inr acc' \<Longrightarrow> mergeInv s0 nd acc
   \<Longrightarrow> \<forall>x\<in>set xs. declares s0 ident user x
   \<Longrightarrow> mergeInv s0 nd acc' \<and> (\<forall>x\<in>set xs. x \<noteq> nd \<longrightarrow> fs (fst acc') x = None)
       \<and> (\<forall>y. fs (fst acc) y = None \<longrightarrow> fs (fst acc') y = None)"
proof (induction xs arbitrary: acc)
  case Nil
  then show ?case by simp
next
  case (Cons x xs)
  from Cons.prems(1) obtain acc1 where s1: "mergeStep nd True ident user x acc = Inr acc1"
    and rest: "foldE (mergeStep nd True ident user) xs acc1 = Inr acc'"
    by (auto simp: bindE_Inr_iff)
  have dx: "declares s0 ident user x" using Cons.prems(3) by simp
  note a = mergeStep_matching [OF s1 Cons.prems(2) dx]
  have b: "mergeInv s0 nd acc' \<and> (\<forall>x\<in>set xs. x \<noteq> nd \<longrightarrow> fs (fst acc') x = None)
       \<and> (\<forall>y. fs (fst acc1) y = None \<longrightarrow> fs (fst acc') y = None)"
    using Cons.prems(3) a by (intro Cons.IH [OF rest]) auto
  show ?case using a b by auto
qed


lemma isRealisablePath_cong:
  "dbValidPaths s' = dbValidPaths s \<Longrightarrow> dbSubstitutes s' = dbSubstitutes s
   \<Longrightarrow> isRealisablePath e s' p = isRealisablePath e s p"
  by (simp add: isRealisablePath_def isValidPathTxn_def readSubstitutes_def)

lemma addStateDeriver_effect:
  assumes ok: "addStateDeriver e s0 P D = Inr s1" and ne: "D \<noteq> []"
    and d: "fs s0 D = Some (DrvFile d)" and so: "stateOutputOf d = Inr so"
    and wild: "stateIdentifier so \<noteq> ''*''" "username so \<noteq> ''*''"
  shows "\<exists>f cur. s1 = s0\<lparr>fs := f, dbDerivers := setString (dbDerivers s0) P (Multi [D]),
                          dbStateInfo := setString (dbStateInfo s0) P []\<rparr>
     \<and> f \<subseteq>\<^sub>m fs s0 \<and> f D = fs s0 D
     \<and> queryDerivers e s0 P (stateIdentifier so) (username so) = Inr cur
     \<and> (\<forall>x\<in>cur. x \<noteq> D \<longrightarrow> f x = None)
     \<and> isRealisablePath e s0 P = Inr True"
proof -
  have dd: "derivationFromPathTxn s0 D = Inr d" using d by (simp add: derivationFromPathTxn_Inr)
  from ok ne dd so obtain cur merged where
    real: "isRealisablePath e s0 P = Inr True"
    and cur: "queryDerivers e s0 P (stateIdentifier so) (username so) = Inr cur"
    and merged: "mergeNewDerivationIntoListTxn e s0 P D cur True = Inr merged"
    and s1: "s1 = (fst merged)\<lparr>dbDerivers := setString (dbDerivers (fst merged)) P
                       (Multi (sorted_list_of_set (snd merged))),
                    dbStateInfo := setString (dbStateInfo (fst merged)) P []\<rparr>"
    by (auto simp: addStateDeriver_def bindE_Inr_iff Let_def split: if_splits)
  from merged dd so obtain acc where
    fold: "foldE (mergeStep D True (stateIdentifier so) (username so)) (sorted_list_of_set cur) (s0, {}) = Inr acc"
    and m: "merged = (fst acc, insert D (snd acc))"
    by (auto simp: mergeNewDerivationIntoListTxn_def bindE_Inr_iff)
  note snd = queryDerivers_sound [OF cur wild]
  have inv0: "mergeInv s0 D (s0, {})"
    unfolding mergeInv_def by (rule exI [of _ "fs s0"]) simp
  have all: "\<forall>x\<in>set (sorted_list_of_set cur). declares s0 (stateIdentifier so) (username so) x"
    using snd by simp
  note r = merge_fold_matching [OF fold inv0 all]
  then obtain f where acc: "acc = (s0\<lparr>fs := f\<rparr>, {})" and le: "f \<subseteq>\<^sub>m fs s0" and fd: "f D = fs s0 D"
    by (auto simp: mergeInv_def)
  have del: "\<forall>x\<in>cur. x \<noteq> D \<longrightarrow> f x = None"
    using r snd by (simp add: acc)
  have "s1 = s0\<lparr>fs := f, dbDerivers := setString (dbDerivers s0) P (Multi [D]),
                          dbStateInfo := setString (dbStateInfo s0) P []\<rparr>"
    by (simp add: s1 m acc)
  with le fd cur del real show ?thesis by blast
qed

text \<open>
  Two calls of \<^verbatim>\<open>addStateDeriver\<close> that return: the second, for a different derivation with
  the same identifier and user, leaves its derivation as the only deriver and deletes the
  file of the first.
\<close>

lemma addStateDeriver_twice:
  assumes a1: "addStateDeriver e s0 P D = Inr s1" and a2: "addStateDeriver e s1 P D' = Inr s2"
    and ne: "D \<noteq> []" "D' \<noteq> []" and diff: "D \<noteq> D'"
    and d: "derivationFromPathTxn s0 D = Inr d" and so: "stateOutputOf d = Inr so"
    and d': "derivationFromPathTxn s0 D' = Inr d'" and so': "stateOutputOf d' = Inr so'"
    and same: "stateIdentifier so' = stateIdentifier so" "username so' = username so"
    and wild: "stateIdentifier so \<noteq> ''*''" "username so \<noteq> ''*''"
    and one: "map_size (outputs d') = 1"
  shows "queryDerivers e s2 P (stateIdentifier so) (username so) = Inr {D'} \<and> \<not> pathExists s2 D"
proof -
  let ?i = "stateIdentifier so" and ?u = "username so"
  have fd: "fs s0 D = Some (DrvFile d)" and fd': "fs s0 D' = Some (DrvFile d')"
    using d d' by (simp_all add: derivationFromPathTxn_Inr)
  from addStateDeriver_effect [OF a1 ne(1) fd so wild] obtain f1 cur1 where
    s1: "s1 = s0\<lparr>fs := f1, dbDerivers := setString (dbDerivers s0) P (Multi [D]),
                          dbStateInfo := setString (dbStateInfo s0) P []\<rparr>"
    and le1: "f1 \<subseteq>\<^sub>m fs s0" and f1D: "f1 D = fs s0 D"
    and cur1: "queryDerivers e s0 P ?i ?u = Inr cur1"
    and real: "isRealisablePath e s0 P = Inr True"
    by blast
  have user: "?u \<noteq> []"
    using cur1 real by (auto simp: queryDerivers_def split: if_splits)
  \<comment> \<open>the second call reads \<open>D'\<close> from what the first call left on disk\<close>
  from a2 ne(2) obtain d2 where "derivationFromPathTxn s1 D' = Inr d2"
    by (auto simp: addStateDeriver_def bindE_Inr_iff split: if_splits)
  then have "f1 D' = Some (DrvFile d2)" by (simp add: derivationFromPathTxn_Inr s1)
  with le1 fd' have f1D': "f1 D' = Some (DrvFile d')"
    by (auto simp: map_le_def dom_def)
  then have fs1D': "fs s1 D' = Some (DrvFile d')" by (simp add: s1)
  have wild': "stateIdentifier so' \<noteq> ''*''" "username so' \<noteq> ''*''"
    using wild same by simp_all
  from addStateDeriver_effect [OF a2 ne(2) fs1D' so' wild'] obtain f2 cur2 where
    s2: "s2 = s1\<lparr>fs := f2, dbDerivers := setString (dbDerivers s1) P (Multi [D']),
                          dbStateInfo := setString (dbStateInfo s1) P []\<rparr>"
    and f2D': "f2 D' = fs s1 D'"
    and cur2: "queryDerivers e s1 P ?i ?u = Inr cur2"
    and del2: "\<forall>x\<in>cur2. x \<noteq> D' \<longrightarrow> f2 x = None"
    unfolding same by blast
  \<comment> \<open>the row after the first call is \<open>[D]\<close>, so the second call finds \<open>D\<close>\<close>
  have row1: "queryDeriverStrings e s1 P = Inr [D]"
    by (simp add: queryDeriverStrings_def s1 setString_def update_conv')
  have "isRealisablePath e s1 P = isRealisablePath e s0 P"
    by (rule isRealisablePath_cong) (simp_all add: s1)
  with real have real1: "isRealisablePath e s1 P = Inr True" by simp
  have drv1: "derivationFromPathTxn s1 D = Inr d"
    using f1D fd by (simp add: derivationFromPathTxn_Inr s1)
  have "queryDeriversStep s1 ?i ?u D {} = Inr cur2"
    using cur2 real1 user row1 by (simp add: queryDerivers_def)
  then have "cur2 = {D}"
    using drv1 so by (auto simp: queryDeriversStep_def split: if_splits)
  with del2 diff have gone: "f2 D = None" by simp
  \<comment> \<open>the row after the second call is \<open>[D']\<close>\<close>
  have row2: "queryDeriverStrings e s2 P = Inr [D']"
    by (simp add: queryDeriverStrings_def s2 setString_def update_conv')
  have "isRealisablePath e s2 P = isRealisablePath e s1 P"
    by (rule isRealisablePath_cong) (simp_all add: s2)
  with real1 have real2: "isRealisablePath e s2 P = Inr True" by simp
  have drv2: "derivationFromPathTxn s2 D' = Inr d'"
    using f2D' fs1D' by (simp add: derivationFromPathTxn_Inr s2)
  have "queryDerivers e s2 P ?i ?u = Inr {D'}"
    using real2 user row2 drv2 so' same one
    by (simp add: queryDerivers_def queryDeriversStep_def)
  moreover have "\<not> pathExists s2 D"
    using gone by (simp add: pathExists_def s2)
  ultimately show ?thesis by blast
qed

lemma isStorePath_drvs: "isStorePath exampleEnv drvD" "isStorePath exampleEnv drvD'"
  by (simp_all add: isStorePath_def isInStore_def exampleEnv_def drvD_def drvD'_def)

lemma drvStore_valid: "isValidPathTxn drvStore pathP" "isValidPathTxn drvStore1 pathP"
  by (simp_all add: isValidPathTxn_def queryString_def drvStore_def drvStore1_def emptyStore_def)

lemma paths_distinct: "pathP \<noteq> drvD" "pathP \<noteq> drvD'" "drvD \<noteq> drvD'"
  by (simp_all add: pathP_def drvD_def drvD'_def)

lemma stateOutputOf_stateDrv:
  "stateOutputOf (stateDrv h) = Inr \<lparr>statepath = ''/nix/state/xyz-foo-id'', componentHash = h,
                                   stateIdentifier = ''id'', username = ''alice''\<rparr>"
  by (simp add: stateOutputOf_def stateDrv_def)

lemma map_size_stateDrv: "map_size (outputs (stateDrv h)) = 1"
  by (simp add: map_size_def stateDrv_def)

lemma drvStore_read:
  "derivationFromPathTxn drvStore drvD = Inr (stateDrv ''h1'')"
  "derivationFromPathTxn drvStore drvD' = Inr (stateDrv ''h2'')"
  "derivationFromPathTxn drvStore1 drvD = Inr (stateDrv ''h1'')"
  "derivationFromPathTxn drvStore1 drvD' = Inr (stateDrv ''h2'')"
  using paths_distinct
  by (simp_all add: derivationFromPathTxn_def drvStore_def drvStore1_def emptyStore_def)

lemma addStateDeriver_first: "addStateDeriver exampleEnv drvStore pathP drvD = Inr drvStore1"
  using isStorePath_pathP isStorePath_drvs drvStore_valid drvStore_read paths_distinct
  apply (simp add: addStateDeriver_def assertStorePath_def isRealisablePath_def
      stateOutputOf_stateDrv queryDerivers_def queryDeriverStrings_def
      mergeNewDerivationIntoListTxn_def Let_def)
  apply (simp add: drvStore_def drvStore1_def emptyStore_def setString_def drvD_def)
  done

lemma addStateDeriver_second: "addStateDeriver exampleEnv drvStore1 pathP drvD' = Inr drvStore2"
  using isStorePath_pathP isStorePath_drvs drvStore_valid drvStore_read paths_distinct
  apply (simp add: addStateDeriver_def assertStorePath_def isRealisablePath_def
      stateOutputOf_stateDrv queryDerivers_def queryDeriverStrings_def queryDeriversStep_def
      map_size_stateDrv mergeNewDerivationIntoListTxn_def mergeStep_def Let_def)
  apply (simp add: drvStore_def drvStore1_def drvStore2_def emptyStore_def setString_def
       deletePath_def drvD_def drvD'_def pathP_def  map_size_stateDrv stateOutputOf_stateDrv queryDeriversStep_def derivationFromPathTxn_def mergeStep_def fun_eq_iff)
  done

text \<open>
  When the derivers recorded for \<open>P\<close> are files that \<^verbatim>\<open>queryDerivers\<close> can read,
  \<^verbatim>\<open>addStateDeriver\<close> returns: the loops of \<^verbatim>\<open>queryDerivers\<close> and of the merge do not fail.
\<close>

lemma stateDeriverFile_iff:
  "stateDeriverFile s x \<longleftrightarrow>
     (\<exists>g gso. fs s x = Some (DrvFile g) \<and> map_size (outputs g) = 1 \<and> stateOutputOf g = Inr gso)"
  by (cases "derivationFromPathTxn s x"; cases "fs s x")
     (auto simp: stateDeriverFile_def derivationFromPathTxn_def split: sum.splits fsobj.splits)

lemma queryDeriversStep_returns:
  assumes "stateDeriverFile s x"
  shows "\<exists>acc'. queryDeriversStep s ident user x acc = Inr acc' \<and> acc' \<subseteq> insert x acc"
proof -
  from assms obtain g gso where "derivationFromPathTxn s x = Inr g" "map_size (outputs g) = 1"
    "stateOutputOf g = Inr gso"
    by (auto simp: stateDeriverFile_iff derivationFromPathTxn_Inr)
  then show ?thesis by (auto simp: queryDeriversStep_def)
qed

lemma queryDerivers_fold_returns:
  "\<forall>x\<in>set xs. stateDeriverFile s x \<Longrightarrow>
   \<exists>cur. foldE (queryDeriversStep s ident user) xs acc = Inr cur \<and> cur \<subseteq> acc \<union> set xs"
proof (induction xs arbitrary: acc)
  case Nil
  then show ?case by simp
next
  case (Cons x xs)
  from Cons.prems have "stateDeriverFile s x" by simp
  from queryDeriversStep_returns [OF this, of ident user acc] obtain acc' where
    st: "queryDeriversStep s ident user x acc = Inr acc'" and sub: "acc' \<subseteq> insert x acc"
    by blast
  from Cons.prems have "\<forall>x\<in>set xs. stateDeriverFile s x" by simp
  from Cons.IH [OF this, of acc'] obtain cur where
    "foldE (queryDeriversStep s ident user) xs acc' = Inr cur" "cur \<subseteq> acc' \<union> set xs"
    by blast
  with st sub show ?case by auto
qed

lemma queryDerivers_returns:
  assumes "isRealisablePath e s P = Inr True" "user \<noteq> []"
    and "queryDeriverStrings e s P = Inr row" "\<forall>x\<in>set row. stateDeriverFile s x"
  shows "\<exists>cur. queryDerivers e s P ident user = Inr cur \<and> cur \<subseteq> set row"
  using assms queryDerivers_fold_returns [of row s ident user "{}"]
  by (simp add: queryDerivers_def)

lemma merge_fold_returns:
  "distinct xs \<Longrightarrow> \<forall>x\<in>set xs. declares s0 ident user x \<and> f x = fs s0 x \<Longrightarrow>
   foldE (mergeStep nd True ident user) xs (s0\<lparr>fs := f\<rparr>, {})
     = Inr (s0\<lparr>fs := (\<lambda>y. if y \<in> set xs \<and> y \<noteq> nd then None else f y)\<rparr>, {})"
proof (induction xs arbitrary: f)
  case Nil
  then show ?case by simp
next
  case (Cons x xs)
  from Cons.prems obtain g gso where g: "f x = Some (DrvFile g)" and gso: "stateOutputOf g = Inr gso"
    and m: "stateIdentifier gso = ident" "username gso = user"
    by (auto simp: declares_def)
  let ?f1 = "if x \<noteq> nd then f(x := None) else f"
  have st: "mergeStep nd True ident user x (s0\<lparr>fs := f\<rparr>, {}) = Inr (s0\<lparr>fs := ?f1\<rparr>, {})"
    using g gso m by (simp add: mergeStep_def derivationFromPathTxn_def deletePath_def)
  have pre: "distinct xs" "\<forall>y\<in>set xs. declares s0 ident user y \<and> ?f1 y = fs s0 y"
    using Cons.prems by auto
  have eq: "(\<lambda>y. if y \<in> set xs \<and> y \<noteq> nd then None else ?f1 y)
      = (\<lambda>y. if y \<in> set (x # xs) \<and> y \<noteq> nd then None else f y)"
    by (auto simp: fun_eq_iff)
  have "foldE (mergeStep nd True ident user) (x # xs) (s0\<lparr>fs := f\<rparr>, {})
      = foldE (mergeStep nd True ident user) xs (s0\<lparr>fs := ?f1\<rparr>, {})"
    using st by simp
  also have "\<dots> = Inr (s0\<lparr>fs := (\<lambda>y. if y \<in> set xs \<and> y \<noteq> nd then None else ?f1 y)\<rparr>, {})"
    using pre by (rule Cons.IH)
  finally show ?case unfolding eq .
qed

lemma isStorePath_nonempty: "isStorePath e p \<Longrightarrow> p \<noteq> []"
  by (auto simp: isStorePath_def isInStore_def)

lemma addStateDeriver_returns:
  assumes sp: "isStorePath e P" "isStorePath e D"
    and real: "isRealisablePath e s0 P = Inr True"
    and d: "fs s0 D = Some (DrvFile d)" and so: "stateOutputOf d = Inr so"
    and wild: "stateIdentifier so \<noteq> ''*''" "username so \<noteq> ''*''"
    and user: "username so \<noteq> []"
    and row: "queryDeriverStrings e s0 P = Inr row" "\<forall>x\<in>set row. stateDeriverFile s0 x"
  shows "\<exists>f. addStateDeriver e s0 P D
       = Inr (s0\<lparr>fs := f, dbDerivers := setString (dbDerivers s0) P (Multi [D]),
                 dbStateInfo := setString (dbStateInfo s0) P []\<rparr>)
     \<and> f D = fs s0 D \<and> (\<forall>y. y \<notin> set row \<longrightarrow> f y = fs s0 y)"
proof -
  let ?i = "stateIdentifier so" and ?u = "username so"
  have ne: "D \<noteq> []" using sp(2) by (rule isStorePath_nonempty)
  have dd: "derivationFromPathTxn s0 D = Inr d" using d by (simp add: derivationFromPathTxn_Inr)
  from queryDerivers_returns [OF real user row, of ?i] obtain cur where
    cur: "queryDerivers e s0 P ?i ?u = Inr cur" and sub: "cur \<subseteq> set row"
    by blast
  note snd = queryDerivers_sound [OF cur wild]
  have "distinct (sorted_list_of_set cur)"
    "\<forall>x\<in>set (sorted_list_of_set cur). declares s0 ?i ?u x \<and> fs s0 x = fs s0 x"
    using snd by simp_all
  note fold = merge_fold_returns [OF this, of D]
  define f where "f = (\<lambda>y. if y \<in> set (sorted_list_of_set cur) \<and> y \<noteq> D then None else fs s0 y)"
  have out: "\<forall>y. y \<notin> set (sorted_list_of_set cur) \<longrightarrow> f y = fs s0 y"
    and nd: "f D = fs s0 D"
    by (simp_all add: f_def)
  have merged: "mergeNewDerivationIntoListTxn e s0 P D cur True = Inr (s0\<lparr>fs := f\<rparr>, {D})"
    using fold dd so by (simp add: mergeNewDerivationIntoListTxn_def f_def)
  have "addStateDeriver e s0 P D
       = Inr (s0\<lparr>fs := f, dbDerivers := setString (dbDerivers s0) P (Multi [D]),
                 dbStateInfo := setString (dbStateInfo s0) P []\<rparr>)"
    using sp ne real dd so cur merged
    by (simp add: addStateDeriver_def assertStorePath_def Let_def)
  moreover have "\<forall>y. y \<notin> set row \<longrightarrow> f y = fs s0 y"
    using out sub snd by auto
  ultimately show ?thesis using nd by (intro exI [of _ f]) simp
qed


text \<open>
  Claim C5, as amended. Let \<open>P\<close> be a realisable store path and \<open>D\<close>, \<open>D'\<close> two different
  store paths of readable derivations, each with exactly one output and a state output,
  that declare the same state identifier and user, neither being the wildcard \<open>*\<close> and the
  user not empty. Let every deriver recorded for \<open>P\<close> be a readable derivation with exactly
  one output and a state output, and let \<open>D'\<close> not be among them. Then \<open>addStateDeriver P D\<close>
  and then \<open>addStateDeriver P D'\<close> return; afterwards \<open>queryDerivers\<close> for that pair returns
  exactly \<open>{D'}\<close>, and the file of \<open>D\<close> is no longer on disk.
\<close>

theorem addStateDeriver_merge_law:
  assumes sp: "isStorePath e P" "isStorePath e D" "isStorePath e D'"
    and real: "isRealisablePath e s0 P = Inr True"
    and d: "derivationFromPathTxn s0 D = Inr d" and so: "stateOutputOf d = Inr so"
    and d': "derivationFromPathTxn s0 D' = Inr d'" and so': "stateOutputOf d' = Inr so'"
    and one: "map_size (outputs d) = 1" "map_size (outputs d') = 1"
    and same: "stateIdentifier so' = stateIdentifier so" "username so' = username so"
    and wild: "stateIdentifier so \<noteq> ''*''" "username so \<noteq> ''*''"
    and user: "username so \<noteq> []"
    and diff: "D \<noteq> D'"
    and row: "queryDeriverStrings e s0 P = Inr row"
    and recorded: "\<forall>x\<in>set row. x \<noteq> D' \<and> stateDeriverFile s0 x"
  shows "\<exists>s1 s2. addStateDeriver e s0 P D = Inr s1 \<and> addStateDeriver e s1 P D' = Inr s2
     \<and> queryDerivers e s2 P (stateIdentifier so) (username so) = Inr {D'}
     \<and> \<not> pathExists s2 D"
proof -
  have fd: "fs s0 D = Some (DrvFile d)" and fd': "fs s0 D' = Some (DrvFile d')"
    using d d' by (simp_all add: derivationFromPathTxn_Inr)
  have all: "\<forall>x\<in>set row. stateDeriverFile s0 x" using recorded by simp
  from addStateDeriver_returns [OF sp(1,2) real fd so wild user row all] obtain f1 where
    a1: "addStateDeriver e s0 P D
       = Inr (s0\<lparr>fs := f1, dbDerivers := setString (dbDerivers s0) P (Multi [D]),
                 dbStateInfo := setString (dbStateInfo s0) P []\<rparr>)"
    and f1D: "f1 D = fs s0 D" and out1: "\<forall>y. y \<notin> set row \<longrightarrow> f1 y = fs s0 y"
    by blast
  define s1 where "s1 = s0\<lparr>fs := f1, dbDerivers := setString (dbDerivers s0) P (Multi [D]),
                 dbStateInfo := setString (dbStateInfo s0) P []\<rparr>"
  have "isRealisablePath e s1 P = isRealisablePath e s0 P"
    by (rule isRealisablePath_cong) (simp_all add: s1_def)
  with real have real1: "isRealisablePath e s1 P = Inr True" by simp
  have "D' \<notin> set row" using recorded by blast
  with out1 fd' have fd1': "fs s1 D' = Some (DrvFile d')" by (simp add: s1_def)
  have row1: "queryDeriverStrings e s1 P = Inr [D]"
    by (simp add: queryDeriverStrings_def s1_def setString_def update_conv')
  have all1: "\<forall>x\<in>set [D]. stateDeriverFile s1 x"
    using f1D fd one(1) so by (simp add: stateDeriverFile_iff s1_def)
  have wild': "stateIdentifier so' \<noteq> ''*''" "username so' \<noteq> ''*''" and user': "username so' \<noteq> []"
    using wild user same by simp_all
  from addStateDeriver_returns [OF sp(1,3) real1 fd1' so' wild' user' row1 all1] obtain s2 where
    a2: "addStateDeriver e s1 P D' = Inr s2"
    by blast
  have ne: "D \<noteq> []" "D' \<noteq> []" using sp(2,3) by (simp_all add: isStorePath_nonempty)
  from addStateDeriver_twice [OF a1 [folded s1_def] a2 ne diff d so d' so' same wild one(2)]
  show ?thesis using a1 [folded s1_def] a2 by blast
qed

lemma paths_distinct_E: "drvE \<noteq> pathP" "drvE \<noteq> drvD" "drvE \<noteq> drvD'"
  by (simp_all add: pathP_def drvD_def drvD'_def drvE_def)

lemma drvStore0_facts:
  "isRealisablePath exampleEnv drvStore0 pathP = Inr True"
  "derivationFromPathTxn drvStore0 drvD = Inr (stateDrv ''h1'')"
  "derivationFromPathTxn drvStore0 drvD' = Inr (stateDrv ''h2'')"
  "derivationFromPathTxn drvStore0 drvE = Inr (stateDrv ''h0'')"
  "queryDeriverStrings exampleEnv drvStore0 pathP = Inr [drvE]"
  using paths_distinct paths_distinct_E
  by (simp_all add: isRealisablePath_def isValidPathTxn_def queryString_def derivationFromPathTxn_def
      queryDeriverStrings_def drvStore0_def drvStore_def emptyStore_def)

theorem addStateDeriver_merge_law_witness:
  "\<exists>s1 s2. addStateDeriver exampleEnv drvStore0 pathP drvD = Inr s1
     \<and> addStateDeriver exampleEnv s1 pathP drvD' = Inr s2
     \<and> queryDerivers exampleEnv s2 pathP ''id'' ''alice'' = Inr {drvD'}
     \<and> \<not> pathExists s2 drvD"
proof -
  have recorded: "\<forall>x\<in>set [drvE]. x \<noteq> drvD' \<and> stateDeriverFile drvStore0 x"
    using paths_distinct_E
    by (simp add: stateDeriverFile_def drvStore0_facts map_size_stateDrv stateOutputOf_stateDrv)
  from addStateDeriver_merge_law [OF isStorePath_pathP isStorePath_drvs drvStore0_facts(1)
      drvStore0_facts(2) stateOutputOf_stateDrv drvStore0_facts(3) stateOutputOf_stateDrv
      map_size_stateDrv map_size_stateDrv _ _ _ _ _ paths_distinct(3) drvStore0_facts(5) recorded]
  show ?thesis by simp
qed

lemma drvs_nonempty: "drvD \<noteq> []" "drvD' \<noteq> []"
  by (simp_all add: drvD_def drvD'_def)

lemma recorded_first: "addStateDeriver exampleEnv recordedStore pathP drvD = Inr recordedStore1"
  using isStorePath_pathP isStorePath_drvs paths_distinct drvs_nonempty
  apply (simp add: addStateDeriver_def assertStorePath_def isRealisablePath_def
      isValidPathTxn_def queryString_def
      stateOutputOf_stateDrv queryDerivers_def queryDeriverStrings_def queryDeriversStep_def
      map_size_stateDrv mergeNewDerivationIntoListTxn_def mergeStep_def Let_def
      derivationFromPathTxn_def deletePath_def
      recordedStore_def recordedStore1_def drvStore_def emptyStore_def setString_def fun_eq_iff)
  done

lemma recorded_second: "addStateDeriver exampleEnv recordedStore1 pathP drvD' = Inl SysError"
  using isStorePath_pathP isStorePath_drvs paths_distinct drvs_nonempty
  apply (simp add: addStateDeriver_def assertStorePath_def isRealisablePath_def
      isValidPathTxn_def queryString_def derivationFromPathTxn_def
      recordedStore1_def drvStore_def emptyStore_def)
  done

lemma gone_first: "addStateDeriver exampleEnv goneStore pathP drvD = Inl SysError"
  using isStorePath_pathP isStorePath_drvs paths_distinct drvs_nonempty paths_distinct_E
  apply (simp add: addStateDeriver_def assertStorePath_def isRealisablePath_def
      isValidPathTxn_def queryString_def derivationFromPathTxn_def
      stateOutputOf_stateDrv queryDerivers_def queryDeriverStrings_def queryDeriversStep_def
      goneStore_def drvStore_def emptyStore_def)
  done


lemma two_first: "addStateDeriver exampleEnv twoStore pathP drvD = Inr twoStore1"
  using isStorePath_pathP isStorePath_drvs paths_distinct drvs_nonempty
  apply (simp add: addStateDeriver_def assertStorePath_def isRealisablePath_def
      isValidPathTxn_def queryString_def
      stateOutputOf_stateDrv queryDerivers_def queryDeriverStrings_def queryDeriversStep_def
      map_size_stateDrv mergeNewDerivationIntoListTxn_def mergeStep_def Let_def
      derivationFromPathTxn_def deletePath_def
      twoStore_def twoStore1_def drvStore_def emptyStore_def setString_def fun_eq_iff)
  done

lemma two_second: "addStateDeriver exampleEnv twoStore1 pathP drvD' = Inr twoStore2"
  using isStorePath_pathP isStorePath_drvs paths_distinct drvs_nonempty
  apply (simp add: addStateDeriver_def assertStorePath_def isRealisablePath_def
      isValidPathTxn_def queryString_def
      stateOutputOf_stateDrv queryDerivers_def queryDeriverStrings_def queryDeriversStep_def
      map_size_stateDrv mergeNewDerivationIntoListTxn_def mergeStep_def Let_def
      derivationFromPathTxn_def deletePath_def stateOutputOf_def twoDrv_def stateDrv_def map_size_def
      twoStore_def twoStore1_def twoStore2_def drvStore_def emptyStore_def setString_def fun_eq_iff)
  done

lemma two_query: "queryDerivers exampleEnv twoStore2 pathP ''id'' ''alice'' = Inl NotAStatePathQuery"
  using paths_distinct
  apply (simp add: isRealisablePath_def isValidPathTxn_def queryString_def
      queryDerivers_def queryDeriverStrings_def queryDeriversStep_def
      derivationFromPathTxn_def twoDrv_def stateDrv_def map_size_def
      twoStore_def twoStore1_def twoStore2_def drvStore_def emptyStore_def)
  done

lemma isStorePath_drvE: "isStorePath exampleEnv drvE"
  by (simp add: isStorePath_def isInStore_def exampleEnv_def drvE_def)

lemma sorted_pair: "(x :: 'a :: linorder) < y \<Longrightarrow> sorted_list_of_set {x, y} = [x, y]"
  by (auto simp: sorted_list_of_set_insert_remove insort_is_Cons)

lemma drvE_less: "drvE < drvD" "drvE < drvD'"
  by (simp_all add: drvE_def drvD_def drvD'_def less_char_def)


lemma stateOutputOf_starDrv:
  "stateOutputOf (starDrv h) = Inr \<lparr>statepath = ''/nix/state/xyz-foo-id'', componentHash = h,
                                   stateIdentifier = ''*'', username = ''alice''\<rparr>"
  by (simp add: stateOutputOf_def starDrv_def)

lemma map_size_starDrv: "map_size (outputs (starDrv h)) = 1"
  by (simp add: map_size_def starDrv_def)

lemma starStore_valid: "isValidPathTxn starStore pathP" "isValidPathTxn starStore1 pathP"
  "isValidPathTxn starStore2 pathP"
  by (simp_all add: isValidPathTxn_def queryString_def starStore_def starStore1_def starStore2_def
      emptyStore_def)

lemma starStore_read:
  "derivationFromPathTxn starStore drvD = Inr (starDrv ''h1'')"
  "derivationFromPathTxn starStore drvE = Inr (stateDrv ''h0'')"
  "derivationFromPathTxn starStore1 drvD = Inr (starDrv ''h1'')"
  "derivationFromPathTxn starStore1 drvD' = Inr (starDrv ''h2'')"
  "derivationFromPathTxn starStore1 drvE = Inr (stateDrv ''h0'')"
  "derivationFromPathTxn starStore2 drvD' = Inr (starDrv ''h2'')"
  "derivationFromPathTxn starStore2 drvE = Inr (stateDrv ''h0'')"
  using paths_distinct paths_distinct_E
  by (simp_all add: derivationFromPathTxn_def starStore_def starStore1_def starStore2_def emptyStore_def)

lemma star_query0: "queryDerivers exampleEnv starStore pathP ''*'' ''alice'' = Inr {drvE}"
  using starStore_valid starStore_read
  by (simp add: queryDerivers_def isRealisablePath_def queryDeriversStep_def
      stateOutputOf_stateDrv map_size_stateDrv)
     (simp add: queryDeriverStrings_def starStore_def emptyStore_def queryDeriversStep_def
       starStore_read [unfolded starStore_def emptyStore_def] stateOutputOf_stateDrv map_size_stateDrv)


lemma starStore_rows:
  "queryDeriverStrings exampleEnv starStore pathP = Inr [drvE]"
  "queryDeriverStrings exampleEnv starStore1 pathP = Inr [drvE, drvD]"
  "queryDeriverStrings exampleEnv starStore2 pathP = Inr [drvE, drvD']"
  by (simp_all add: queryDeriverStrings_def starStore_def starStore1_def starStore2_def emptyStore_def)

lemma star_query1: "queryDerivers exampleEnv starStore1 pathP ''*'' ''alice'' = Inr {drvD, drvE}"
  using starStore_valid
  by (auto simp add: queryDerivers_def isRealisablePath_def queryDeriversStep_def starStore_rows
      starStore_read stateOutputOf_stateDrv map_size_stateDrv stateOutputOf_starDrv map_size_starDrv)

lemma star_query2: "queryDerivers exampleEnv starStore2 pathP ''*'' ''alice'' = Inr {drvD', drvE}"
  using starStore_valid
  by (auto simp add: queryDerivers_def isRealisablePath_def queryDeriversStep_def starStore_rows
      starStore_read stateOutputOf_stateDrv map_size_stateDrv stateOutputOf_starDrv map_size_starDrv)

lemma star_sorted:
  "sorted_list_of_set {drvD, drvE} = [drvE, drvD]"
  "sorted_list_of_set {drvD', drvE} = [drvE, drvD']"
proof -
  have "{drvD, drvE} = {drvE, drvD}" "{drvD', drvE} = {drvE, drvD'}" by auto
  then show "sorted_list_of_set {drvD, drvE} = [drvE, drvD]"
    "sorted_list_of_set {drvD', drvE} = [drvE, drvD']"
    using drvE_less by (simp_all only: sorted_pair)
qed

lemma star_merge1:
  "mergeNewDerivationIntoListTxn exampleEnv starStore pathP drvD {drvE} True
     = Inr (starStore, {drvD, drvE})"
  by (simp add: mergeNewDerivationIntoListTxn_def mergeStep_def starStore_read
      stateOutputOf_stateDrv stateOutputOf_starDrv)

lemma star_first: "addStateDeriver exampleEnv starStore pathP drvD = Inr starStore1"
  using isStorePath_pathP isStorePath_drvs drvs_nonempty starStore_valid
  by (simp add: addStateDeriver_def assertStorePath_def isRealisablePath_def starStore_read
      stateOutputOf_starDrv star_query0 star_merge1 star_sorted)
     (simp add: starStore1_def starStore_def emptyStore_def setString_def)

lemma star_steps:
  "mergeStep drvD' True ''*'' ''alice'' drvE (starStore1, {}) = Inr (starStore1, {drvE})"
  "mergeStep drvD' True ''*'' ''alice'' drvD (starStore1, {drvE})
     = Inr (starStore1\<lparr>fs := (fs starStore1)(drvD := None)\<rparr>, {drvE})"
  using paths_distinct
  by (simp_all add: mergeStep_def starStore_read stateOutputOf_stateDrv stateOutputOf_starDrv
      deletePath_def derivationFromPathTxn_Inr [THEN iffD1, OF starStore_read(3)])

lemma star_merge2:
  "mergeNewDerivationIntoListTxn exampleEnv starStore1 pathP drvD' {drvD, drvE} True
     = Inr (starStore1\<lparr>fs := (fs starStore1)(drvD := None)\<rparr>, {drvD', drvE})"
  by (simp add: mergeNewDerivationIntoListTxn_def star_sorted star_steps starStore_read
      stateOutputOf_starDrv)

lemma star_second: "addStateDeriver exampleEnv starStore1 pathP drvD' = Inr starStore2"
  using isStorePath_pathP isStorePath_drvs drvs_nonempty starStore_valid
  by (simp add: addStateDeriver_def assertStorePath_def isRealisablePath_def starStore_read
      stateOutputOf_starDrv star_query1 star_merge2 star_sorted)
     (simp add: starStore2_def starStore1_def starStore_def emptyStore_def setString_def fun_eq_iff
       paths_distinct paths_distinct_E)

text \<open>
  Claim C5 as stated promises this for every realisable \<open>P\<close> and every two different state
  derivations with the same identifier and user. Four stores where it fails. In \<open>twoStore\<close>
  the derivation \<open>drvD'\<close> has two outputs: both calls return, and \<open>queryDerivers\<close> then
  fails. In \<open>recordedStore\<close> the derivation \<open>drvD'\<close> is already recorded: the first call
  deletes its file, and the second call fails reading it. In \<open>starStore\<close> the identifier is
  the wildcard: the deriver \<open>drvE\<close> recorded before stays, and \<open>queryDerivers\<close> returns it
  with \<open>drvD'\<close>. In \<open>goneStore\<close> the recorded deriver is not on disk: the first call fails.
\<close>

theorem addStateDeriver_merge_law_fails:
  "addStateDeriver exampleEnv twoStore pathP drvD = Inr twoStore1
   \<and> addStateDeriver exampleEnv twoStore1 pathP drvD' = Inr twoStore2
   \<and> queryDerivers exampleEnv twoStore2 pathP ''id'' ''alice'' = Inl NotAStatePathQuery
   \<and> addStateDeriver exampleEnv recordedStore pathP drvD = Inr recordedStore1
   \<and> addStateDeriver exampleEnv recordedStore1 pathP drvD' = Inl SysError
   \<and> addStateDeriver exampleEnv starStore pathP drvD = Inr starStore1
   \<and> addStateDeriver exampleEnv starStore1 pathP drvD' = Inr starStore2
   \<and> queryDerivers exampleEnv starStore2 pathP ''*'' ''alice'' = Inr {drvD', drvE}
   \<and> drvE \<noteq> drvD'
   \<and> addStateDeriver exampleEnv goneStore pathP drvD = Inl SysError"
  by (simp add: two_first two_second two_query recorded_first recorded_second
      star_first star_second star_query2 gone_first paths_distinct_E)

section \<open>References and referrers\<close>

lemma queryStrings_nonkey: "k \<notin> set (enumTable t) \<Longrightarrow> queryStrings t k = []"
  by (simp add: enumTable_def queryStrings_def map_of_eq_None_iff [THEN iffD2])

lemma scan_member:
  "P \<in> set (filter (\<lambda>i. Q \<in> set (queryStrings t i)) (enumTable t)) \<longleftrightarrow> Q \<in> set (queryStrings t P)"
  using queryStrings_nonkey [of P t] by (cases "P \<in> set (enumTable t)") auto

lemma queryXReferencesTxn_valid:
  "isValidPathTxn s P \<Longrightarrow>
   queryXReferencesTxn e s P c r ts =
     Inr (set (queryStrings (if c then dbComponentComponentReferences s
                             else dbComponentStateReferences s) P))"
  by (simp add: queryXReferencesTxn_def isRealisablePath_def)

lemma queryReferrersTxn_component:
  "isValidPathTxn s Q \<Longrightarrow>
   queryReferrersTxn e s Q r =
     Inr (set (filter (\<lambda>i. Q \<in> set (queryStrings (dbComponentComponentReferences s) i))
                 (enumTable (dbComponentComponentReferences s))))"
  by (simp add: queryReferrersTxn_def isRealisableComponentOrStatePath_def
      isValidComponentOrStatePathTxn_def getReferrersTxn_valid)

lemma queryReferrersTxn_state:
  "\<not> isValidPathTxn s Q \<Longrightarrow> isValidStatePathTxn s Q \<Longrightarrow> toNonSharedPathTxn s Q = Some Q' \<Longrightarrow>
   queryReferrersTxn e s Q r =
     Inr (set (filter (\<lambda>i. Q' \<in> set (queryStrings (dbComponentStateReferences s) i))
                 (enumTable (dbComponentStateReferences s))))"
  by (simp add: queryReferrersTxn_def isRealisableComponentOrStatePath_def
      isValidComponentOrStatePathTxn_def getReferrersTxn_def getXReferrers_def Let_def)

text \<open>
  The component-keyed tables. Let \<open>P\<close> be a valid component path. For a valid component
  path \<open>Q\<close> and every revision, \<open>Q\<close> is a component reference of \<open>P\<close> exactly when \<open>P\<close> is
  among the referrers of \<open>Q\<close>. For a valid state path \<open>Q\<close> whose alias walk ends in \<open>Q'\<close>,
  \<open>Q'\<close> is a state reference of \<open>P\<close> exactly when \<open>P\<close> is among the referrers of \<open>Q\<close>.
  Revisions play no part.
\<close>

lemma referrers_dual_component_keyed:
  assumes "isValidPathTxn s P"
  shows "(isValidPathTxn s Q \<longrightarrow>
            (\<exists>R S. queryXReferencesTxn e s P True r ts = Inr R \<and> queryReferrersTxn e s Q r = Inr S
               \<and> (Q \<in> R \<longleftrightarrow> P \<in> S)))
       \<and> (\<not> isValidPathTxn s Q \<and> isValidStatePathTxn s Q \<and> toNonSharedPathTxn s Q = Some Q' \<longrightarrow>
            (\<exists>R S. queryXReferencesTxn e s P False r ts = Inr R \<and> queryReferrersTxn e s Q r = Inr S
               \<and> (Q' \<in> R \<longleftrightarrow> P \<in> S)))"
  using assms
  by (simp add: queryXReferencesTxn_valid queryReferrersTxn_component queryReferrersTxn_state
      scan_member del: set_filter)

text \<open>
  The scan of the state-keyed tables takes the timestamp of a key whenever it is larger
  than the one it holds: the bound of the revision does not enter.
\<close>

lemma latestStep_ignores_bound:
  "latestStep r t key latest = latestStep 0 0 key latest"
  by (simp add: latestStep_def Let_def cong: if_cong)

lemma LocalStore_queryReferences_latest:
  "LocalStore_queryReferences e s storePath 0 = queryXReferencesTxn e s storePath False 1 0"
  by (simp add: LocalStore_queryReferences_def)

lemma dualStore_valid:
  "isValidPathTxn dualStore pathP" "isValidPathTxn dualStore pathQ"
  "\<not> isValidPathTxn dualStore stateQ" "isValidStatePathTxn dualStore stateQ"
  by (simp_all add: isValidPathTxn_def isValidStatePathTxn_def queryString_def dualStore_def
      emptyStore_def pathP_def pathQ_def stateQ_def)

lemma dualStore_walk: "toNonSharedPathTxn dualStore stateQ = Some stateQ"
  by (subst toNonSharedPathTxn.simps)
     (simp add: querySharedStateTxn_def queryString_def dualStore_def emptyStore_def)

text \<open>
  The state-keyed tables. The first loop of the scan leaves, for every state path with a
  key, the largest timestamp of its keys; the backend of the example, and by section 4.4
  every backend, reads the row of that timestamp when no revision is given.
\<close>

lemma map_of_latestStep:
  "map_of (latestStep r ts (k, t) L)
     = (map_of L)(k \<mapsto> max (case map_of L k of None \<Rightarrow> 0 | Some v \<Rightarrow> v) t)"
proof (cases "map_of L k")
  case None
  then show ?thesis by (simp add: latestStep_def update_conv' max_def)
next
  case (Some c)
  then have "(map_of L)(k \<mapsto> c) = map_of L" by (simp add: fun_upd_idem)
  with Some show ?thesis
    by (auto simp: latestStep_def update_conv' max_def Let_def)
qed

lemma latestOf_unique: "latestOf keys k a \<Longrightarrow> latestOf keys k b \<Longrightarrow> a = b"
proof (cases a; cases b)
  fix x y assume "latestOf keys k a" "latestOf keys k b" "a = Some x" "b = Some y"
  then have "x \<le> y" "y \<le> x" by (simp_all add: latestOf_def)
  then show "a = b" using \<open>a = Some x\<close> \<open>b = Some y\<close> by simp
qed (auto simp: latestOf_def)

lemma latest_fold: "latestOf keys k (map_of (fold (latestStep r ts) keys []) k)"
proof (induction keys rule: rev_induct)
  case Nil
  then show ?case by (simp add: latestOf_def)
next
  case (snoc x keys)
  obtain k0 t0 where x: "x = (k0, t0)" by (cases x)
  let ?L = "fold (latestStep r ts) keys []"
  show ?case
  proof (cases "k = k0")
    case False
    with snoc show ?thesis
      by (auto simp: x map_of_latestStep latestOf_def split: option.splits)
  next
    case True
    show ?thesis
    proof (cases "map_of ?L k0")
      case None
      with snoc [unfolded True] show ?thesis
        by (auto simp: x True map_of_latestStep latestOf_def)
    next
      case (Some c)
      with snoc [unfolded True] show ?thesis
        by (auto simp: x True map_of_latestStep latestOf_def max_def)
    qed
  qed
qed

lemma distinct_latestStep:
  "distinct (map fst L) \<Longrightarrow> distinct (map fst (latestStep r ts key L))"
  by (simp add: latestStep_def Let_def distinct_update)

lemma distinct_latest_fold:
  "distinct (map fst L) \<Longrightarrow> distinct (map fst (fold (latestStep r ts) keys L))"
  by (induction keys arbitrary: L) (simp_all add: distinct_latestStep)

lemma snd_image_fst: "snd ` {y \<in> B. fst y = p} = {x. (p, x) \<in> B}"
  by force

lemma exLatest_latestOf: "latestOf (map fst t) p (exLatest t p)"
proof (cases "filter (\<lambda>k. fst k = p) (map fst t)")
  case Nil
  then have "\<forall>x. (p, x) \<notin> set (map fst t)"
    by (auto simp: filter_empty_conv)
  with Nil show ?thesis by (simp add: exLatest_def latestOf_def)
next
  case (Cons k ks)
  let ?S = "set (map snd (k # ks))"
  have S: "?S = {x. (p, x) \<in> set (map fst t)}"
  proof -
    have "set (k # ks) = {y \<in> set (map fst t). fst y = p}"
      unfolding Cons [symmetric] by auto
    then have "?S = snd ` {y \<in> set (map fst t). fst y = p}"
      by (simp only: set_map)
    then show ?thesis by (simp only: snd_image_fst)
  qed
  have m: "exLatest t p = Some (Max ?S)"
    by (simp add: exLatest_def Cons Max.set_eq_fold [symmetric] del: set_map)
  have "Max ?S \<in> ?S" by (rule Max_in) simp_all
  moreover have "\<forall>x\<in>?S. x \<le> Max ?S" by simp
  ultimately show ?thesis unfolding m S by (simp add: latestOf_def)
qed

lemma latest_is_exLatest:
  "map_of (fold (latestStep r ts) (enumTable t) []) p = exLatest t p"
proof -
  have "latestOf (enumTable t) p (exLatest t p)"
    using exLatest_latestOf [of t p] by (simp add: latestOf_def enumTable_def split: option.splits)
  with latest_fold [of "enumTable t" p r ts] show ?thesis by (rule latestOf_unique)
qed

lemma fst_filter_member:
  "P \<in> set (map fst (filter (\<lambda>i. F (fst i) (snd i)) L)) \<longleftrightarrow> (\<exists>m. (P, m) \<in> set L \<and> F P m)"
  by (induction L) auto

lemma state_scan_member:
  "P \<in> set (map fst (filter (\<lambda>i. Q \<in> set (queryStrings t (fst i, snd i)))
                    (fold (latestStep r ts) (enumTable t) [])))
   \<longleftrightarrow> (\<exists>m. exLatest t P = Some m \<and> Q \<in> set (queryStrings t (P, m)))"
proof -
  let ?L = "fold (latestStep r ts) (enumTable t) []"
  have d: "distinct (map fst ?L)" by (rule distinct_latest_fold) simp
  have "(P, m) \<in> set ?L \<longleftrightarrow> exLatest t P = Some m" for m
    using map_of_eq_Some_iff [OF d, of P m] by (simp add: latest_is_exLatest)
  then show ?thesis
    unfolding fst_filter_member [of P "\<lambda>k m. Q \<in> set (queryStrings t (k, m))" ?L] by simp
qed

lemma exQuery_latest:
  "exQueryStateReferences t revs P 0 0 = Some (b, refs) \<Longrightarrow>
   Q \<in> set refs \<longleftrightarrow> (\<exists>m. exLatest t P = Some m \<and> Q \<in> set (queryStrings t (P, m)))"
  by (auto simp: exQueryStateReferences_def queryStrings_def split: option.splits)

lemma exQuery_returns: "\<exists>b refs. exQueryStateReferences t revs P r ts = Some (b, refs)"
  by (auto simp: exQueryStateReferences_def Let_def split: option.splits)

lemma queryXReferencesTxn_state:
  assumes "isRealisablePath e s P = Inr False" "isValidStatePathTxn s P"
    and "toNonSharedPathTxn s P = Some P'"
    and "queryStateReferences e (if c then dbStateComponentReferences s else dbStateStateReferences s)
           (dbStateRevisions s) P' r ts = Some (b, refs)"
  shows "queryXReferencesTxn e s P c r ts = Inr (set refs)"
  using assms by (simp add: queryXReferencesTxn_def isRealisableStatePath_def)

lemma queryStateReferrersTxn_component:
  assumes "isValidPathTxn s Q"
  shows "queryStateReferrersTxn e s Q 0 =
     Inr (set (map fst (filter (\<lambda>i. Q \<in> set (queryStrings (dbStateComponentReferences s) (fst i, snd i)))
                 (fold (latestStep 0 0) (enumTable (dbStateComponentReferences s)) []))))"
  using assms
  by (simp add: queryStateReferrersTxn_def isRealisableComponentOrStatePath_def
      isValidComponentOrStatePathTxn_def getStateReferrersTxn_def getXReferrers_def Let_def)

lemma queryStateReferrersTxn_state:
  assumes "\<not> isValidPathTxn s Q" "isValidStatePathTxn s Q" "toNonSharedPathTxn s Q = Some Q'"
  shows "queryStateReferrersTxn e s Q 0 =
     Inr (set (map fst (filter (\<lambda>i. Q' \<in> set (queryStrings (dbStateStateReferences s) (fst i, snd i)))
                 (fold (latestStep 0 0) (enumTable (dbStateStateReferences s)) []))))"
  using assms
  by (simp add: queryStateReferrersTxn_def isRealisableComponentOrStatePath_def
      isValidComponentOrStatePathTxn_def getStateReferrersTxn_def getXReferrers_def Let_def)

lemma referrers_dual_state_keyed:
  assumes P: "isRealisablePath e s P = Inr False" "isValidStatePathTxn s P"
      "toNonSharedPathTxn s P = Some P'"
    and bk: "backendReadsLatest e s P'"
  shows "(isValidPathTxn s Q \<longrightarrow>
            (\<exists>R S. queryXReferencesTxn e s P True 0 0 = Inr R \<and> queryStateReferrersTxn e s Q 0 = Inr S
               \<and> (Q \<in> R \<longleftrightarrow> P' \<in> S)))
       \<and> (\<not> isValidPathTxn s Q \<and> isValidStatePathTxn s Q \<and> toNonSharedPathTxn s Q = Some Q' \<longrightarrow>
            (\<exists>R S. queryXReferencesTxn e s P False 0 0 = Inr R \<and> queryStateReferrersTxn e s Q 0 = Inr S
               \<and> (Q' \<in> R \<longleftrightarrow> P' \<in> S)))"
proof (intro conjI impI)
  assume Q: "isValidPathTxn s Q"
  let ?t = "dbStateComponentReferences s"
  obtain b refs where ex: "exQueryStateReferences ?t (dbStateRevisions s) P' 0 0 = Some (b, refs)"
    using exQuery_returns by blast
  with bk have "queryStateReferences e ?t (dbStateRevisions s) P' 0 0 = Some (b, refs)"
    by (simp add: backendReadsLatest_def)
  then have R: "queryXReferencesTxn e s P True 0 0 = Inr (set refs)"
    using P by (intro queryXReferencesTxn_state) simp_all
  show "\<exists>R S. queryXReferencesTxn e s P True 0 0 = Inr R \<and> queryStateReferrersTxn e s Q 0 = Inr S
               \<and> (Q \<in> R \<longleftrightarrow> P' \<in> S)"
    unfolding R queryStateReferrersTxn_component [OF Q]
    by (simp only: sum.inject simp_thms ex_simps state_scan_member exQuery_latest [OF ex])
next
  assume "\<not> isValidPathTxn s Q \<and> isValidStatePathTxn s Q \<and> toNonSharedPathTxn s Q = Some Q'"
  then have Q: "\<not> isValidPathTxn s Q" "isValidStatePathTxn s Q" "toNonSharedPathTxn s Q = Some Q'"
    by simp_all
  let ?t = "dbStateStateReferences s"
  obtain b refs where ex: "exQueryStateReferences ?t (dbStateRevisions s) P' 0 0 = Some (b, refs)"
    using exQuery_returns by blast
  with bk have "queryStateReferences e ?t (dbStateRevisions s) P' 0 0 = Some (b, refs)"
    by (simp add: backendReadsLatest_def)
  then have R: "queryXReferencesTxn e s P False 0 0 = Inr (set refs)"
    using P by (intro queryXReferencesTxn_state) simp_all
  show "\<exists>R S. queryXReferencesTxn e s P False 0 0 = Inr R \<and> queryStateReferrersTxn e s Q 0 = Inr S
               \<and> (Q' \<in> R \<longleftrightarrow> P' \<in> S)"
    unfolding R queryStateReferrersTxn_state [OF Q]
    by (simp only: sum.inject simp_thms ex_simps state_scan_member exQuery_latest [OF ex])
qed

text \<open>
  Claim C4, as amended. References and referrers are dual when they are paired by the
  kinds of the two paths. Let \<open>P\<close> be a valid component path: for every revision, a valid
  component path \<open>Q\<close> is a component reference of \<open>P\<close> exactly when \<open>P\<close> is among the referrers
  (\<open>queryReferrers\<close>) of \<open>Q\<close>, and for a valid state path \<open>Q\<close> whose alias walk ends in \<open>Q'\<close>,
  \<open>Q'\<close> is a state reference of \<open>P\<close> exactly when \<open>P\<close> is among the referrers of \<open>Q\<close>. Let \<open>P\<close>
  be a valid state path that is not realisable as a component, whose alias walk ends in
  \<open>P'\<close>, and let the backend read the row of the largest timestamp of \<open>P'\<close> when no revision
  is given: without a revision, a valid component path \<open>Q\<close> is a component reference of \<open>P\<close>
  exactly when \<open>P'\<close> is among the state referrers (\<open>queryStateReferrers\<close>) of \<open>Q\<close>, and for
  a valid state path \<open>Q\<close> whose alias walk ends in \<open>Q'\<close>, \<open>Q'\<close> is a state reference of \<open>P\<close>
  exactly when \<open>P'\<close> is among the state referrers of \<open>Q\<close>; the scan selects for each key the
  largest timestamp. The scan under the bound of a revision is left out.
\<close>

theorem referrers_dual_by_kind:
  "(isValidPathTxn s P \<longrightarrow>
      (isValidPathTxn s Q \<longrightarrow>
         (\<exists>R S. queryXReferencesTxn e s P True r ts = Inr R \<and> queryReferrersTxn e s Q r = Inr S
            \<and> (Q \<in> R \<longleftrightarrow> P \<in> S)))
    \<and> (\<not> isValidPathTxn s Q \<and> isValidStatePathTxn s Q \<and> toNonSharedPathTxn s Q = Some Q' \<longrightarrow>
         (\<exists>R S. queryXReferencesTxn e s P False r ts = Inr R \<and> queryReferrersTxn e s Q r = Inr S
            \<and> (Q' \<in> R \<longleftrightarrow> P \<in> S))))
   \<and> (isRealisablePath e s P = Inr False \<and> isValidStatePathTxn s P
        \<and> toNonSharedPathTxn s P = Some P' \<and> backendReadsLatest e s P' \<longrightarrow>
      (isValidPathTxn s Q \<longrightarrow>
         (\<exists>R S. queryXReferencesTxn e s P True 0 0 = Inr R \<and> queryStateReferrersTxn e s Q 0 = Inr S
            \<and> (Q \<in> R \<longleftrightarrow> P' \<in> S)))
    \<and> (\<not> isValidPathTxn s Q \<and> isValidStatePathTxn s Q \<and> toNonSharedPathTxn s Q = Some Q' \<longrightarrow>
         (\<exists>R S. queryXReferencesTxn e s P False 0 0 = Inr R \<and> queryStateReferrersTxn e s Q 0 = Inr S
            \<and> (Q' \<in> R \<longleftrightarrow> P' \<in> S))))"
proof (rule conjI; rule impI)
  assume "isValidPathTxn s P"
  then show "(isValidPathTxn s Q \<longrightarrow>
         (\<exists>R S. queryXReferencesTxn e s P True r ts = Inr R \<and> queryReferrersTxn e s Q r = Inr S
            \<and> (Q \<in> R \<longleftrightarrow> P \<in> S)))
    \<and> (\<not> isValidPathTxn s Q \<and> isValidStatePathTxn s Q \<and> toNonSharedPathTxn s Q = Some Q' \<longrightarrow>
         (\<exists>R S. queryXReferencesTxn e s P False r ts = Inr R \<and> queryReferrersTxn e s Q r = Inr S
            \<and> (Q' \<in> R \<longleftrightarrow> P \<in> S)))"
    by (rule referrers_dual_component_keyed)
next
  assume "isRealisablePath e s P = Inr False \<and> isValidStatePathTxn s P
        \<and> toNonSharedPathTxn s P = Some P' \<and> backendReadsLatest e s P'"
  then have "isRealisablePath e s P = Inr False" "isValidStatePathTxn s P"
    "toNonSharedPathTxn s P = Some P'" "backendReadsLatest e s P'"
    by simp_all
  then show "(isValidPathTxn s Q \<longrightarrow>
         (\<exists>R S. queryXReferencesTxn e s P True 0 0 = Inr R \<and> queryStateReferrersTxn e s Q 0 = Inr S
            \<and> (Q \<in> R \<longleftrightarrow> P' \<in> S)))
    \<and> (\<not> isValidPathTxn s Q \<and> isValidStatePathTxn s Q \<and> toNonSharedPathTxn s Q = Some Q' \<longrightarrow>
         (\<exists>R S. queryXReferencesTxn e s P False 0 0 = Inr R \<and> queryStateReferrersTxn e s Q 0 = Inr S
            \<and> (Q' \<in> R \<longleftrightarrow> P' \<in> S)))"
    by (rule referrers_dual_state_keyed)
qed

lemma revStore_valid:
  "isValidPathTxn revStore pathP" "isValidPathTxn revStore pathQ"
  "\<not> isValidPathTxn revStore stateQ" "isValidStatePathTxn revStore stateQ"
  "\<not> isValidPathTxn revStore stateP" "isValidStatePathTxn revStore stateP"
  by (simp_all add: isValidPathTxn_def isValidStatePathTxn_def queryString_def revStore_def
      emptyStore_def pathP_def pathQ_def stateQ_def stateP_def)

lemma revStore_walk:
  "toNonSharedPathTxn revStore stateQ = Some stateQ" "toNonSharedPathTxn revStore stateP = Some stateP"
  by (subst toNonSharedPathTxn.simps,
      simp add: querySharedStateTxn_def queryString_def revStore_def emptyStore_def)+

lemma revStore_unrealisable: "isRealisablePath exampleEnv revStore stateP = Inr False"
  using revStore_valid
  by (simp add: isRealisablePath_def)
     (simp add: readSubstitutes_def queryStrings_def revStore_def emptyStore_def)

lemma revStore_backend: "backendReadsLatest exampleEnv revStore p"
  by (simp add: backendReadsLatest_def exampleEnv_def)

lemma states_distinct: "stateP \<noteq> stateQ" "stateQ \<noteq> stateP"
  by (simp_all add: stateP_def stateQ_def)

lemma revStore_tables:
  "dbComponentComponentReferences revStore = [(pathP, [pathQ])]"
  "dbComponentStateReferences revStore = [(pathP, [stateQ])]"
  "dbStateComponentReferences revStore = [((stateP, 5), []), ((stateP, 10), [pathQ])]"
  "dbStateStateReferences revStore = [((stateP, 5), []), ((stateP, 10), [stateQ])]"
  "dbStateRevisions revStore = [((stateQ, 1), [(stateQ, 5)]), ((stateP, 1), [(stateP, 5)])]"
  by (simp_all add: revStore_def emptyStore_def)

lemma latest_two:
  "fold (latestStep r ts) (enumTable [((p, 5), a), ((p, 10), b)]) [] = [(p, 10)]"
  by (simp add: enumTable_def latestStep_def)

lemma exLatest_two: "exLatest [((p, 5), a), ((p, 10), b)] p = Some 10"
  by (simp add: exLatest_def)

lemma revStore_component_values:
  "queryXReferencesTxn exampleEnv revStore pathP True 0 0 = Inr {pathQ}"
  "queryReferrersTxn exampleEnv revStore pathQ 0 = Inr {pathP}"
  by (simp_all add: queryXReferencesTxn_valid [OF revStore_valid(1)]
      queryReferrersTxn_component [OF revStore_valid(2)] revStore_tables queryStrings_def enumTable_def)

lemma revStore_state_values:
  "queryXReferencesTxn exampleEnv revStore stateP True 0 0 = Inr {pathQ}"
  "queryStateReferrersTxn exampleEnv revStore pathQ 0 = Inr {stateP}"
  "queryXReferencesTxn exampleEnv revStore stateP False 0 0 = Inr {stateQ}"
  "queryStateReferrersTxn exampleEnv revStore stateQ 0 = Inr {stateP}"
proof -
  have q: "queryStateReferences exampleEnv = exQueryStateReferences"
    by (simp add: exampleEnv_def)
  show "queryXReferencesTxn exampleEnv revStore stateP True 0 0 = Inr {pathQ}"
    using queryXReferencesTxn_state [OF revStore_unrealisable revStore_valid(6) revStore_walk(2),
        where c = True and r = 0 and ts = 0 and b = True and refs = "[pathQ]"]
    by (simp add: q revStore_tables exQueryStateReferences_def exLatest_two)
  show "queryXReferencesTxn exampleEnv revStore stateP False 0 0 = Inr {stateQ}"
    using queryXReferencesTxn_state [OF revStore_unrealisable revStore_valid(6) revStore_walk(2),
        where c = False and r = 0 and ts = 0 and b = True and refs = "[stateQ]"]
    by (simp add: q revStore_tables exQueryStateReferences_def exLatest_two)
  show "queryStateReferrersTxn exampleEnv revStore pathQ 0 = Inr {stateP}"
    by (simp add: queryStateReferrersTxn_component [OF revStore_valid(2)] revStore_tables latest_two
        queryStrings_def)
  show "queryStateReferrersTxn exampleEnv revStore stateQ 0 = Inr {stateP}"
    by (simp add: queryStateReferrersTxn_state [OF revStore_valid(3,4) revStore_walk(1)]
        revStore_tables latest_two queryStrings_def)
qed

theorem referrers_dual_by_kind_witness:
  "(\<exists>R S. queryXReferencesTxn exampleEnv revStore pathP True 0 0 = Inr R
        \<and> queryReferrersTxn exampleEnv revStore pathQ 0 = Inr S \<and> (pathQ \<in> R \<longleftrightarrow> pathP \<in> S))
   \<and> (\<exists>R S. queryXReferencesTxn exampleEnv revStore pathP False 0 0 = Inr R
        \<and> queryReferrersTxn exampleEnv revStore stateQ 0 = Inr S \<and> (stateQ \<in> R \<longleftrightarrow> pathP \<in> S))
   \<and> (\<exists>R S. queryXReferencesTxn exampleEnv revStore stateP True 0 0 = Inr R
        \<and> queryStateReferrersTxn exampleEnv revStore pathQ 0 = Inr S \<and> (pathQ \<in> R \<longleftrightarrow> stateP \<in> S))
   \<and> (\<exists>R S. queryXReferencesTxn exampleEnv revStore stateP False 0 0 = Inr R
        \<and> queryStateReferrersTxn exampleEnv revStore stateQ 0 = Inr S \<and> (stateQ \<in> R \<longleftrightarrow> stateP \<in> S))
   \<and> queryXReferencesTxn exampleEnv revStore pathP True 0 0 = Inr {pathQ}
   \<and> queryReferrersTxn exampleEnv revStore pathQ 0 = Inr {pathP}
   \<and> queryXReferencesTxn exampleEnv revStore stateP True 0 0 = Inr {pathQ}
   \<and> queryStateReferrersTxn exampleEnv revStore pathQ 0 = Inr {stateP}"
proof -
  note c1 = referrers_dual_by_kind [where s = revStore and P = pathP and Q = pathQ
      and e = exampleEnv and r = 0 and ts = 0, THEN conjunct1]
  note c2 = referrers_dual_by_kind [where s = revStore and P = pathP and Q = stateQ and Q' = stateQ
      and e = exampleEnv and r = 0 and ts = 0, THEN conjunct1]
  note c3 = referrers_dual_by_kind [where s = revStore and P = stateP and P' = stateP and Q = pathQ
      and e = exampleEnv, THEN conjunct2]
  note c4 = referrers_dual_by_kind [where s = revStore and P = stateP and P' = stateP and Q = stateQ
      and Q' = stateQ and e = exampleEnv, THEN conjunct2]
  show ?thesis
    using c1 c2 c3 c4 revStore_valid revStore_walk revStore_unrealisable revStore_backend
      revStore_component_values revStore_state_values(1,2)
    by simp
qed

text \<open>
  With a revision, the scan of the state-keyed tables is to take the largest timestamp
  that does not exceed the timestamp of the revision. In \<open>revStore\<close> revision 1 of
  \<open>stateP\<close> and of \<open>stateQ\<close> is timestamp 5, where \<open>stateP\<close> has no reference; the scan takes
  the row of timestamp 10 all the same, and \<open>stateP\<close> is a state referrer of \<open>stateQ\<close> at
  revision 1 although \<open>stateQ\<close> is no reference of \<open>stateP\<close> at that revision.
\<close>

lemma state_referrers_ignore_revision_bound:
  "queryXReferencesTxn exampleEnv revStore stateP False 1 0 = Inr {}
   \<and> queryStateReferrersTxn exampleEnv revStore stateQ 1 = Inr {stateP}"
proof -
  have q: "queryStateReferences exampleEnv = exQueryStateReferences"
    "revisionToTimeStamp exampleEnv = exRevisionToTimeStamp"
    by (simp_all add: exampleEnv_def)
  have a: "queryXReferencesTxn exampleEnv revStore stateP False 1 0 = Inr {}"
    using queryXReferencesTxn_state [OF revStore_unrealisable revStore_valid(6) revStore_walk(2),
        where c = False and r = 1 and ts = 0 and b = True and refs = "[]"] states_distinct
    by (simp add: q revStore_tables exQueryStateReferences_def exRevisionToTimeStamp_def)
  have b: "queryStateReferrersTxn exampleEnv revStore stateQ 1 = Inr {stateP}"
    using revStore_valid revStore_walk states_distinct
    by (simp add: queryStateReferrersTxn_def isRealisableComponentOrStatePath_def
        isValidComponentOrStatePathTxn_def getStateReferrersTxn_def getXReferrers_def Let_def
        q revStore_tables exRevisionToTimeStamp_def latest_two queryStrings_def)
  show ?thesis using a b by simp
qed

text \<open>
  Claim C4 as stated pairs \<open>queryStateReferences\<close> with \<open>queryStateReferrers\<close> for all valid
  paths. In \<open>dualStore\<close> the component \<open>pathP\<close> refers to the state path \<open>stateQ\<close>, but
  \<open>pathP\<close> is not among the state referrers of \<open>stateQ\<close>: they are read from the
  state-to-state table.
\<close>

theorem state_referrers_not_dual:
  "isValidPathTxn dualStore pathP \<and> isValidStatePathTxn dualStore stateQ
   \<and> queryXReferencesTxn exampleEnv dualStore pathP False 0 0 = Inr {stateQ}
   \<and> queryStateReferrersTxn exampleEnv dualStore stateQ 0 = Inr {}"
proof -
  have a: "queryXReferencesTxn exampleEnv dualStore pathP False 0 0 = Inr {stateQ}"
    by (simp add: queryXReferencesTxn_valid [OF dualStore_valid(1)])
       (simp add: dualStore_def emptyStore_def queryStrings_def)
  have b: "queryStateReferrersTxn exampleEnv dualStore stateQ 0 = Inr {}"
    using dualStore_valid dualStore_walk
    by (simp add: queryStateReferrersTxn_def isRealisableComponentOrStatePath_def
        isValidComponentOrStatePathTxn_def getStateReferrersTxn_def getXReferrers_def)
       (simp add: dualStore_def emptyStore_def enumTable_def)
  show ?thesis using dualStore_valid a b by simp
qed

section \<open>The verifier\<close>

lemma danglingStore_unrealisable:
  "\<not> isValidPathTxn danglingStore pathP"  "readSubstitutes exampleEnv danglingStore pathP = Inr []"
  by (simp_all add: isValidPathTxn_def queryString_def readSubstitutes_def queryStrings_def
      danglingStore_def emptyStore_def)

lemma setReferences_unrealisable_throws:
  assumes "\<not> isValidPathTxn s p" "\<not> isValidStatePathTxn s p" "readSubstitutes e s p = Inr []"
  shows "setReferences e s p {} {} r = Inl NotValidComponentOrState"
  using assms
  by (simp add: setReferences_def isRealisablePath_def isRealisableStatePath_def)

text \<open>
  Claim C8. \<open>verifyStore(false)\<close> is to end normally on every store and to clear the
  references of every key that is not realisable. In \<open>danglingStore\<close> the path \<open>pathP\<close> has
  a row of references and is neither valid nor substitutable; \<open>setReferences\<close>, called to
  clear the row, raises its last error, and so does the verifier.
\<close>

theorem verifyStore_throws_on_unrealisable_key:
  "\<not> isValidPathTxn danglingStore pathP
   \<and> readSubstitutes exampleEnv danglingStore pathP = Inr []
   \<and> setReferences exampleEnv danglingStore pathP {} {} 0 = Inl NotValidComponentOrState
   \<and> verifyStore exampleEnv danglingStore False = Inl NotValidComponentOrState"
proof -
  have sr: "setReferences exampleEnv danglingStore pathP {} {} 0 = Inl NotValidComponentOrState"
    by (simp add: setReferences_def isRealisablePath_def isRealisableStatePath_def
        isValidPathTxn_def isValidStatePathTxn_def queryString_def readSubstitutes_def
        queryStrings_def danglingStore_def emptyStore_def)
  have tabs: "enumTable (dbValidPaths danglingStore) = []" "enumTable (dbSubstitutes danglingStore) = []"
    "enumTable (dbDerivers danglingStore) = []"
    "enumTable (dbComponentComponentReferences danglingStore) = [pathP]"
    by (simp_all add: enumTable_def danglingStore_def emptyStore_def)
  have "verifyStore exampleEnv danglingStore False = Inl NotValidComponentOrState"
    by (simp add: verifyStore_def tabs verifyReferences_def sr Let_def)
  with danglingStore_unrealisable sr show ?thesis by simp
qed

section \<open>Export and import\<close>

lemma sourceStore_valid: "isValidPathTxn sourceStore pathP" "isValidPathTxn selfStore pathP"
  by (simp_all add: isValidPathTxn_def queryString_def sourceStore_def selfStore_def emptyStore_def)

lemma sourceStore_rows:
  "fs sourceStore pathP = Some (File ''data'')" "fs sourceStore drvD = Some (DrvFile plainDrv)"
  "map_of (dbDerivers sourceStore) pathP = Some (Single drvD)"
  "queryStrings (dbComponentComponentReferences sourceStore) pathP = [pathQ]"
  by (simp_all add: sourceStore_def emptyStore_def queryStrings_def pathP_def pathQ_def drvD_def)

lemma selfStore_rows:
  "fs selfStore pathP = Some (File ''data'')" "fs selfStore drvD = Some (DrvFile plainDrv)"
  "map_of (dbDerivers selfStore) pathP = Some (Single drvD)"
  "queryStrings (dbComponentComponentReferences selfStore) pathP = [pathP]"
  by (simp_all add: selfStore_def sourceStore_def emptyStore_def queryStrings_def pathP_def pathQ_def drvD_def)

lemma plainDrv_not_state: "\<not> isStateDrv plainDrv"
  by (simp add: isStateDrv_def map_size_def plainDrv_def)

lemma queryDeriver_sourceStore:
  "queryDeriver exampleEnv sourceStore pathP = Inr drvD" "queryDeriver exampleEnv selfStore pathP = Inr drvD"
  using sourceStore_valid plainDrv_not_state
  by (simp_all add: queryDeriver_def isRealisablePath_def queryDeriverString_def Let_def
      derivationFromPathTxn_def sourceStore_rows selfStore_rows)

lemma exportPath_sourceStore: "exportPath exampleEnv sourceStore pathP False = Inr sourceStream"
  using isStorePath_pathP sourceStore_valid
  by (simp add: exportPath_def assertStorePath_def queryXReferencesTxn_valid
      queryDeriver_sourceStore writeStringSet_def sourceStream_def sourceStore_rows signTrailer_def)

lemma emptyStore_invalid: "\<not> isValidPathTxn emptyStore p"
  by (simp add: isValidPathTxn_def queryString_def emptyStore_def)

lemma pathQ_neq: "pathQ \<noteq> pathP"
  by (simp add: pathP_def pathQ_def)

lemma readTrailer_sourceStream:
  "readTrailer exampleEnv False sourceStream = Inr (File ''data'', pathP, {pathQ}, drvD)"
proof -
  have rd: "readStorePath exampleEnv [TStr pathP, TInt 1, TStr pathQ, TStr drvD, TInt 0]
      = Inr (pathP, [TInt 1, TStr pathQ, TStr drvD, TInt 0])"
    using isStorePath_pathP by (simp add: readStorePath_def readString_def assertStorePath_def)
  have rds: "readStorePaths exampleEnv [TInt 1, TStr pathQ, TStr drvD, TInt 0]
      = Inr ({pathQ}, [TStr drvD, TInt 0])"
    using isStorePath_pathQ by (simp add: readStorePaths_def readInt_def readString_def)
  have sg: "\<And>h. checkSignature exampleEnv False h [TInt 0] = Inr ()"
    by (simp add: checkSignature_def readInt_def)
  show ?thesis
    using isStorePath_drvs(1)
    by (simp add: readTrailer_def sourceStream_def restorePath_def readInt_def rd rds readString_def
        assertStorePath_def sg)
qed

lemma installImported_foreign:
  "installImported exampleEnv emptyStore (File ''data'') pathP {pathQ} drvD = Inl InvalidReference"
proof -
  let ?s2 = "emptyStore\<lparr>fs := (fs emptyStore)(pathP \<mapsto> File ''data'')\<rparr>"
  have inv: "\<And>p. \<not> isValidPathTxn ?s2 p"
    by (simp add: isValidPathTxn_def queryString_def emptyStore_def)
  have h: "setHash exampleEnv ?s2 pathP (hashPath exampleEnv htSHA256 (File ''data''))
      = Inr (?s2\<lparr>dbValidPaths := [(pathP, ''sha256:data'')]\<rparr>)"
    by (simp add: setHash_def setString_def) (simp add: exampleEnv_def emptyStore_def)
  have v: "isValidPathTxn (?s2\<lparr>dbValidPaths := [(pathP, ''sha256:data'')]\<rparr>) p \<longleftrightarrow> p = pathP" for p
    by (auto simp add: isValidPathTxn_def queryString_def)
  have r: "setReferences exampleEnv (?s2\<lparr>dbValidPaths := [(pathP, ''sha256:data'')]\<rparr>) pathP {pathQ} {} 0
      = Inr (?s2\<lparr>dbValidPaths := [(pathP, ''sha256:data'')],
                 dbComponentComponentReferences := [(pathP, [pathQ])],
                 dbComponentStateReferences := [(pathP, [])]\<rparr>)"
    by (simp add: setReferences_def isRealisableComponentOrStatePath_def
        isValidComponentOrStatePathTxn_def isRealisablePath_def v)
       (simp add: queryStrings_def setStrings_def emptyStore_def)
  have v2: "isValidPathTxn (?s2\<lparr>dbValidPaths := [(pathP, ''sha256:data'')],
                 dbComponentComponentReferences := [(pathP, [pathQ])],
                 dbComponentStateReferences := [(pathP, [])]\<rparr>) p \<longleftrightarrow> p = pathP" for p
    by (auto simp add: isValidPathTxn_def queryString_def)
  have "registerValidPath exampleEnv ?s2 pathP
        (hashPath exampleEnv htSHA256 (File ''data'')) {pathQ} {} [] 0 = Inl InvalidReference"
    using isStorePath_pathP pathQ_neq
    by (simp add: registerValidPath_def registerValidPaths_def registerOne_unfold h r v2)
  then show ?thesis
    using emptyStore_invalid inv
    by (simp add: installImported_def Let_def pathExists_def)
qed

text \<open>
  Claim C3 as stated promises the round trip for every valid component path. In
  \<open>sourceStore\<close> the path \<open>pathP\<close> refers to \<open>pathQ\<close>; its export is \<open>sourceStream\<close>, and the import
  of that stream into the empty store is refused, since \<open>pathQ\<close> is not valid there.
\<close>

theorem import_rejects_foreign_reference:
  "exportPath exampleEnv sourceStore pathP False = Inr sourceStream
   \<and> importPath exampleEnv emptyStore False sourceStream = Inl InvalidReference"
  by (simp add: exportPath_sourceStore importPath_def readTrailer_sourceStream installImported_foreign)

lemma readStrings_written:
  "readStrings (length xs) (map TStr xs @ rest) = Inr (xs, rest)"
  by (induction xs) (simp_all add: readString_def)

lemma take_written: "take (length (xs @ ys) - length ys) (xs @ ys) = xs"
  by simp

lemma readStorePaths_written:
  assumes "finite refs" "card refs < 2 ^ 32" "\<forall>p\<in>refs. isStorePath e p"
  shows "readStorePaths e (writeStringSet refs @ rest) = Inr (refs, rest)"
proof -
  have n: "unat (of_nat (card refs) :: u32) = length (sorted_list_of_set refs)"
    using assms(2) by (simp add: unat_of_nat)
  have all: "list_all (isStorePath e) (sorted_list_of_set refs)"
    using assms(1,3) by (simp add: list_all_iff)
  have rs: "readStrings (unat (of_nat (card refs) :: u32)) (map TStr (sorted_list_of_set refs) @ rest)
      = Inr (sorted_list_of_set refs, rest)"
    unfolding n by (rule readStrings_written)
  show ?thesis
    using assms(1) all
    by (simp add: readStorePaths_def writeStringSet_def readInt_def rs)
qed

lemma exportPath_shape:
  assumes "exportPath e s P sign = Inr stream"
  obtains obj dv where
    "isStorePath e P" "isValidPathTxn s P" "fs s P = Some obj" "queryDeriver e s P = Inr dv"
    "signTrailer e sign ([TNar obj, TInt 0x4558494e, TStr P]
        @ writeStringSet (set (queryStrings (dbComponentComponentReferences s) P)) @ [TStr dv])
      = Inr stream"
proof -
  from assms have sp: "isStorePath e P" and v: "isValidPathTxn s P"
    by (auto simp: exportPath_def assertStorePath_def bindE_Inr_iff split: if_splits)
  from assms sp v obtain obj where obj: "fs s P = Some obj"
    by (auto simp: exportPath_def assertStorePath_def split: option.splits)
  from assms sp v obj obtain dv where "queryDeriver e s P = Inr dv"
    "signTrailer e sign ([TNar obj, TInt 0x4558494e, TStr P]
        @ writeStringSet (set (queryStrings (dbComponentComponentReferences s) P)) @ [TStr dv])
      = Inr stream"
    by (auto simp: exportPath_def assertStorePath_def queryXReferencesTxn_valid bindE_Inr_iff)
  with sp v obj show ?thesis by (rule that)
qed

lemma checkSignature_written:
  assumes "signTrailer e sign out = Inr (out @ tail)"
    and "requireSignature \<longrightarrow> sign \<and> (\<forall>h sg. rsaSign e h = Some sg \<longrightarrow> rsaVerify e sg = Some h)"
  shows "checkSignature e requireSignature (hashStream e out) tail = Inr ()"
proof (cases sign)
  case True
  with assms(1) obtain sg where sg: "rsaSign e (printHash e (hashStream e out)) = Some sg"
    and tail: "tail = [TInt 1, TStr sg]"
    by (auto simp: signTrailer_def split: option.splits)
  show ?thesis
  proof (cases requireSignature)
    case True
    with assms(2) sg have "rsaVerify e sg = Some (printHash e (hashStream e out))" by blast
    then show ?thesis by (simp add: checkSignature_def tail readInt_def readString_def)
  next
    case False
    then show ?thesis by (simp add: checkSignature_def tail readInt_def readString_def)
  qed
next
  case False
  with assms have "tail = [TInt 0]" "\<not> requireSignature"
    by (auto simp: signTrailer_def)
  then show ?thesis by (simp add: checkSignature_def readInt_def)
qed

lemma signTrailer_extends:
  "signTrailer e sign out = Inr stream \<Longrightarrow> \<exists>tail. stream = out @ tail"
  by (auto simp: signTrailer_def split: if_splits option.splits)

lemma readTrailer_written:
  assumes st: "signTrailer e sign ([TNar obj, TInt 0x4558494e, TStr P] @ writeStringSet refs @ [TStr dv])
      = Inr stream"
    and sp: "isStorePath e P" and dv: "dv = [] \<or> isStorePath e dv"
    and refs: "finite refs" "card refs < 2 ^ 32" "\<forall>p\<in>refs. isStorePath e p"
    and sig: "requireSignature \<longrightarrow> sign \<and> (\<forall>h sg. rsaSign e h = Some sg \<longrightarrow> rsaVerify e sg = Some h)"
  shows "readTrailer e requireSignature stream = Inr (obj, P, refs, dv)"
proof -
  let ?out = "[TNar obj, TInt 0x4558494e, TStr P] @ writeStringSet refs @ [TStr dv]"
  from signTrailer_extends [OF st] obtain tail where stream: "stream = ?out @ tail" by blast
  have chk: "checkSignature e requireSignature (hashStream e ?out) tail = Inr ()"
    using st sig unfolding stream by (rule checkSignature_written)
  have rp: "readStorePaths e (writeStringSet refs @ ([TStr dv] @ tail)) = Inr (refs, [TStr dv] @ tail)"
    using refs by (rule readStorePaths_written)
  have tk: "take (length stream - length tail) stream = ?out"
    unfolding stream by (rule take_written)
  have asrt: "(if dv \<noteq> [] then assertStorePath e dv else Inr ()) = Inr ()"
    using dv by (auto simp: assertStorePath_def)
  have s1: "restorePath stream = Inr (obj, [TInt 0x4558494e, TStr P] @ writeStringSet refs @ [TStr dv] @ tail)"
    by (simp add: restorePath_def stream)
  have s2: "readInt ([TInt 0x4558494e, TStr P] @ writeStringSet refs @ [TStr dv] @ tail)
      = Inr (0x4558494e, [TStr P] @ writeStringSet refs @ [TStr dv] @ tail)"
    by (simp add: readInt_def)
  have s3: "readStorePath e ([TStr P] @ writeStringSet refs @ [TStr dv] @ tail)
      = Inr (P, writeStringSet refs @ [TStr dv] @ tail)"
    using sp by (simp add: readStorePath_def readString_def assertStorePath_def)
  have s4: "readString ([TStr dv] @ tail) = Inr (dv, tail)"
    by (simp add: readString_def)
  show ?thesis
    unfolding readTrailer_def s1 bindE.simps fst_conv snd_conv s2 s3 rp s4 asrt tk chk
    by simp
qed

lemma installImported_empty:
  assumes sp: "isStorePath e P" and refs: "refs \<subseteq> {P}"
    and ht: "htype (hashPath e htSHA256 obj) = htSHA256"
  shows "\<exists>t. installImported e emptyStore obj P refs dv = Inr (t, P)
     \<and> isValidPathTxn t P
     \<and> queryString (dbValidPaths t) P = Some (''sha256:'' @ printHash e (hashPath e htSHA256 obj))
     \<and> queryXReferencesTxn e t P True 0 0 = Inr refs
     \<and> dbDerivers t = [] \<and> fs t P = Some obj"
proof -
  define row where "row = ''sha256:'' @ printHash e (hashPath e htSHA256 obj)"
  let ?s2 = "emptyStore\<lparr>fs := (fs emptyStore)(P \<mapsto> obj)\<rparr>"
  let ?s3 = "?s2\<lparr>dbValidPaths := [(P, row)]\<rparr>"
  have inv: "\<And>p. \<not> isValidPathTxn ?s2 p"
    by (simp add: isValidPathTxn_def queryString_def emptyStore_def)
  have h: "setHash e ?s2 P (hashPath e htSHA256 obj) = Inr ?s3"
    using ht by (simp add: setHash_def setString_def emptyStore_def row_def)
  have v: "isValidPathTxn ?s3 p \<longleftrightarrow> p = P" for p
    by (auto simp add: isValidPathTxn_def queryString_def)
  have old: "queryStrings (dbComponentComponentReferences emptyStore) P = []"
    "queryStrings (dbComponentStateReferences emptyStore) P = []"
    by (simp_all add: queryStrings_def emptyStore_def)
  have sd: "setDeriver e s' P [] = Inr s'" for s'
    using sp by (simp add: setDeriver_def assertStorePath_def)
  have inst: "installImported e emptyStore obj P refs dv
      = bindE (registerValidPath e ?s2 P (hashPath e htSHA256 obj) refs {} [] 0) (\<lambda>s3. Inr (s3, P))"
    using emptyStore_invalid inv
    by (simp add: installImported_def Let_def pathExists_def emptyStore_def)
  from refs consider "refs = {}" | "refs = {P}" by blast
  then show ?thesis
  proof cases
    case 1
    have r: "setReferences e ?s3 P {} {} 0 = Inr ?s3"
      by (simp add: setReferences_def isRealisablePath_def v old)
    have reg: "registerValidPath e ?s2 P (hashPath e htSHA256 obj) refs {} [] 0 = Inr ?s3"
      using sp by (simp add: 1 registerValidPath_def registerValidPaths_def registerOne_unfold h r sd)
    have q: "queryXReferencesTxn e ?s3 P True 0 0 = Inr refs"
      by (simp add: queryXReferencesTxn_valid v old 1)
    show ?thesis
    proof (intro exI conjI)
      show "installImported e emptyStore obj P refs dv = Inr (?s3, P)"
        by (simp add: inst reg)
      show "isValidPathTxn ?s3 P" by (simp add: v)
      show "queryString (dbValidPaths ?s3) P
          = Some (''sha256:'' @ printHash e (hashPath e htSHA256 obj))"
        by (simp add: queryString_def row_def)
      show "queryXReferencesTxn e ?s3 P True 0 0 = Inr refs" by (rule q)
      show "dbDerivers ?s3 = []" by (simp add: emptyStore_def)
      show "fs ?s3 P = Some obj" by simp
    qed
  next
    case 2
    let ?s4 = "?s3\<lparr>dbComponentComponentReferences := [(P, [P])],
                    dbComponentStateReferences := [(P, [])]\<rparr>"
    have r: "setReferences e ?s3 P {P} {} 0 = Inr ?s4"
      by (simp add: setReferences_def isRealisableComponentOrStatePath_def
          isValidComponentOrStatePathTxn_def isRealisablePath_def v old)
         (simp add: setStrings_def emptyStore_def)
    have v4: "isValidPathTxn ?s4 p \<longleftrightarrow> p = P" for p
      by (auto simp add: isValidPathTxn_def queryString_def)
    have reg: "registerValidPath e ?s2 P (hashPath e htSHA256 obj) refs {} [] 0 = Inr ?s4"
      using sp by (simp add: 2 registerValidPath_def registerValidPaths_def registerOne_unfold h r sd v4)
    have q: "queryXReferencesTxn e ?s4 P True 0 0 = Inr refs"
      by (simp add: queryXReferencesTxn_valid v4 2 queryStrings_def)
    show ?thesis
    proof (intro exI conjI)
      show "installImported e emptyStore obj P refs dv = Inr (?s4, P)"
        by (simp add: inst reg)
      show "isValidPathTxn ?s4 P" by (simp add: v4)
      show "queryString (dbValidPaths ?s4) P
          = Some (''sha256:'' @ printHash e (hashPath e htSHA256 obj))"
        by (simp add: queryString_def row_def)
      show "queryXReferencesTxn e ?s4 P True 0 0 = Inr refs" by (rule q)
      show "dbDerivers ?s4 = []" by (simp add: emptyStore_def)
      show "fs ?s4 P = Some obj" by simp
    qed
  qed
qed

lemma queryDeriver_recorded:
  assumes "isValidPathTxn s P" "queryDeriverString e s P = Some dv"
    and "derivationFromPathTxn s dv = Inr drv" "\<not> isStateDrv drv"
  shows "queryDeriver e s P = Inr dv"
  using assms by (simp add: queryDeriver_def isRealisablePath_def Let_def)

text \<open>
  \<^verbatim>\<open>queryDeriver\<close> reads the derivation of the deriver before it tests whether the lookup
  found a row. For a path without a deriver row it reads the derivation of the empty
  path, which is no object of the store: the query fails, and with it every export of such
  a path.
\<close>

lemma queryDeriver_without_row:
  assumes "isValidPathTxn s P" "queryDeriverString e s P = None" "fs s [] = None"
  shows "queryDeriver e s P = Inl SysError"
  using assms by (simp add: queryDeriver_def isRealisablePath_def Let_def derivationFromPathTxn_def)

lemma exportPath_without_deriver:
  assumes "isStorePath e P" "isValidPathTxn s P" "fs s P = Some obj"
    and "queryDeriverString e s P = None" "fs s [] = None"
  shows "exportPath e s P sign = Inl SysError"
  using assms
  by (simp add: exportPath_def assertStorePath_def queryXReferencesTxn_valid
      queryDeriver_without_row)

lemma exportPath_written:
  assumes "isStorePath e P" "isValidPathTxn s P" "fs s P = Some obj" "queryDeriver e s P = Inr dv"
  shows "exportPath e s P sign
    = signTrailer e sign ([TNar obj, TInt 0x4558494e, TStr P]
        @ writeStringSet (set (queryStrings (dbComponentComponentReferences s) P)) @ [TStr dv])"
  using assms
  by (simp add: exportPath_def assertStorePath_def queryXReferencesTxn_valid)

lemma signTrailer_returns:
  assumes "sign \<longrightarrow> (\<forall>h. rsaSign e h \<noteq> None)"
  shows "\<exists>stream. signTrailer e sign out = Inr stream"
proof (cases sign)
  case True
  with assms have "rsaSign e (printHash e (hashStream e out)) \<noteq> None" by blast
  then show ?thesis by (auto simp: signTrailer_def True)
next
  case False
  then show ?thesis by (simp add: signTrailer_def)
qed

text \<open>
  Claim C3, as amended. Let \<open>P\<close> be a valid component path that is a store path with
  contents on disk, whose component references are all \<open>P\<close> itself, whose recorded hash is
  the SHA-256 hash of its contents, and whose recorded deriver is a store path with a
  readable derivation that has no state outputs. Let the signing program succeed when a
  signature is asked for, and, when the import requires a signature, let the export be
  signed and the signature verify. Then \<open>exportPath\<close> of \<open>P\<close> returns a stream, and
  \<open>importPath\<close> of that stream into the empty store returns a store in which \<open>P\<close> is valid,
  with the contents, the recorded hash and the component references of the original, and
  with no deriver recorded: the deriver of the original is not valid in the target store,
  and the importer drops it.
\<close>

theorem export_import_roundtrip:
  assumes sp: "isStorePath e P" and v: "isValidPathTxn s P" and obj: "fs s P = Some obj"
    and self: "set (queryStrings (dbComponentComponentReferences s) P) \<subseteq> {P}"
    and hs: "queryString (dbValidPaths s) P
      = Some (''sha256:'' @ printHash e (hashPath e htSHA256 obj))"
    and ht: "htype (hashPath e htSHA256 obj) = htSHA256"
    and dv: "queryDeriverString e s P = Some dv" "isStorePath e dv"
      "derivationFromPathTxn s dv = Inr drv" "\<not> isStateDrv drv"
    and sgn: "sign \<longrightarrow> (\<forall>h. rsaSign e h \<noteq> None)"
    and sig: "requireSignature \<longrightarrow>
      sign \<and> (\<forall>h sg. rsaSign e h = Some sg \<longrightarrow> rsaVerify e sg = Some h)"
  shows "\<exists>stream t. exportPath e s P sign = Inr stream
     \<and> importPath e emptyStore requireSignature stream = Inr (t, P)
     \<and> isValidPathTxn t P
     \<and> fs t P = fs s P
     \<and> queryString (dbValidPaths t) P = queryString (dbValidPaths s) P
     \<and> (\<exists>R. queryXReferencesTxn e t P True 0 0 = Inr R
            \<and> queryXReferencesTxn e s P True 0 0 = Inr R)
     \<and> dbDerivers t = []"
proof -
  let ?refs = "set (queryStrings (dbComponentComponentReferences s) P)"
  let ?out = "[TNar obj, TInt 0x4558494e, TStr P] @ writeStringSet ?refs @ [TStr dv]"
  have d: "queryDeriver e s P = Inr dv"
    using v dv(1,3,4) by (rule queryDeriver_recorded)
  from signTrailer_returns [OF sgn] obtain stream where st: "signTrailer e sign ?out = Inr stream"
    by blast
  have ex: "exportPath e s P sign = Inr stream"
    using exportPath_written [OF sp v obj d] st by simp
  have card: "card ?refs < 2 ^ 32"
  proof -
    have "card ?refs \<le> card {P}" using self by (intro card_mono) simp_all
    then show ?thesis by simp
  qed
  have all: "\<forall>p\<in>?refs. isStorePath e p" using self sp by auto
  have tr: "readTrailer e requireSignature stream = Inr (obj, P, ?refs, dv)"
    using st sp _ _ card all sig by (rule readTrailer_written) (simp_all add: dv(2))
  from installImported_empty [OF sp self ht, of dv] obtain t where
    "installImported e emptyStore obj P ?refs dv = Inr (t, P)" "isValidPathTxn t P"
    "queryString (dbValidPaths t) P = Some (''sha256:'' @ printHash e (hashPath e htSHA256 obj))"
    "queryXReferencesTxn e t P True 0 0 = Inr ?refs" "dbDerivers t = []" "fs t P = Some obj"
    by blast
  then show ?thesis
    using obj tr v hs ex by (auto simp: importPath_def queryXReferencesTxn_valid)
qed

theorem export_import_roundtrip_witness:
  "\<exists>stream t. exportPath exampleEnv selfStore pathP True = Inr stream
     \<and> importPath exampleEnv emptyStore True stream = Inr (t, pathP)
     \<and> isValidPathTxn t pathP
     \<and> fs t pathP = Some (File ''data'')
     \<and> queryString (dbValidPaths t) pathP = Some ''sha256:data''
     \<and> queryXReferencesTxn exampleEnv t pathP True 0 0 = Inr {pathP}
     \<and> dbDerivers t = []"
proof -
  have row: "queryString (dbValidPaths selfStore) pathP = Some ''sha256:data''"
    by (simp add: queryString_def selfStore_def sourceStore_def)
  have hs: "queryString (dbValidPaths selfStore) pathP
      = Some (''sha256:'' @ printHash exampleEnv (hashPath exampleEnv htSHA256 (File ''data'')))"
    by (simp add: row exampleEnv_def)
  have ht: "htype (hashPath exampleEnv htSHA256 (File ''data'')) = htSHA256"
    by (simp add: exampleEnv_def)
  have dv: "queryDeriverString exampleEnv selfStore pathP = Some drvD"
    by (simp add: queryDeriverString_def selfStore_rows)
  have rd: "derivationFromPathTxn selfStore drvD = Inr plainDrv"
    by (simp add: derivationFromPathTxn_def selfStore_rows)
  have sgn: "True \<longrightarrow> (\<forall>h. rsaSign exampleEnv h \<noteq> None)"
    by (simp add: exampleEnv_def)
  have sig: "True \<longrightarrow> True \<and> (\<forall>h sg. rsaSign exampleEnv h = Some sg \<longrightarrow> rsaVerify exampleEnv sg = Some h)"
    by (auto simp add: exampleEnv_def)
  have self: "set (queryStrings (dbComponentComponentReferences selfStore) pathP) \<subseteq> {pathP}"
    by (simp add: selfStore_rows)
  from export_import_roundtrip [OF isStorePath_pathP sourceStore_valid(2) selfStore_rows(1) self hs ht
      dv isStorePath_drvs(1) rd plainDrv_not_state sgn sig]
  show ?thesis
    using sourceStore_valid
    by (auto simp add: selfStore_rows row queryXReferencesTxn_valid)
qed

end
